(* ===== verification/Warp_Prelude.thy ===== *)
theory Warp_Prelude
  imports
    Main
    "HOL-Library.Char_ord"
    "HOL-Library.List_Lexorder"
    "HOL-Library.Sublist"
    "HOL-Library.Finite_Map"
    "HOL-Library.Word"
begin

text \<open>
  What every component shares: Go strings and the functions of the packages strings, strconv and
  fmt that the operator calls on them, Go maps with sorted keys, and the first-occurrence filter
  behind every seen-set loop of the program.

  A Go string is a sequence of bytes, an Isabelle \<^typ>\<open>string\<close> a list of \<^typ>\<open>char\<close>, that is of
  bytes, so len is \<^const>\<open>length\<close> and the order of Go strings is the lexicographic order of
  \<^theory_text>\<open>HOL-Library.List_Lexorder\<close>. A Go map is a finite map: two maps with the same entries are the
  same map, and the code never iterates over one except in sorted key order.
\<close>

named_theorems warp_defs \<open>definitions a property unfolds when it evaluates a concrete object\<close>

section \<open>The package strings\<close>

text \<open>strings.HasPrefix, strings.HasSuffix and strings.Contains, with the argument order of Go.\<close>

definition HasPrefix :: "string \<Rightarrow> string \<Rightarrow> bool" where
  "HasPrefix s p = prefix p s"

definition HasSuffix :: "string \<Rightarrow> string \<Rightarrow> bool" where
  "HasSuffix s p = suffix p s"

definition Contains :: "string \<Rightarrow> string \<Rightarrow> bool" where
  "Contains s sub = sublist sub s"

text \<open>strings.LastIndex for a separator of one byte: -1 when the byte does not occur.\<close>

fun LastIndex :: "string \<Rightarrow> char \<Rightarrow> int" where
  "LastIndex [] c = -1"
| "LastIndex (x # xs) c =
     (let i = LastIndex xs c in if 0 \<le> i then i + 1 else if x = c then 0 else -1)"

text \<open>strings.TrimRight for a cutset of one byte.\<close>

definition TrimRight :: "string \<Rightarrow> char \<Rightarrow> string" where
  "TrimRight s c = rev (dropWhile (\<lambda>x. x = c) (rev s))"

text \<open>
  strings.TrimSpace removes leading and trailing white space as Unicode defines it. The program only
  compares the result with the empty string, so what matters is whether a string consists of white
  space: the UTF-8 encodings of the code points for which unicode.IsSpace holds.
\<close>

definition space_runes :: "string list" where
  "space_runes =
     map (map char_of)
       ([[9], [10], [11], [12], [13], [32], [0xC2, 0x85], [0xC2, 0xA0], [0xE1, 0x9A, 0x80],
         [0xE2, 0x80, 0xA8], [0xE2, 0x80, 0xA9], [0xE2, 0x80, 0xAF], [0xE2, 0x81, 0x9F],
         [0xE3, 0x80, 0x80]] @ map (\<lambda>b. [0xE2, 0x80, b]) [0x80 ..< 0x8B] :: nat list list)"

fun drop_first_of :: "string list \<Rightarrow> string \<Rightarrow> string option" where
  "drop_first_of [] s = None"
| "drop_first_of (p # ps) s =
     (if p \<noteq> [] \<and> prefix p s then Some (drop (length p) s) else drop_first_of ps s)"

lemma drop_first_of_shorter: "drop_first_of ps s = Some t \<Longrightarrow> length t < length s"
proof (induction ps)
  case (Cons p ps)
  then show ?case
    by (cases s; cases p) (auto split: if_splits)
qed simp

function trim_runes :: "string list \<Rightarrow> string \<Rightarrow> string" where
  "trim_runes ps s = (case drop_first_of ps s of None \<Rightarrow> s | Some t \<Rightarrow> trim_runes ps t)"
  by pat_completeness auto
termination
  by (relation "measure (\<lambda>(ps, s). length s)") (auto dest: drop_first_of_shorter)

declare trim_runes.simps [simp del]

definition TrimSpace :: "string \<Rightarrow> string" where
  "TrimSpace s = rev (trim_runes (map rev space_runes) (rev (trim_runes space_runes s)))"

lemma trim_runes_Nil [simp]: "trim_runes ps [] = []"
proof -
  have "drop_first_of ps [] = None" for ps
    by (induction ps) auto
  then show ?thesis by (subst trim_runes.simps) simp
qed

lemma TrimSpace_Nil [simp]: "TrimSpace [] = []"
  by (simp add: TrimSpace_def)

lemma TrimRight_last: "TrimRight s c \<noteq> [] \<Longrightarrow> last (TrimRight s c) \<noteq> c"
  using hd_dropWhile [of "\<lambda>x. x = c" "rev s"]
  by (simp add: TrimRight_def last_rev del: dropWhile_eq_Nil_conv)

lemma TrimRight_prefix: "prefix (TrimRight s c) s"
proof -
  have "rev s = takeWhile (\<lambda>x. x = c) (rev s) @ dropWhile (\<lambda>x. x = c) (rev s)"
    by simp
  then have "s = TrimRight s c @ rev (takeWhile (\<lambda>x. x = c) (rev s))"
    unfolding TrimRight_def by (metis rev_append rev_rev_ident)
  then show ?thesis by (metis prefixI)
qed

lemma length_TrimRight: "length (TrimRight s c) \<le> length s"
  by (rule prefix_length_le [OF TrimRight_prefix])

lemma TrimRight_keeps_hd: "s \<noteq> [] \<Longrightarrow> hd s \<noteq> c \<Longrightarrow> TrimRight s c \<noteq> [] \<and> hd (TrimRight s c) = hd s"
proof -
  assume s: "s \<noteq> []" "hd s \<noteq> c"
  then have "TrimRight s c \<noteq> []"
    by (auto simp: TrimRight_def)
  moreover from TrimRight_prefix [of s c] obtain t where "s = TrimRight s c @ t"
    by (auto simp: prefix_def)
  ultimately show ?thesis by (metis hd_append2)
qed

lemma LastIndex_less: "LastIndex s c < int (length s)" "-1 \<le> LastIndex s c"
  by (induction s) (auto simp: Let_def)

lemma LastIndex_none [simp]: "c \<notin> set s \<Longrightarrow> LastIndex s c = -1"
  by (induction s) (auto simp: Let_def)

lemma LastIndex_append_sep: "c \<notin> set t \<Longrightarrow> LastIndex (s @ c # t) c = int (length s)"
  by (induction s) (auto simp: Let_def)

section \<open>Decimal printing\<close>

text \<open>The verb \<open>%d\<close> of fmt for an integer: an optional sign and decimal digits without leading zeros.\<close>

definition digit :: "nat \<Rightarrow> char" where
  "digit d = ''0123456789'' ! d"

fun nat_dec :: "nat \<Rightarrow> string" where
  "nat_dec n = (if n < 10 then [digit n] else nat_dec (n div 10) @ [digit (n mod 10)])"

declare nat_dec.simps [simp del]

definition int_dec :: "int \<Rightarrow> string" where
  "int_dec i = (if i < 0 then CHR ''-'' # nat_dec (nat (- i)) else nat_dec (nat i))"

lemma less_10_cases: "(d::nat) < 10 \<Longrightarrow> d \<in> {0, 1, 2, 3, 4, 5, 6, 7, 8, 9}"
  by auto

lemma digit_inj: "d < 10 \<Longrightarrow> e < 10 \<Longrightarrow> digit d = digit e \<Longrightarrow> d = e"
  by (drule less_10_cases, drule less_10_cases) (auto simp: digit_def)

definition digit_chars :: "char set" where
  "digit_chars = set ''0123456789''"

lemma digit_range: "d < 10 \<Longrightarrow> digit d \<in> digit_chars"
  by (drule less_10_cases) (auto simp: digit_def digit_chars_def)

lemma minus_no_digit [simp]: "CHR ''-'' \<notin> digit_chars" "CHR ''/'' \<notin> digit_chars"
  by (simp_all add: digit_chars_def)

lemma nat_dec_digits: "set (nat_dec n) \<subseteq> digit_chars"
proof (induction n rule: nat_dec.induct)
  case (1 n)
  then show ?case
    by (cases "n < 10") (simp_all add: nat_dec.simps [of n] digit_range)
qed

lemma nat_dec_nonempty [simp]: "nat_dec n \<noteq> []"
  by (subst nat_dec.simps) simp

lemma nat_dec_inj: "nat_dec m = nat_dec n \<Longrightarrow> m = n"
proof (induction m arbitrary: n rule: nat_dec.induct)
  case (1 m)
  show ?case
  proof (cases "m < 10 \<or> n < 10")
    case True
    with "1.prems" show ?thesis
      by (auto simp: nat_dec.simps [of m] nat_dec.simps [of n] dest: digit_inj split: if_splits
          dest!: sym [of "[]"])
  next
    case False
    with "1.prems" have "nat_dec (m div 10) = nat_dec (n div 10)" "digit (m mod 10) = digit (n mod 10)"
      by (auto simp: nat_dec.simps [of m] nat_dec.simps [of n])
    with False "1.IH" have "m div 10 = n div 10" "m mod 10 = n mod 10"
      by (auto intro: digit_inj)
    then show ?thesis by (metis div_mult_mod_eq)
  qed
qed

lemma nat_dec_eq [simp]: "nat_dec m = nat_dec n \<longleftrightarrow> m = n"
  by (auto dest: nat_dec_inj)

lemma int_dec_nonempty [simp]: "int_dec i \<noteq> []"
  by (simp add: int_dec_def)

lemma int_dec_chars: "set (int_dec i) \<subseteq> insert (CHR ''-'') digit_chars"
  using nat_dec_digits [of "nat i"] nat_dec_digits [of "nat (- i)"]
  by (cases "i < 0") (auto simp: int_dec_def)

lemma int_dec_inj: "int_dec i = int_dec j \<longleftrightarrow> i = j"
proof -
  have neg: "nat_dec n \<noteq> CHR ''-'' # s" for n s
    using nat_dec_digits [of n] by (metis insert_subset list.simps(15) minus_no_digit(1))
  show ?thesis
    by (cases "i < 0"; cases "j < 0") (auto simp: int_dec_def neg neg [THEN not_sym])
qed

lemma length_nat_dec: "n < 10 ^ k \<Longrightarrow> 0 < k \<Longrightarrow> length (nat_dec n) \<le> k"
proof (induction k arbitrary: n)
  case 0
  then show ?case by simp
next
  case (Suc k)
  show ?case
  proof (cases "n < 10")
    case True
    then show ?thesis by (simp add: nat_dec.simps [of n])
  next
    case False
    with Suc.prems have "n div 10 < 10 ^ k" "0 < k"
      by (auto intro: gr0I)
    with Suc.IH False show ?thesis by (simp add: nat_dec.simps [of n])
  qed
qed

section \<open>Maps with sorted keys\<close>

text \<open>\<open>slices.Sorted(maps.Keys(m))\<close>, and \<open>len(m) == 0\<close>.\<close>

definition sorted_keys :: "('k::linorder, 'v) fmap \<Rightarrow> 'k list" where
  "sorted_keys m = sorted_list_of_fset (fmdom m)"

definition map_empty :: "('k, 'v) fmap \<Rightarrow> bool" where
  "map_empty m = (m = fmempty)"

lemma set_sorted_keys [simp]: "set (sorted_keys m) = fmdom' m"
  by (simp add: sorted_keys_def fmdom'_alt_def)

lemma in_sorted_keys: "k \<in> set (sorted_keys m) \<longleftrightarrow> (\<exists>v. fmlookup m k = Some v)"
  by (simp add: fmlookup_dom'_iff)

lemma sorted_sorted_keys: "sorted (sorted_keys m)" "distinct (sorted_keys m)"
  by (simp_all add: sorted_keys_def sorted_list_of_fset.rep_eq)

lemma sorted_keys_of_list [warp_defs]:
  "sorted_keys (fmap_of_list xs) = sort (remdups (map fst xs))"
proof -
  have "sorted_list_of_set (set ys) = sort (remdups ys)" for ys :: "'a list"
    by (rule sorted_list_of_set_sort_remdups)
  then show ?thesis
    by (simp add: sorted_keys_def sorted_list_of_fset.rep_eq fset_of_list.rep_eq flip: set_map)
qed

lemma sorted_keys_fmempty [simp]: "sorted_keys fmempty = []"
  by (simp add: sorted_keys_def sorted_list_of_fset.rep_eq)

lemma map_empty_fmempty [simp]: "map_empty fmempty"
  by (simp add: map_empty_def)

lemma map_empty_iff: "map_empty m \<longleftrightarrow> (\<forall>k. fmlookup m k = None)"
  by (auto simp: map_empty_def intro: fmap_ext)

lemma all_keys_iff: "(\<forall>k \<in> fmdom' m. P k) \<longleftrightarrow> (\<forall>k v. fmlookup m k = Some v \<longrightarrow> P k)"
  by (auto simp: fmlookup_dom'_iff)

lemma concat_map_Nil_iff: "concat (map f xs) = [] \<longleftrightarrow> (\<forall>x \<in> set xs. f x = [])"
  by simp

lemma concat_keys_Nil_iff:
  "concat (map f (sorted_keys m)) = [] \<longleftrightarrow> (\<forall>k v. fmlookup m k = Some v \<longrightarrow> f k = [])"
  by (simp add: all_keys_iff)

section \<open>Loops with an index\<close>

text \<open>
  \<open>for i, x := range xs { out = append(out, f(i, x)...) }\<close>, from index \<open>i\<close> on.
\<close>

fun for_range :: "nat \<Rightarrow> (nat \<Rightarrow> 'a \<Rightarrow> 'b list) \<Rightarrow> 'a list \<Rightarrow> 'b list" where
  "for_range i f [] = []"
| "for_range i f (x # xs) = f i x @ for_range (Suc i) f xs"

lemma for_range_Nil_iff:
  assumes "\<And>j x. f j x = [] \<longleftrightarrow> P x"
  shows "for_range i f xs = [] \<longleftrightarrow> (\<forall>x \<in> set xs. P x)"
  by (induction xs arbitrary: i) (simp_all add: assms)

lemma for_range_if_Nil_iff [simp]:
  "for_range i (\<lambda>j x. if P x then [e j x] else []) xs = [] \<longleftrightarrow> (\<forall>x \<in> set xs. \<not> P x)"
  by (rule for_range_Nil_iff) simp

section \<open>Seen sets\<close>

text \<open>
  The loops that keep the first element of each key and skip the rest share one filter:
  \<open>seen := map[K]bool{}; for x { k := key(x); if seen[k] {continue}; seen[k] = true; out = append(out, x) }\<close>.
\<close>

fun first_by :: "('a \<Rightarrow> 'k) \<Rightarrow> ('k \<Rightarrow> bool) \<Rightarrow> 'a list \<Rightarrow> 'a list" where
  "first_by key seen [] = []"
| "first_by key seen (x # xs) =
     (if seen (key x) then first_by key seen xs
      else x # first_by key (seen(key x := True)) xs)"

lemma first_by_subset: "set (first_by key seen xs) \<subseteq> set xs"
proof (induction xs arbitrary: seen)
  case (Cons x xs)
  then show ?case by (cases "seen (key x)") (auto simp: subset_iff)
qed simp

lemma first_by_keys: "key ` set (first_by key seen xs) = key ` set xs - {k. seen k}"
proof (induction xs arbitrary: seen)
  case (Cons x xs)
  then show ?case by (cases "seen (key x)") (auto simp: Cons.IH image_iff)
qed simp

lemma first_by_unseen: "x \<in> set (first_by key seen xs) \<Longrightarrow> \<not> seen (key x)"
  using first_by_keys [of key seen xs] by blast

lemma first_by_distinct: "distinct (map key (first_by key seen xs))"
proof (induction xs arbitrary: seen)
  case (Cons x xs)
  then show ?case by (auto dest: first_by_unseen)
qed simp

lemma first_by_id:
  "distinct (map key xs) \<Longrightarrow> (\<And>x. x \<in> set xs \<Longrightarrow> \<not> seen (key x)) \<Longrightarrow> first_by key seen xs = xs"
proof (induction xs arbitrary: seen)
  case (Cons x xs)
  have "first_by key (seen(key x := True)) xs = xs"
    by (rule Cons.IH) (use Cons.prems in \<open>auto simp: image_iff\<close>)
  with Cons.prems show ?case by simp
qed simp

lemma first_by_Nil_iff: "first_by key (\<lambda>_. False) xs = [] \<longleftrightarrow> xs = []"
  by (cases xs) auto

end
