(* ===== verification/Warp_K8s.thy ===== *)
theory Warp_K8s
  imports Warp_Prelude
begin

text \<open>
  The Kubernetes values the operator reads and writes, and the texts and errors it makes of them.

  The types of k8s.io/api and k8s.io/apimachinery are not part of the repository. What the operator
  looks into is a \<^theory_text>\<open>record\<close> with the fields it uses; what it only carries from a WebApp to a
  Deployment or an HPA (environment variables, probes, affinity, tolerations, \<dots>) is an opaque value
  with its serialised form as payload, and nothing here inspects the payload. A quantity is opaque in
  the same way: comparing, printing and reading the sign of one are operations of the parameter
  \<open>k8s\<close> of \<^theory_text>\<open>Warp_Api\<close>.

  The int32 and int64 fields of the objects are only copied, compared and printed, never added or
  multiplied, so they are integers here and no wrap-around can arise.

  Field names carry the initials of their type, since Isabelle record fields are global.
\<close>

type_synonym int32 = int
type_synonym int64 = int
type_synonym string_map = "(string, string) fmap"

section \<open>Opaque values\<close>

datatype quantity = Quantity string
datatype EnvVar = EnvVar string
datatype EnvFromSource = EnvFromSource string
datatype Probe = Probe string
datatype LocalObjectReference = LocalObjectReference string
datatype Toleration = Toleration string
datatype Affinity = Affinity string
datatype ResourceClaim = ResourceClaim string
datatype RollingUpdateDeployment = RollingUpdateDeployment string
datatype HorizontalPodAutoscalerBehavior = HorizontalPodAutoscalerBehavior string
datatype LabelSelectorRequirement = LabelSelectorRequirement string

type_synonym ResourceList = "(string, quantity) fmap"

record ResourceRequirements =
  rr_Limits :: ResourceList
  rr_Requests :: ResourceList
  rr_Claims :: "ResourceClaim list"

record LabelSelector =
  ls_MatchLabels :: string_map
  ls_MatchExpressions :: "LabelSelectorRequirement list"

text \<open>The constants of k8s.io/api the program names. Each is a Go string type.\<close>

abbreviation ProtocolTCP :: string where "ProtocolTCP \<equiv> ''TCP''"
abbreviation ProtocolUDP :: string where "ProtocolUDP \<equiv> ''UDP''"
abbreviation ServiceTypeClusterIP :: string where "ServiceTypeClusterIP \<equiv> ''ClusterIP''"
abbreviation RollingUpdateDeploymentStrategyType :: string where
  "RollingUpdateDeploymentStrategyType \<equiv> ''RollingUpdate''"
abbreviation RecreateDeploymentStrategyType :: string where
  "RecreateDeploymentStrategyType \<equiv> ''Recreate''"
abbreviation ResourceCPU :: string where "ResourceCPU \<equiv> ''cpu''"
abbreviation ResourceMemory :: string where "ResourceMemory \<equiv> ''memory''"
abbreviation StorageMediumMemory :: string where "StorageMediumMemory \<equiv> ''Memory''"
abbreviation ConditionTrue :: string where "ConditionTrue \<equiv> ''True''"
abbreviation ConditionFalse :: string where "ConditionFalse \<equiv> ''False''"
abbreviation ConditionUnknown :: string where "ConditionUnknown \<equiv> ''Unknown''"
abbreviation DeploymentAvailable :: string where "DeploymentAvailable \<equiv> ''Available''"
abbreviation DeploymentProgressing :: string where "DeploymentProgressing \<equiv> ''Progressing''"
abbreviation EventTypeNormal :: string where "EventTypeNormal \<equiv> ''Normal''"
abbreviation EventTypeWarning :: string where "EventTypeWarning \<equiv> ''Warning''"

section \<open>Texts, field errors and Go errors\<close>

text \<open>
  A text the code formats is kept as the call that formats it: \<open>Sprintf fmt args\<close> stands for the
  string \<open>fmt.Sprintf(fmt, args\<dots>)\<close>. Where the program computes with the result (port names and map
  keys) the string is computed instead, with \<^const>\<open>int_dec\<close>.

  A field path is the list of its steps, a field error what field.Required, field.Invalid and
  field.Duplicate put into one. A Go error is a value of \<open>go_error\<close>: \<open>Errorf\<close> for fmt.Errorf, with
  \<open>AWrap\<close> for an argument of the verb \<open>%w\<close> and \<open>AErr\<close> for an error printed with \<open>%s\<close> or \<open>%v\<close>;
  \<open>TerminalError\<close> and \<open>ExternalError\<close> for the two wrappers of the controller package; \<open>ApiNotFound\<close>
  and \<open>ApiFailure\<close> for what a call of the Kubernetes client returns, told apart by
  apierrors.IsNotFound.
\<close>

datatype path_step = Child string | Index nat | Key string

type_synonym field_path = "path_step list"

datatype error_type = Required | Invalid | Duplicate

datatype bad_value =
    NoValue
  | BadString string
  | BadInt int
  | BadSelector LabelSelector
  | BadRollingUpdate RollingUpdateDeployment

datatype msg = Lit string | Sprintf string "arg list" | ErrorText go_error
  and arg = AStr string | AInt int | AStrs "string list" | AFieldErr field_error
    | AErr go_error | AWrap go_error
  and field_error = FieldError field_path error_type bad_value msg
  and go_error = ErrorNew string | Errorf string "arg list" | LibError string
    | ApiNotFound string | ApiFailure string
    | InvalidObject string string "field_error list" | Aggregate "field_error list"
    | TerminalError go_error | ExternalError go_error

type_synonym error_list = "field_error list"

definition field_Required :: "field_path \<Rightarrow> msg \<Rightarrow> field_error" where
  "field_Required p m = FieldError p Required NoValue m"

definition field_Invalid :: "field_path \<Rightarrow> bad_value \<Rightarrow> msg \<Rightarrow> field_error" where
  "field_Invalid p v m = FieldError p Invalid v m"

definition field_Duplicate :: "field_path \<Rightarrow> msg \<Rightarrow> field_error" where
  "field_Duplicate p m = FieldError p Duplicate NoValue m"

text \<open>apierrors.IsNotFound follows the chain of wrapped errors, as errors.As does.\<close>

fun IsNotFound :: "go_error \<Rightarrow> bool" and IsNotFound_args :: "arg list \<Rightarrow> bool" where
  "IsNotFound (ApiNotFound s) = True"
| "IsNotFound (Errorf f as) = IsNotFound_args as"
| "IsNotFound _ = False"
| "IsNotFound_args [] = False"
| "IsNotFound_args (AWrap e # as) = (IsNotFound e \<or> IsNotFound_args as)"
| "IsNotFound_args (_ # as) = IsNotFound_args as"

section \<open>Object metadata\<close>

record OwnerReference =
  or_APIVersion :: string
  or_Kind :: string
  or_Name :: string
  or_UID :: string
  or_Controller :: "bool option"
  or_BlockOwnerDeletion :: "bool option"

text \<open>The field FieldsV1 is a pointer; its value is the raw JSON.\<close>

record ManagedFieldsEntry =
  mf_Manager :: string
  mf_FieldsV1 :: "string option"

record ObjectMeta =
  om_Name :: string
  om_Namespace :: string
  om_UID :: string
  om_Generation :: int64
  om_DeletionTimestamp :: "string option"
  om_Labels :: string_map
  om_Annotations :: string_map
  om_OwnerReferences :: "OwnerReference list"
  om_Finalizers :: "string list"
  om_ManagedFields :: "ManagedFieldsEntry list"

definition zero_ObjectMeta :: ObjectMeta where
  "zero_ObjectMeta =
     \<lparr>om_Name = [], om_Namespace = [], om_UID = [], om_Generation = 0, om_DeletionTimestamp = None,
      om_Labels = fmempty, om_Annotations = fmempty, om_OwnerReferences = [], om_Finalizers = [],
      om_ManagedFields = []\<rparr>"

record Condition =
  co_Type :: string
  co_Status :: string
  co_Reason :: string
  co_Message :: msg
  co_ObservedGeneration :: int64
  co_LastTransitionTime :: string

section \<open>apps/v1\<close>

record CoreContainerPort =
  kp_Name :: string
  kp_ContainerPort :: int32
  kp_Protocol :: string

record SecurityContext =
  sc_AllowPrivilegeEscalation :: "bool option"
  sc_Privileged :: "bool option"
  sc_RunAsNonRoot :: "bool option"
  sc_CapabilitiesDrop :: "string list"
  sc_ReadOnlyRootFilesystem :: "bool option"
  sc_RunAsUser :: "int64 option"
  sc_RunAsGroup :: "int64 option"

record CorePodSecurityContext =
  ps_RunAsNonRoot :: "bool option"
  ps_SeccompProfile :: "string option"
  ps_RunAsUser :: "int64 option"
  ps_RunAsGroup :: "int64 option"
  ps_FSGroup :: "int64 option"

record VolumeMount =
  vm_Name :: string
  vm_MountPath :: string

record EmptyDirVolumeSource =
  ed_Medium :: string
  ed_SizeLimit :: "quantity option"

record Volume =
  vo_Name :: string
  vo_EmptyDir :: EmptyDirVolumeSource

record CoreContainer =
  kc_Name :: string
  kc_Image :: string
  kc_Command :: "string list"
  kc_Args :: "string list"
  kc_Ports :: "CoreContainerPort list"
  kc_Env :: "EnvVar list"
  kc_EnvFrom :: "EnvFromSource list"
  kc_Resources :: ResourceRequirements
  kc_LivenessProbe :: "Probe option"
  kc_ReadinessProbe :: "Probe option"
  kc_StartupProbe :: "Probe option"
  kc_SecurityContext :: SecurityContext
  kc_VolumeMounts :: "VolumeMount list"

record PodSpec =
  po_Containers :: "CoreContainer list"
  po_ImagePullSecrets :: "LocalObjectReference list"
  po_NodeSelector :: string_map
  po_Tolerations :: "Toleration list"
  po_Affinity :: "Affinity option"
  po_ServiceAccountName :: string
  po_AutomountServiceAccountToken :: "bool option"
  po_SecurityContext :: CorePodSecurityContext
  po_Volumes :: "Volume list"

record PodTemplateSpec =
  pt_Labels :: string_map
  pt_Annotations :: string_map
  pt_Spec :: PodSpec

record DeploymentStrategy =
  st_Type :: string
  st_RollingUpdate :: "RollingUpdateDeployment option"

record DeploymentSpec =
  de_Replicas :: "int32 option"
  de_Selector :: LabelSelector
  de_Strategy :: DeploymentStrategy
  de_Template :: PodTemplateSpec

record DeploymentConditionRec =
  dc_Type :: string
  dc_Status :: string
  dc_Reason :: string
  dc_Message :: string

record DeploymentStatus =
  ds_ObservedGeneration :: int64
  ds_Replicas :: int32
  ds_UpdatedReplicas :: int32
  ds_ReadyReplicas :: int32
  ds_AvailableReplicas :: int32
  ds_Conditions :: "DeploymentConditionRec list"

definition zero_DeploymentStatus :: DeploymentStatus where
  "zero_DeploymentStatus =
     \<lparr>ds_ObservedGeneration = 0, ds_Replicas = 0, ds_UpdatedReplicas = 0, ds_ReadyReplicas = 0,
      ds_AvailableReplicas = 0, ds_Conditions = []\<rparr>"

record DeploymentObj =
  dp_Meta :: ObjectMeta
  dp_Spec :: DeploymentSpec
  dp_Status :: DeploymentStatus

section \<open>core/v1 Service, networking/v1 Ingress, autoscaling/v2 HorizontalPodAutoscaler\<close>

datatype IntOrString = FromInt32 int32 | FromString string

record ServicePort =
  sp_Name :: string
  sp_Port :: int32
  sp_TargetPort :: IntOrString
  sp_Protocol :: string

record ServiceObj =
  sv_Meta :: ObjectMeta
  sv_Type :: string
  sv_Selector :: string_map
  sv_Ports :: "ServicePort list"

record HTTPIngressPath =
  hp_Path :: string
  hp_PathType :: string
  hp_ServiceName :: string
  hp_PortName :: string

record IngressRule =
  ir_Host :: string
  ir_Paths :: "HTTPIngressPath list"

record IngressObj =
  in_Meta :: ObjectMeta
  in_IngressClassName :: "string option"
  in_Rules :: "IngressRule list"

record CrossVersionObjectReference =
  xr_APIVersion :: string
  xr_Kind :: string
  xr_Name :: string

record MetricSpec =
  ms_Type :: string
  ms_ResourceName :: string
  ms_TargetType :: string
  ms_AverageUtilization :: "int32 option"

record HPAObj =
  hs_Meta :: ObjectMeta
  hs_ScaleTargetRef :: CrossVersionObjectReference
  hs_MinReplicas :: "int32 option"
  hs_MaxReplicas :: int32
  hs_Metrics :: "MetricSpec list"
  hs_Behavior :: "HorizontalPodAutoscalerBehavior option"

text \<open>The four kinds of object the operator manages.\<close>

datatype kind = KDeployment | KService | KIngress | KHPA

datatype object =
    ODeployment DeploymentObj
  | OService ServiceObj
  | OIngress IngressObj
  | OHPA HPAObj

fun kind_of :: "object \<Rightarrow> kind" where
  "kind_of (ODeployment d) = KDeployment"
| "kind_of (OService s) = KService"
| "kind_of (OIngress i) = KIngress"
| "kind_of (OHPA h) = KHPA"

fun meta_of :: "object \<Rightarrow> ObjectMeta" where
  "meta_of (ODeployment d) = dp_Meta d"
| "meta_of (OService s) = sv_Meta s"
| "meta_of (OIngress i) = in_Meta i"
| "meta_of (OHPA h) = hs_Meta h"

end
