(* ===== verification/Warp_Api.thy ===== *)
theory Warp_Api
  imports Complex_Main Warp_K8s
begin

text \<open>
  The package \<open>api/v1alpha1\<close>: the two custom resources, field by field, and the parameter \<open>k8s\<close> that
  stands for the functions of apimachinery and controller-runtime the operator calls.

  A Go pointer field is an \<open>option\<close>, a slice a list (nil and empty slices are not told apart by any
  code of the program), a map a finite map. The embedded metav1.ObjectMeta of an object is the field
  \<open>wa_Meta\<close> or \<open>wp_Meta\<close>; the TypeMeta is the object's Isabelle type.
\<close>

section \<open>Constants\<close>

definition GroupVersionString :: string where
  [simp]: "GroupVersionString = ''webapps.example.com/v1alpha1''"

definition Finalizer :: string where
  [simp]: "Finalizer = ''webapps.example.com/finalizer''"

definition ConditionProgressing :: string where [simp]: "ConditionProgressing = ''Progressing''"
definition ConditionAvailable :: string where [simp]: "ConditionAvailable = ''Available''"
definition ConditionDegraded :: string where [simp]: "ConditionDegraded = ''Degraded''"
definition ConditionReady :: string where [simp]: "ConditionReady = ''Ready''"

definition ScratchMediumDisk :: string where [simp]: "ScratchMediumDisk = ''Disk''"
definition ScratchMediumMemory :: string where [simp]: "ScratchMediumMemory = ''Memory''"

definition EnforcementEnforce :: string where [simp]: "EnforcementEnforce = ''Enforce''"
definition EnforcementWarn :: string where [simp]: "EnforcementWarn = ''Warn''"
definition EnforcementAudit :: string where [simp]: "EnforcementAudit = ''Audit''"

section \<open>WebApp\<close>

record ScratchVolume =
  sw_Name :: string
  sw_MountPath :: string
  sw_Medium :: string
  sw_SizeLimit :: "quantity option"

record ContainerSecurityContext =
  cs_ReadOnlyRootFilesystem :: "bool option"
  cs_RunAsUser :: "int64 option"
  cs_RunAsGroup :: "int64 option"

record PodSecurityContext =
  px_RunAsUser :: "int64 option"
  px_RunAsGroup :: "int64 option"
  px_FSGroup :: "int64 option"

record ContainerPort =
  cp_Name :: string
  cp_ContainerPort :: int32
  cp_Protocol :: string

record Container =
  cn_Name :: string
  cn_Image :: string
  cn_Ports :: "ContainerPort list"
  cn_Env :: "EnvVar list"
  cn_EnvFrom :: "EnvFromSource list"
  cn_Resources :: ResourceRequirements
  cn_Command :: "string list"
  cn_Args :: "string list"
  cn_LivenessProbe :: "Probe option"
  cn_ReadinessProbe :: "Probe option"
  cn_StartupProbe :: "Probe option"
  cn_SecurityContext :: "ContainerSecurityContext option"
  cn_ScratchVolumes :: "ScratchVolume list"

record AutoscalingSpec =
  as_Enabled :: bool
  as_MinReplicas :: "int32 option"
  as_MaxReplicas :: "int32 option"
  as_TargetCPU :: "int32 option"
  as_TargetMemory :: "int32 option"
  as_Behavior :: "HorizontalPodAutoscalerBehavior option"

record StrategySpec =
  ss_Type :: string
  ss_RollingUpdate :: "RollingUpdateDeployment option"

record WebAppSpec =
  ws_Containers :: "Container list"
  ws_Domain :: string
  ws_IngressClassName :: "string option"
  ws_IngressPortName :: string
  ws_ServiceType :: string
  ws_Replicas :: "int32 option"
  ws_Autoscaling :: "AutoscalingSpec option"
  ws_Strategy :: "StrategySpec option"
  ws_ImagePullSecrets :: "LocalObjectReference list"
  ws_NodeSelector :: string_map
  ws_Tolerations :: "Toleration list"
  ws_Affinity :: "Affinity option"
  ws_ServiceAccountName :: string
  ws_AutomountServiceAccountToken :: "bool option"
  ws_SecurityContext :: "PodSecurityContext option"
  ws_PodLabels :: string_map
  ws_PodAnnotations :: string_map

record WebAppStatus =
  wt_ObservedGeneration :: int64
  wt_Replicas :: int32
  wt_ReadyReplicas :: int32
  wt_AvailableReplicas :: int32
  wt_UpdatedReplicas :: int32
  wt_Selector :: string
  wt_IngressURL :: string
  wt_Conditions :: "Condition list"

record WebApp =
  wa_Meta :: ObjectMeta
  wa_Spec :: WebAppSpec
  wa_Status :: WebAppStatus

section \<open>WebAppPolicy\<close>

record ResourcePolicy =
  rp_MinRequests :: ResourceList
  rp_MaxLimits :: ResourceList
  rp_RequireRequests :: bool
  rp_RequireLimits :: bool

record WebAppPolicySpec =
  py_NamespaceSelector :: "LabelSelector option"
  py_Resources :: "ResourcePolicy option"
  py_AllowedServiceAccounts :: "string list"
  py_ForbiddenPodAnnotationPrefixes :: "string list"
  py_MaxScratchSize :: "quantity option"
  py_MaxReplicas :: "int32 option"
  py_Enforcement :: string

record WebAppPolicyStatus =
  pu_ObservedGeneration :: int64
  pu_Conditions :: "Condition list"

record WebAppPolicy =
  wp_Meta :: ObjectMeta
  wp_Spec :: WebAppPolicySpec
  wp_Status :: WebAppPolicyStatus

abbreviation app_Name :: "WebApp \<Rightarrow> string" where "app_Name app \<equiv> om_Name (wa_Meta app)"
abbreviation app_Namespace :: "WebApp \<Rightarrow> string" where "app_Namespace app \<equiv> om_Namespace (wa_Meta app)"
abbreviation app_UID :: "WebApp \<Rightarrow> string" where "app_UID app \<equiv> om_UID (wa_Meta app)"
abbreviation app_Generation :: "WebApp \<Rightarrow> int64" where "app_Generation app \<equiv> om_Generation (wa_Meta app)"
abbreviation policy_Name :: "WebAppPolicy \<Rightarrow> string" where "policy_Name p \<equiv> om_Name (wp_Meta p)"

section \<open>Library functions the operator is given\<close>

text \<open>
  These functions come with the operator's dependencies, not with the repository, so the model takes
  them as an argument. Nothing is known about them beyond their types; a theorem that relies on what
  their documentation promises says so in a hypothesis, by one of the predicates below.

    \<^item> \<open>q_Cmp\<close>, \<open>q_Sign\<close>, \<open>q_String\<close>: methods of resource.Quantity;
    \<^item> \<open>IsDNS1123Label\<close>, \<open>IsDNS1123Subdomain\<close>, \<open>IsValidPortName\<close>: util/validation, the list of complaints;
    \<^item> \<open>LabelSelectorAsSelector\<close>: metav1, an error or the predicate Selector.Matches;
    \<^item> \<open>SemanticDeepEqual\<close>: equality.Semantic.DeepEqual on two specs;
    \<^item> \<open>SetStatusCondition\<close>, \<open>FindStatusCondition\<close>: api/meta;
    \<^item> \<open>IsControlledBy\<close>: metav1, applied to the metadata of the object and of the owner;
    \<^item> \<open>ContainsFinalizer\<close>, \<open>AddFinalizer\<close>, \<open>RemoveFinalizer\<close>: controllerutil, on the metadata;
    \<^item> \<open>LabelSetString\<close>: labels.Set.String;
    \<^item> \<open>SelectorFromSet\<close>: labels.SelectorFromSet, as the predicate Selector.Matches on labels;
    \<^item> \<open>deployment_codec\<close> and its siblings: json.Marshal of a typed object followed by json.Unmarshal into
      the apply configuration of the kind;
    \<^item> \<open>json_Unmarshal\<close>: json.Unmarshal of the raw bytes of a FieldsV1 into a map; \<open>None\<close> when they do
      not decode to one.
\<close>

datatype json =
    JNull | JBool bool | JNumber string | JString string
  | JArray "json list" | JObject "(string, json) fmap"

record k8s =
  q_Cmp :: "quantity \<Rightarrow> quantity \<Rightarrow> int"
  q_Sign :: "quantity \<Rightarrow> int"
  q_String :: "quantity \<Rightarrow> string"
  IsDNS1123Label :: "string \<Rightarrow> string list"
  IsDNS1123Subdomain :: "string \<Rightarrow> string list"
  IsValidPortName :: "string \<Rightarrow> string list"
  LabelSelectorAsSelector :: "LabelSelector \<Rightarrow> go_error + (string_map \<Rightarrow> bool)"
  SemanticDeepEqual :: "WebAppSpec \<Rightarrow> WebAppSpec \<Rightarrow> bool"
  SetStatusCondition :: "Condition list \<Rightarrow> Condition \<Rightarrow> Condition list"
  FindStatusCondition :: "Condition list \<Rightarrow> string \<Rightarrow> Condition option"
  IsControlledBy :: "ObjectMeta \<Rightarrow> ObjectMeta \<Rightarrow> bool"
  ContainsFinalizer :: "ObjectMeta \<Rightarrow> string \<Rightarrow> bool"
  AddFinalizer :: "ObjectMeta \<Rightarrow> string \<Rightarrow> ObjectMeta \<times> bool"
  RemoveFinalizer :: "ObjectMeta \<Rightarrow> string \<Rightarrow> ObjectMeta"
  LabelSetString :: "string_map \<Rightarrow> string"
  SelectorFromSet :: "string_map \<Rightarrow> string_map \<Rightarrow> bool"
  deployment_codec :: "DeploymentObj \<Rightarrow> go_error + DeploymentObj"
  service_codec :: "ServiceObj \<Rightarrow> go_error + ServiceObj"
  ingress_codec :: "IngressObj \<Rightarrow> go_error + IngressObj"
  hpa_codec :: "HPAObj \<Rightarrow> go_error + HPAObj"
  json_Unmarshal :: "string \<Rightarrow> (string, json) fmap option"

text \<open>What the documentation of these functions promises, as far as a theorem below relies on it.\<close>

definition quantities_documented :: "k8s \<Rightarrow> bool" where
  "quantities_documented X \<longleftrightarrow>
     (\<exists>value :: quantity \<Rightarrow> rat.
        (\<forall>a b. q_Cmp X a b = (if value a < value b then -1 else if value a = value b then 0 else 1)) \<and>
        (\<forall>a. q_Sign X a = (if value a < 0 then -1 else if value a = 0 then 0 else 1)))"

definition conditions_documented :: "k8s \<Rightarrow> bool" where
  "conditions_documented X \<longleftrightarrow>
     (\<forall>cs c. \<exists>t. FindStatusCondition X (SetStatusCondition X cs c) (co_Type c)
               = Some (c\<lparr>co_LastTransitionTime := t\<rparr>)) \<and>
     (\<forall>cs c ty. ty \<noteq> co_Type c \<longrightarrow>
        FindStatusCondition X (SetStatusCondition X cs c) ty = FindStatusCondition X cs ty)"

definition control_documented :: "k8s \<Rightarrow> bool" where
  "control_documented X \<longleftrightarrow>
     (\<forall>obj owner. IsControlledBy X obj owner \<longleftrightarrow>
        (case find (\<lambda>r. or_Controller r = Some True) (om_OwnerReferences obj) of
           None \<Rightarrow> False | Some r \<Rightarrow> or_UID r = om_UID owner))"

definition finalizers_documented :: "k8s \<Rightarrow> bool" where
  "finalizers_documented X \<longleftrightarrow>
     (\<forall>m f. ContainsFinalizer X m f = (f \<in> set (om_Finalizers m))) \<and>
     (\<forall>m f. AddFinalizer X m f =
        (if f \<in> set (om_Finalizers m) then (m, False)
         else (m\<lparr>om_Finalizers := om_Finalizers m @ [f]\<rparr>, True))) \<and>
     (\<forall>m f. RemoveFinalizer X m f = m\<lparr>om_Finalizers := filter (\<lambda>g. g \<noteq> f) (om_Finalizers m)\<rparr>)"

definition selectors_documented :: "k8s \<Rightarrow> bool" where
  "selectors_documented X \<longleftrightarrow>
     (\<forall>sel ls. SelectorFromSet X sel ls \<longleftrightarrow> (\<forall>k v. fmlookup sel k = Some v \<longrightarrow> fmlookup ls k = Some v))"

definition codecs_faithful :: "k8s \<Rightarrow> bool" where
  "codecs_faithful X \<longleftrightarrow>
     (\<forall>d. deployment_codec X d = Inr d) \<and> (\<forall>s. service_codec X s = Inr s) \<and>
     (\<forall>i. ingress_codec X i = Inr i) \<and> (\<forall>h. hpa_codec X h = Inr h)"

end
