(* ===== verification/Warp_Metrics.thy ===== *)
theory Warp_Metrics
  imports Warp_Prelude
begin

text \<open>
  The metrics the operator publishes: \<^verbatim>\<open>internal/metrics/metrics.go\<close>.

  A vector of the Prometheus client is a map from the values of its labels, in the order the vector
  declares them, to the number it reports. The operations on vectors belong to the client library and
  are a parameter, the record \<open>prometheus\<close>; \<open>prometheus_documented\<close> states what its documentation
  promises. The two metrics of a reconcile run that only grow (a counter and a histogram of durations,
  which depend on the clock) appear as calls; their values are not modelled.
\<close>

type_synonym series = "(string list, int) fmap"

record prometheus =
  DeletePartialMatch :: "string list \<Rightarrow> (string \<times> string) list \<Rightarrow> series \<Rightarrow> series"
  WithLabelValuesSet :: "string list \<Rightarrow> int \<Rightarrow> series \<Rightarrow> series"
  DeleteLabelValues :: "string list \<Rightarrow> series \<Rightarrow> series"

definition prometheus_documented :: "prometheus \<Rightarrow> bool" where
  "prometheus_documented P \<longleftrightarrow>
     (\<forall>names ls s vs. fmlookup (DeletePartialMatch P names ls s) vs =
        (if set ls \<subseteq> set (zip names vs) then None else fmlookup s vs)) \<and>
     (\<forall>vs n s ws. fmlookup (WithLabelValuesSet P vs n s) ws = (if ws = vs then Some n else fmlookup s ws)) \<and>
     (\<forall>vs s ws. fmlookup (DeleteLabelValues P vs s) ws = (if ws = vs then None else fmlookup s ws))"

definition ResultSuccess :: string where [simp]: "ResultSuccess = ''success''"
definition ResultError :: string where [simp]: "ResultError = ''error''"

text \<open>The collectors the package registers in its init, each with its name and its labels.\<close>

definition collectors :: "(string \<times> string list) list" where
  "collectors =
     [(''webapp_reconcile_total'', [''result'']),
      (''webapp_reconcile_duration_seconds'', [''result'']),
      (''webapp_replicas'', [''name'', ''namespace'']),
      (''webapp_ready_replicas'', [''name'', ''namespace'']),
      (''webapp_conditions'', [''name'', ''namespace'', ''type'', ''status''])]"

text \<open>The three gauge vectors, and the labels of the one that is deleted from by partial match.\<close>

record registry =
  rg_Replicas :: series
  rg_ReadyReplicas :: series
  rg_Conditions :: series

definition ConditionsLabels :: "string list" where
  "ConditionsLabels = [''name'', ''namespace'', ''type'', ''status'']"

definition metrics_SetCondition ::
  "prometheus \<Rightarrow> string \<Rightarrow> string \<Rightarrow> string \<Rightarrow> string \<Rightarrow> registry \<Rightarrow> registry" where
  "metrics_SetCondition P name ns condType status rg =
     (let s = DeletePartialMatch P ConditionsLabels
                [(''name'', name), (''namespace'', ns), (''type'', condType)] (rg_Conditions rg)
      in rg\<lparr>rg_Conditions := WithLabelValuesSet P [name, ns, condType, status] 1 s\<rparr>)"

definition Forget :: "prometheus \<Rightarrow> string \<Rightarrow> string \<Rightarrow> registry \<Rightarrow> registry" where
  "Forget P name ns rg =
     \<lparr>rg_Replicas = DeleteLabelValues P [name, ns] (rg_Replicas rg),
      rg_ReadyReplicas = DeleteLabelValues P [name, ns] (rg_ReadyReplicas rg),
      rg_Conditions = DeletePartialMatch P ConditionsLabels
        [(''name'', name), (''namespace'', ns)] (rg_Conditions rg)\<rparr>"

text \<open>The calls the reconciler makes, with their effect on the gauges.\<close>

datatype metric_call =
    MReconcileTotal string
  | MReconcileDuration string
  | MReplicas string string int
  | MReadyReplicas string string int
  | MSetCondition string string string string
  | MForget string string

fun apply_metric :: "prometheus \<Rightarrow> metric_call \<Rightarrow> registry \<Rightarrow> registry" where
  "apply_metric P (MReconcileTotal outcome) rg = rg"
| "apply_metric P (MReconcileDuration outcome) rg = rg"
| "apply_metric P (MReplicas name ns n) rg =
     rg\<lparr>rg_Replicas := WithLabelValuesSet P [name, ns] n (rg_Replicas rg)\<rparr>"
| "apply_metric P (MReadyReplicas name ns n) rg =
     rg\<lparr>rg_ReadyReplicas := WithLabelValuesSet P [name, ns] n (rg_ReadyReplicas rg)\<rparr>"
| "apply_metric P (MSetCondition name ns t s) rg = metrics_SetCondition P name ns t s rg"
| "apply_metric P (MForget name ns) rg = Forget P name ns rg"

section \<open>Lookups\<close>

lemma partial_match_iff:
  "set [(''name'', n), (''namespace'', m)] \<subseteq> set (zip ConditionsLabels vs) \<longleftrightarrow>
     (\<exists>ws. vs = n # m # ws)"
  "set [(''name'', n), (''namespace'', m), (''type'', t)] \<subseteq> set (zip ConditionsLabels vs) \<longleftrightarrow>
     (\<exists>ws. vs = n # m # t # ws)"
  unfolding ConditionsLabels_def
  by (cases vs; cases "tl vs"; cases "tl (tl vs)"; cases "tl (tl (tl vs))"; auto)+

lemma SetCondition_lookup [simp]:
  assumes "prometheus_documented P"
  shows "fmlookup (rg_Conditions (metrics_SetCondition P n m t s rg)) vs =
    (if vs = [n, m, t, s] then Some 1
     else if (\<exists>ws. vs = n # m # t # ws) then None else fmlookup (rg_Conditions rg) vs)"
  using assms unfolding prometheus_documented_def
  by (simp add: metrics_SetCondition_def Let_def partial_match_iff del: set_simps)

lemma Forget_lookup [simp]:
  assumes "prometheus_documented P"
  shows "fmlookup (rg_Conditions (Forget P n m rg)) vs =
      (if (\<exists>ws. vs = n # m # ws) then None else fmlookup (rg_Conditions rg) vs)"
    and "fmlookup (rg_Replicas (Forget P n m rg)) vs =
      (if vs = [n, m] then None else fmlookup (rg_Replicas rg) vs)"
    and "fmlookup (rg_ReadyReplicas (Forget P n m rg)) vs =
      (if vs = [n, m] then None else fmlookup (rg_ReadyReplicas rg) vs)"
  using assms unfolding prometheus_documented_def
  by (simp_all add: Forget_def partial_match_iff del: set_simps)

section \<open>One status per condition\<close>

text \<open>No condition of a WebApp is published with two statuses.\<close>

definition one_status :: "registry \<Rightarrow> bool" where
  "one_status rg \<longleftrightarrow>
     (\<forall>vs ws. fmlookup (rg_Conditions rg) vs \<noteq> None \<longrightarrow> fmlookup (rg_Conditions rg) ws \<noteq> None \<longrightarrow>
        take 3 vs = take 3 ws \<longrightarrow> length vs = 4 \<and> vs = ws)"

definition empty_registry :: registry where
  "empty_registry = \<lparr>rg_Replicas = fmempty, rg_ReadyReplicas = fmempty, rg_Conditions = fmempty\<rparr>"

lemma one_status_empty: "one_status empty_registry"
  by (simp add: one_status_def empty_registry_def)

lemma one_status_SetCondition:
  assumes P: "prometheus_documented P" and inv: "one_status rg"
  shows "one_status (metrics_SetCondition P n m t s rg)"
  unfolding one_status_def
proof (intro allI impI)
  fix vs ws
  let ?new = "rg_Conditions (metrics_SetCondition P n m t s rg)" and ?old = "rg_Conditions rg"
  assume v: "fmlookup ?new vs \<noteq> None" and w: "fmlookup ?new ws \<noteq> None"
    and same: "take 3 vs = take 3 ws"
  have old: "us = [n, m, t, s] \<or> fmlookup ?old us \<noteq> None \<and> take 3 us \<noteq> [n, m, t]"
    if "fmlookup ?new us \<noteq> None" for us
  proof (cases "us = [n, m, t, s]")
    case False
    with that P have "\<nexists>xs. us = n # m # t # xs" "fmlookup ?old us \<noteq> None"
      by (auto split: if_splits)
    moreover have "take 3 us = [n, m, t] \<Longrightarrow> us = n # m # t # drop 3 us"
      using append_take_drop_id [of 3 us] by simp
    ultimately show ?thesis by blast
  qed simp
  show "length vs = 4 \<and> vs = ws"
    using old [OF v] old [OF w] same inv unfolding one_status_def by auto
qed

lemma one_status_subset:
  assumes "one_status rg"
    and "\<And>vs. fmlookup (rg_Conditions rg') vs \<noteq> None \<Longrightarrow> fmlookup (rg_Conditions rg) vs \<noteq> None"
  shows "one_status rg'"
  using assms unfolding one_status_def by blast

lemma one_status_Forget:
  assumes "prometheus_documented P" "one_status rg"
  shows "one_status (Forget P n m rg)"
  using assms(2) by (rule one_status_subset) (simp add: assms(1) split: if_splits)

lemma one_status_step:
  assumes "prometheus_documented P" "one_status rg"
  shows "one_status (apply_metric P c rg)"
proof (cases c)
  case (MSetCondition n m t s)
  with assms show ?thesis by (simp add: one_status_SetCondition)
next
  case (MForget n m)
  with assms show ?thesis by (simp add: one_status_Forget)
qed (rule one_status_subset [OF assms(2)]; simp)+

definition apply_metrics :: "prometheus \<Rightarrow> metric_call list \<Rightarrow> registry \<Rightarrow> registry" where
  "apply_metrics P cs rg = fold (apply_metric P) cs rg"

lemma apply_metrics_simps [simp]:
  "apply_metrics P [] rg = rg"
  "apply_metrics P (c # cs) rg = apply_metrics P cs (apply_metric P c rg)"
  "apply_metrics P (cs @ ds) rg = apply_metrics P ds (apply_metrics P cs rg)"
  by (simp_all add: apply_metrics_def)

lemma one_status_run:
  "prometheus_documented P \<Longrightarrow> one_status rg \<Longrightarrow> one_status (apply_metrics P cs rg)"
  by (induction cs arbitrary: rg) (simp_all add: one_status_step)

text \<open>Publishing a list of conditions of one WebApp, each type at most once.\<close>

lemma conditions_published:
  assumes P: "prometheus_documented P" and dist: "distinct (map fst tss)"
  shows "fmlookup (rg_Conditions (apply_metrics P (map (\<lambda>(t, s). MSetCondition n m t s) tss) rg)) [n, m, t, s]
    = (case map_of tss t of Some s' \<Rightarrow> if s' = s then Some 1 else None
       | None \<Rightarrow> fmlookup (rg_Conditions rg) [n, m, t, s])"
  using dist
proof (induction tss arbitrary: rg)
  case (Cons ts tss)
  obtain t0 s0 where ts: "ts = (t0, s0)" by fastforce
  have "map_of tss t0 = None"
    using Cons.prems by (simp add: ts map_of_eq_None_iff)
  then show ?case
    using Cons.IH Cons.prems P by (auto simp: ts split: option.split)
qed simp

end
