(* ===== verification/Warp_Effects.thy ===== *)
theory Warp_Effects
  imports Warp_Api Warp_Metrics "HOL-Library.State_Monad"
begin

text \<open>
  What a reconcile run does to the outside world, and how to reason about it.

  Every call of the reconciler that leaves the process (the Kubernetes client, the event recorder, the
  logger, the metrics) is one \<open>effect\<close>, recorded with its arguments and with the reply it got, and a run
  is a computation in the state monad over the list of effects so far, oldest first. The replies come
  from a \<open>server\<close>, a parameter that may answer each call as it likes, depending on everything that
  happened before: a theorem about all servers covers every state of the cluster, every failure of a
  call and every change other clients make between two calls.

  A read goes either through the manager's cache or to the API server itself (APIReader); the replies of
  the two need not agree.
\<close>

datatype source = CachedClient | LiveReader

type_synonym object_key = "string \<times> string"

datatype effect =
    GetApp object_key "go_error + WebApp"
  | GetObject source kind object_key "go_error + object"
  | ListPolicies source "go_error + WebAppPolicy list"
  | GetNamespace source string "go_error + string_map"
  | UpdateApp WebApp "go_error + WebApp"
  | ApplyObject object string bool "go_error option"
  | DeleteObject object "go_error option"
  | PatchStatus WebApp WebApp "go_error option"
  | RecordEvent WebApp string string msg
  | LogInfo string msg
  | Metric metric_call
  | Panicked

type_synonym trace = "effect list"

record server =
  srv_GetApp :: "trace \<Rightarrow> object_key \<Rightarrow> go_error + WebApp"
  srv_GetDeployment :: "trace \<Rightarrow> source \<Rightarrow> object_key \<Rightarrow> go_error + DeploymentObj"
  srv_GetService :: "trace \<Rightarrow> source \<Rightarrow> object_key \<Rightarrow> go_error + ServiceObj"
  srv_GetIngress :: "trace \<Rightarrow> source \<Rightarrow> object_key \<Rightarrow> go_error + IngressObj"
  srv_GetHPA :: "trace \<Rightarrow> source \<Rightarrow> object_key \<Rightarrow> go_error + HPAObj"
  srv_ListPolicies :: "trace \<Rightarrow> source \<Rightarrow> go_error + WebAppPolicy list"
  srv_GetNamespace :: "trace \<Rightarrow> source \<Rightarrow> string \<Rightarrow> go_error + string_map"
  srv_Update :: "trace \<Rightarrow> WebApp \<Rightarrow> go_error + WebApp"
  srv_Apply :: "trace \<Rightarrow> object \<Rightarrow> string \<Rightarrow> bool \<Rightarrow> go_error option"
  srv_Delete :: "trace \<Rightarrow> object \<Rightarrow> go_error option"
  srv_Patch :: "trace \<Rightarrow> WebApp \<Rightarrow> WebApp \<Rightarrow> go_error option"

type_synonym 'a run = "(trace, 'a) state"

abbreviation return :: "'a \<Rightarrow> 'a run" where "return \<equiv> State_Monad.return"

definition call :: "(trace \<Rightarrow> 'r) \<Rightarrow> ('r \<Rightarrow> effect) \<Rightarrow> 'r run" where
  "call reply eff = State (\<lambda>tr. (reply tr, tr @ [eff (reply tr)]))"

definition tell :: "effect \<Rightarrow> unit run" where
  "tell e = State (\<lambda>tr. ((), tr @ [e]))"

fun get_typed :: "server \<Rightarrow> trace \<Rightarrow> source \<Rightarrow> kind \<Rightarrow> object_key \<Rightarrow> go_error + object" where
  "get_typed S tr src KDeployment k = map_sum id ODeployment (srv_GetDeployment S tr src k)"
| "get_typed S tr src KService k = map_sum id OService (srv_GetService S tr src k)"
| "get_typed S tr src KIngress k = map_sum id OIngress (srv_GetIngress S tr src k)"
| "get_typed S tr src KHPA k = map_sum id OHPA (srv_GetHPA S tr src k)"

definition client_GetApp :: "server \<Rightarrow> object_key \<Rightarrow> (go_error + WebApp) run" where
  "client_GetApp S k = call (\<lambda>tr. srv_GetApp S tr k) (GetApp k)"

definition client_Get :: "server \<Rightarrow> source \<Rightarrow> kind \<Rightarrow> object_key \<Rightarrow> (go_error + object) run" where
  "client_Get S src kd k = call (\<lambda>tr. get_typed S tr src kd k) (GetObject src kd k)"

definition client_GetDeployment :: "server \<Rightarrow> source \<Rightarrow> object_key \<Rightarrow> (go_error + DeploymentObj) run" where
  "client_GetDeployment S src k =
     call (\<lambda>tr. srv_GetDeployment S tr src k) (\<lambda>r. GetObject src KDeployment k (map_sum id ODeployment r))"

definition client_ListPolicies :: "server \<Rightarrow> source \<Rightarrow> (go_error + WebAppPolicy list) run" where
  "client_ListPolicies S src = call (\<lambda>tr. srv_ListPolicies S tr src) (ListPolicies src)"

definition client_GetNamespace :: "server \<Rightarrow> source \<Rightarrow> string \<Rightarrow> (go_error + string_map) run" where
  "client_GetNamespace S src n = call (\<lambda>tr. srv_GetNamespace S tr src n) (GetNamespace src n)"

definition client_Update :: "server \<Rightarrow> WebApp \<Rightarrow> (go_error + WebApp) run" where
  "client_Update S app = call (\<lambda>tr. srv_Update S tr app) (UpdateApp app)"

definition client_Apply :: "server \<Rightarrow> object \<Rightarrow> string \<Rightarrow> bool \<Rightarrow> go_error option run" where
  "client_Apply S obj owner force =
     call (\<lambda>tr. srv_Apply S tr obj owner force) (ApplyObject obj owner force)"

definition client_Delete :: "server \<Rightarrow> object \<Rightarrow> go_error option run" where
  "client_Delete S obj = call (\<lambda>tr. srv_Delete S tr obj) (DeleteObject obj)"

definition client_PatchStatus :: "server \<Rightarrow> WebApp \<Rightarrow> WebApp \<Rightarrow> go_error option run" where
  "client_PatchStatus S app base = call (\<lambda>tr. srv_Patch S tr app base) (PatchStatus app base)"

lemmas client_defs = client_GetApp_def client_Get_def client_GetDeployment_def client_ListPolicies_def
  client_GetNamespace_def client_Update_def client_Apply_def client_Delete_def client_PatchStatus_def

lemma run_call [simp]: "run_state (call reply eff) tr = (reply tr, tr @ [eff (reply tr)])"
  by (simp add: call_def)

lemma run_tell [simp]: "run_state (tell e) tr = ((), tr @ [e])"
  by (simp add: tell_def)

section \<open>Reasoning about runs\<close>

text \<open>
  \<open>triple P m Q\<close>: started on a trace that satisfies \<open>P\<close>, the run \<open>m\<close> ends with a result and a trace
  that satisfy \<open>Q\<close>. Runs are total functions, so this is total correctness.
\<close>

definition triple :: "(trace \<Rightarrow> bool) \<Rightarrow> 'a run \<Rightarrow> ('a \<Rightarrow> trace \<Rightarrow> bool) \<Rightarrow> bool" where
  "triple P m Q \<longleftrightarrow> (\<forall>tr. P tr \<longrightarrow> Q (fst (run_state m tr)) (snd (run_state m tr)))"

lemma tripleD: "triple P m Q \<Longrightarrow> P tr \<Longrightarrow> Q (fst (run_state m tr)) (snd (run_state m tr))"
  by (simp add: triple_def)

lemma triple_return [intro]: "(\<And>tr. P tr \<Longrightarrow> Q x tr) \<Longrightarrow> triple P (return x) Q"
  by (simp add: triple_def)

lemma triple_call [intro]:
  "(\<And>tr. P tr \<Longrightarrow> Q (reply tr) (tr @ [eff (reply tr)])) \<Longrightarrow> triple P (call reply eff) Q"
  by (simp add: triple_def)

lemma triple_tell [intro]: "(\<And>tr. P tr \<Longrightarrow> Q () (tr @ [e])) \<Longrightarrow> triple P (tell e) Q"
  by (simp add: triple_def)

lemma triple_bind:
  assumes "triple P m R" "\<And>x. triple (R x) (f x) Q"
  shows "triple P (State_Monad.bind m f) Q"
  using assms by (auto simp: triple_def split: prod.split)

lemma triple_conseq:
  assumes "triple P' m Q'" "\<And>tr. P tr \<Longrightarrow> P' tr" "\<And>x tr. Q' x tr \<Longrightarrow> Q x tr"
  shows "triple P m Q"
  using assms by (auto simp: triple_def)

lemma triple_post: "triple P m Q' \<Longrightarrow> (\<And>x tr. Q' x tr \<Longrightarrow> Q x tr) \<Longrightarrow> triple P m Q"
  by (rule triple_conseq)

lemma triple_pre: "triple P' m Q \<Longrightarrow> (\<And>tr. P tr \<Longrightarrow> P' tr) \<Longrightarrow> triple P m Q"
  by (rule triple_conseq)

lemma triple_vacuous: "(\<And>tr. \<not> P tr) \<Longrightarrow> triple P m Q"
  by (simp add: triple_def)

lemma triple_sum:
  assumes "\<And>a. x = Inl a \<Longrightarrow> triple P (f a) Q" "\<And>b. x = Inr b \<Longrightarrow> triple P (g b) Q"
  shows "triple P (case x of Inl a \<Rightarrow> f a | Inr b \<Rightarrow> g b) Q"
  using assms by (cases x) simp_all

lemma triple_option:
  assumes "x = None \<Longrightarrow> triple P f Q" "\<And>b. x = Some b \<Longrightarrow> triple P (g b) Q"
  shows "triple P (case x of None \<Rightarrow> f | Some b \<Rightarrow> g b) Q"
  using assms by (cases x) simp_all

lemma triple_if:
  assumes "c \<Longrightarrow> triple P m Q" "\<not> c \<Longrightarrow> triple P n Q"
  shows "triple P (if c then m else n) Q"
  using assms by simp

lemmas triple_cases = triple_sum triple_option triple_if

text \<open>The reply of a call is in the trace, and what was there stays.\<close>

lemma triple_reply:
  "triple P (call reply eff) (\<lambda>r tr. \<exists>tr0. P tr0 \<and> r = reply tr0 \<and> tr = tr0 @ [eff r])"
  by (auto simp: triple_def)

text \<open>The effects a run adds. A fact about a trace is stable when later effects do not undo it.\<close>

definition emits :: "'a run \<Rightarrow> (effect \<Rightarrow> bool) \<Rightarrow> bool" where
  "emits m C \<longleftrightarrow> (\<forall>tr. \<exists>new. snd (run_state m tr) = tr @ new \<and> (\<forall>e \<in> set new. C e))"

definition stable :: "(trace \<Rightarrow> bool) \<Rightarrow> bool" where
  "stable F \<longleftrightarrow> (\<forall>tr new. F tr \<longrightarrow> F (tr @ new))"

lemma emits_return [simp]: "emits (return x) C"
  by (simp add: emits_def)

lemma emits_call [simp]: "(\<And>r. C (eff r)) \<Longrightarrow> emits (call reply eff) C"
  by (simp add: emits_def)

lemma emits_tell [simp]: "emits (tell e) C \<longleftrightarrow> C e"
  by (simp add: emits_def)

lemma emits_bind [intro]:
  assumes "emits m C" "\<And>x. emits (f x) C"
  shows "emits (State_Monad.bind m f) C"
  unfolding emits_def
proof
  fix tr
  obtain x tr' where run: "run_state m tr = (x, tr')" by fastforce
  with assms(1) obtain new where new: "tr' = tr @ new" "\<forall>e \<in> set new. C e"
    unfolding emits_def by (metis snd_conv)
  obtain more where "snd (run_state (f x) tr') = tr' @ more" "\<forall>e \<in> set more. C e"
    using assms(2) unfolding emits_def by blast
  with new run show "\<exists>new. snd (run_state (State_Monad.bind m f) tr) = tr @ new \<and> (\<forall>e \<in> set new. C e)"
    by auto
qed

lemma emits_mono: "emits m C \<Longrightarrow> (\<And>e. C e \<Longrightarrow> D e) \<Longrightarrow> emits m D"
  by (fastforce simp: emits_def)

lemma emits_stable:
  assumes "emits m C" "stable F"
  shows "triple F m (\<lambda>_. F)"
  using assms unfolding emits_def stable_def triple_def by metis

lemma triple_frame:
  assumes "triple P m Q" "emits m C" "stable F"
  shows "triple (\<lambda>tr. P tr \<and> F tr) m (\<lambda>x tr. Q x tr \<and> F tr)"
  using assms(1) emits_stable [OF assms(2,3)] by (simp add: triple_def)

lemma stable_member [simp]: "stable (\<lambda>tr. e \<in> set tr)"
  by (simp add: stable_def)

lemma stable_bex: "(\<And>e. e \<in> E \<Longrightarrow> stable (F e)) \<Longrightarrow> stable (\<lambda>tr. \<exists>e \<in> E. F e tr)"
  by (auto simp: stable_def)

lemma stable_ex: "(\<And>x. stable (F x)) \<Longrightarrow> stable (\<lambda>tr. \<exists>x. F x tr)"
  by (auto simp: stable_def)

lemma stable_conj: "stable F \<Longrightarrow> stable G \<Longrightarrow> stable (\<lambda>tr. F tr \<and> G tr)"
  by (auto simp: stable_def)

lemma stable_const [simp]: "stable (\<lambda>tr. b)"
  by (simp add: stable_def)

section \<open>Rules about effects\<close>

text \<open>
  A rule says which effects are permitted after which history. A trace keeps a rule when each of its
  effects is permitted by what comes before it.
\<close>

fun keeps_from :: "(trace \<Rightarrow> effect \<Rightarrow> bool) \<Rightarrow> trace \<Rightarrow> trace \<Rightarrow> bool" where
  "keeps_from ok pre [] = True"
| "keeps_from ok pre (e # es) = (ok pre e \<and> keeps_from ok (pre @ [e]) es)"

definition keeps :: "(trace \<Rightarrow> effect \<Rightarrow> bool) \<Rightarrow> trace \<Rightarrow> bool" where
  "keeps ok tr = keeps_from ok [] tr"

lemma keeps_from_append:
  "keeps_from ok pre (es @ fs) \<longleftrightarrow> keeps_from ok pre es \<and> keeps_from ok (pre @ es) fs"
  by (induction es arbitrary: pre) simp_all

lemma keeps_Nil [simp]: "keeps ok []"
  by (simp add: keeps_def)

lemma keeps_snoc [simp]: "keeps ok (tr @ [e]) \<longleftrightarrow> keeps ok tr \<and> ok tr e"
  by (simp add: keeps_def keeps_from_append)

lemma keeps_append: "keeps ok (tr @ es) \<longleftrightarrow> keeps ok tr \<and> keeps_from ok tr es"
  by (simp add: keeps_def keeps_from_append)

lemma keeps_iff: "keeps ok tr \<longleftrightarrow> (\<forall>pre e post. tr = pre @ e # post \<longrightarrow> ok pre e)"
proof (induction tr rule: rev_induct)
  case (snoc e tr)
  show ?case
  proof
    assume *: "keeps ok (tr @ [e])"
    show "\<forall>pre e' post. tr @ [e] = pre @ e' # post \<longrightarrow> ok pre e'"
    proof (intro allI impI)
      fix pre e' post
      assume split: "tr @ [e] = pre @ e' # post"
      show "ok pre e'"
      proof (cases post rule: rev_cases)
        case Nil
        with split * show ?thesis by simp
      next
        case (snoc post' e'')
        with split have "tr = pre @ e' # post'" by simp
        moreover from * have "keeps ok tr" by simp
        ultimately show ?thesis using snoc.IH by blast
      qed
    qed
  next
    assume *: "\<forall>pre e' post. tr @ [e] = pre @ e' # post \<longrightarrow> ok pre e'"
    then have "ok tr e" by simp
    moreover have "ok pre e'" if "tr = pre @ e' # post" for pre e' post
      using * that by simp
    ultimately show "keeps ok (tr @ [e])" using snoc.IH by simp
  qed
qed simp

locale effect_rule =
  fixes ok :: "trace \<Rightarrow> effect \<Rightarrow> bool"
    and concerns :: "effect \<Rightarrow> bool"
  assumes unconcerned: "\<not> concerns e \<Longrightarrow> ok pre e"
begin

lemma keeps_quiet: "keeps ok tr \<Longrightarrow> \<forall>e \<in> set new. \<not> concerns e \<Longrightarrow> keeps ok (tr @ new)"
proof (induction new rule: rev_induct)
  case (snoc e new)
  then have "keeps ok ((tr @ new) @ [e])"
    unfolding keeps_snoc by (auto intro: unconcerned)
  then show ?case by simp
qed simp

lemma quiet:
  assumes "emits m (\<lambda>e. \<not> concerns e)"
  shows "triple (keeps ok) m (\<lambda>_. keeps ok)"
  unfolding triple_def
proof (intro allI impI)
  fix tr
  assume "keeps ok tr"
  moreover obtain new where "snd (run_state m tr) = tr @ new" "\<forall>e \<in> set new. \<not> concerns e"
    using assms unfolding emits_def by blast
  ultimately show "keeps ok (snd (run_state m tr))"
    by (simp add: keeps_quiet)
qed

lemma quiet_facts:
  assumes "emits m (\<lambda>e. \<not> concerns e)" "triple F m G"
  shows "triple (\<lambda>tr. keeps ok tr \<and> F tr) m (\<lambda>x tr. keeps ok tr \<and> G x tr)"
  using quiet [OF assms(1)] assms(2) by (simp add: triple_def)

lemma loud_call:
  assumes "\<And>tr. F tr \<Longrightarrow> ok tr (eff (reply tr))" "stable F"
  shows "triple (\<lambda>tr. keeps ok tr \<and> F tr) (call reply eff) (\<lambda>_ tr. keeps ok tr \<and> F tr)"
  using assms by (auto simp: triple_def stable_def)

end

text \<open>
  The WebApp a rule speaks of is often known only once the run has read it. A rule for each WebApp gives
  one rule for the run: what it concerns is permitted for some WebApp seen before.
\<close>

definition for_seen ::
  "(effect \<Rightarrow> bool) \<Rightarrow> (WebApp \<Rightarrow> trace \<Rightarrow> bool) \<Rightarrow> (WebApp \<Rightarrow> trace \<Rightarrow> effect \<Rightarrow> bool) \<Rightarrow>
     trace \<Rightarrow> effect \<Rightarrow> bool" where
  "for_seen concerns seen ok pre e \<longleftrightarrow> (concerns e \<longrightarrow> (\<exists>app. seen app pre \<and> ok app pre e))"

locale app_rule =
  fixes ok :: "WebApp \<Rightarrow> trace \<Rightarrow> effect \<Rightarrow> bool"
    and concerns :: "effect \<Rightarrow> bool"
    and seen :: "WebApp \<Rightarrow> trace \<Rightarrow> bool"
  assumes others: "\<not> concerns e \<Longrightarrow> ok app pre e"
    and seen_stable: "stable (seen app)"
begin

lemma lift_trace:
  assumes "keeps (ok app) (tr @ new)" "seen app tr" "\<forall>e \<in> set tr. \<not> concerns e"
  shows "keeps (for_seen concerns seen ok) (tr @ new)"
  using assms(1)
proof (induction new rule: rev_induct)
  case Nil
  have "keeps (for_seen concerns seen ok) tr'" if "\<forall>e \<in> set tr'. \<not> concerns e" for tr'
    using that by (induction tr' rule: rev_induct) (simp_all add: for_seen_def)
  with assms(3) show ?case by simp
next
  case (snoc e new)
  have ih: "keeps (for_seen concerns seen ok) (tr @ new)" and ok: "ok app (tr @ new) e"
    using snoc keeps_snoc [of "ok app" "tr @ new" e] by simp_all
  have "seen app (tr @ new)"
    using assms(2) seen_stable by (simp add: stable_def)
  with ok have "for_seen concerns seen ok (tr @ new) e"
    by (auto simp: for_seen_def)
  with ih show ?case
    using keeps_snoc [of "for_seen concerns seen ok" "tr @ new" e] by simp
qed

lemma lift:
  assumes "triple (keeps (ok app)) m (\<lambda>_. keeps (ok app))" "emits m C"
  shows "triple (\<lambda>tr. (\<forall>e \<in> set tr. \<not> concerns e) \<and> seen app tr) m (\<lambda>_. keeps (for_seen concerns seen ok))"
  unfolding triple_def
proof (intro allI impI)
  fix tr
  assume *: "(\<forall>e \<in> set tr. \<not> concerns e) \<and> seen app tr"
  have quiet: "keeps (ok app) tr'" if "\<forall>e \<in> set tr'. \<not> concerns e" for tr'
    using that by (induction tr' rule: rev_induct) (simp_all add: others)
  obtain new where new: "snd (run_state m tr) = tr @ new"
    using assms(2) unfolding emits_def by blast
  have "keeps (ok app) (tr @ new)"
    using tripleD [OF assms(1) quiet, of tr] * by (simp add: new)
  with * show "keeps (for_seen concerns seen ok) (snd (run_state m tr))"
    unfolding new by (blast intro: lift_trace)
qed

end

sublocale app_rule \<subseteq> whole: effect_rule "for_seen concerns seen ok" concerns
  by unfold_locales (simp add: for_seen_def)

end
