(* ===== verification/Warp_Meta.thy ===== *)
theory Warp_Meta
  imports Warp_Api
begin

text \<open>
  \<open>internal/resources/meta.go\<close>: the labels and owner references every built object carries, the
  de-duplicated port list of a WebApp with its generated names, and the choice of the Ingress backend.

  Two interfaces are stated here as locales, because the other components rely on them. \<open>port_table\<close> is
  what the webhook and the Ingress builder share: the names admission checks against are the names the
  backend is resolved in. \<open>object_builder\<close> is what the controller's ownership and cache decisions need
  from each of the four builders.
\<close>

section \<open>Labels and owners\<close>

definition ErrNoPorts :: go_error where
  "ErrNoPorts = ErrorNew ''resources: webapp declares no container ports''"

definition ErrUnknownIngressPort :: go_error where
  "ErrUnknownIngressPort = ErrorNew ''resources: spec.ingressPortName names no declared port''"

definition ManagedByLabel :: string where [simp]: "ManagedByLabel = ''app.kubernetes.io/managed-by''"
definition NameLabel :: string where [simp]: "NameLabel = ''app.kubernetes.io/name''"
definition InstanceLabel :: string where [simp]: "InstanceLabel = ''app.kubernetes.io/instance''"
definition ManagedByValue :: string where [simp]: "ManagedByValue = ''webapp-operator''"
definition DefaultPortName :: string where [simp]: "DefaultPortName = ''http''"

definition SelectorLabels :: "WebApp \<Rightarrow> string_map" where
  "SelectorLabels app =
     fmap_of_list [(NameLabel, app_Name app), (InstanceLabel, app_Name app),
       (ManagedByLabel, ManagedByValue)]"

definition Labels :: "WebApp \<Rightarrow> string_map" where
  "Labels app = SelectorLabels app"

definition OwnerRefs :: "WebApp \<Rightarrow> OwnerReference list" where
  "OwnerRefs app =
     [\<lparr>or_APIVersion = GroupVersionString, or_Kind = ''WebApp'', or_Name = app_Name app,
       or_UID = app_UID app, or_Controller = Some True, or_BlockOwnerDeletion = Some True\<rparr>]"

lemma SelectorLabels_lookup:
  "fmlookup (SelectorLabels app) k =
     (if k = NameLabel \<or> k = InstanceLabel then Some (app_Name app)
      else if k = ManagedByLabel then Some ManagedByValue else None)"
  by (simp add: SelectorLabels_def fmlookup_of_list)

section \<open>Ports\<close>

text \<open>The protocol is TCP when it is not set.\<close>

definition protocol :: "ContainerPort \<Rightarrow> string" where
  "protocol p = (if cp_Protocol p = [] then ProtocolTCP else cp_Protocol p)"

definition portName :: "ContainerPort \<Rightarrow> string" where
  "portName p =
     (if cp_Name p \<noteq> [] then cp_Name p
      else if protocol p = ProtocolUDP then ''port-'' @ int_dec (cp_ContainerPort p) @ ''-udp''
      else ''port-'' @ int_dec (cp_ContainerPort p))"

record portKey =
  pk_port :: int32
  pk_protocol :: string

definition portKeyOf :: "ContainerPort \<Rightarrow> portKey" where
  "portKeyOf p = \<lparr>pk_port = cp_ContainerPort p, pk_protocol = protocol p\<rparr>"

definition declared_ports :: "WebApp \<Rightarrow> ContainerPort list" where
  "declared_ports app = concat (map cn_Ports (ws_Containers (wa_Spec app)))"

definition allPorts :: "WebApp \<Rightarrow> ContainerPort list" where
  "allPorts app = first_by portKeyOf (\<lambda>_. False) (declared_ports app)"

definition PortNames :: "WebApp \<Rightarrow> string list" where
  "PortNames app = map portName (allPorts app)"

definition backendPort :: "WebApp \<Rightarrow> go_error + string" where
  "backendPort app =
     (let ports = allPorts app; want = ws_IngressPortName (wa_Spec app)
      in if ports = [] then Inl ErrNoPorts
         else if want \<noteq> []
         then (if list_ex (\<lambda>p. portName p = want) ports then Inr want
               else Inl (Errorf ''%w: %q'' [AWrap ErrUnknownIngressPort, AStr want]))
         else (case find (\<lambda>p. cp_Name p = DefaultPortName) ports of
                 Some p \<Rightarrow> Inr (portName p)
               | None \<Rightarrow> Inr (portName (hd ports))))"

subsection \<open>The port list\<close>

lemma allPorts_subset: "set (allPorts app) \<subseteq> set (declared_ports app)"
  by (simp add: allPorts_def first_by_subset)

lemma allPorts_keys: "portKeyOf ` set (allPorts app) = portKeyOf ` set (declared_ports app)"
  by (simp add: allPorts_def first_by_keys)

lemma allPorts_distinct: "distinct (map portKeyOf (allPorts app))"
  by (simp add: allPorts_def first_by_distinct)

lemma allPorts_Nil_iff: "allPorts app = [] \<longleftrightarrow> declared_ports app = []"
  by (simp add: allPorts_def first_by_Nil_iff)

lemma allPorts_id: "distinct (map portKeyOf (declared_ports app)) \<Longrightarrow> allPorts app = declared_ports app"
  by (simp add: allPorts_def first_by_id)

lemma portKeyOf_eq:
  "portKeyOf p = portKeyOf q \<longleftrightarrow> cp_ContainerPort p = cp_ContainerPort q \<and> protocol p = protocol q"
  by (simp add: portKeyOf_def)

lemma PortNames_Nil_iff: "PortNames app = [] \<longleftrightarrow> allPorts app = []"
  by (simp add: PortNames_def)

text \<open>Generated names tell two unnamed TCP or UDP ports apart by number and protocol.\<close>

lemma generated_name_shape:
  assumes "cp_Name p = []"
  shows "portName p = ''port-'' @ int_dec (cp_ContainerPort p)
           @ (if protocol p = ProtocolUDP then ''-udp'' else [])"
  using assms by (simp add: portName_def)

lemma int_dec_no_u: "CHR ''u'' \<notin> set (int_dec i)"
  using int_dec_chars [of i] by (auto simp: digit_chars_def)

lemma generated_name_inj:
  assumes "cp_Name p = []" "cp_Name q = []" "portName p = portName q"
  shows "cp_ContainerPort p = cp_ContainerPort q
    \<and> (protocol p = ProtocolUDP \<longleftrightarrow> protocol q = ProtocolUDP)"
proof -
  have differ: "int_dec i \<noteq> int_dec j @ ''-udp''" for i j
  proof
    assume "int_dec i = int_dec j @ ''-udp''"
    then have "CHR ''u'' \<in> set (int_dec i)" by simp
    then show False using int_dec_no_u by blast
  qed
  show ?thesis
    using assms differ differ [THEN not_sym]
    by (auto simp: generated_name_shape int_dec_inj split: if_splits)
qed

section \<open>The backend of the Ingress\<close>

locale port_table =
  fixes names :: "WebApp \<Rightarrow> string list"
    and want :: "WebApp \<Rightarrow> string"
    and backend :: "WebApp \<Rightarrow> go_error + string"
  assumes backend_named: "backend app = Inr n \<Longrightarrow> n \<in> set (names app)"
    and backend_wanted: "backend app = Inr n \<Longrightarrow> want app \<noteq> [] \<Longrightarrow> n = want app"
    and backend_resolves:
      "names app \<noteq> [] \<Longrightarrow> want app = [] \<or> want app \<in> set (names app) \<Longrightarrow> \<exists>n. backend app = Inr n"
begin

lemma resolves_iff:
  "(\<exists>n. backend app = Inr n) \<longleftrightarrow> names app \<noteq> [] \<and> (want app = [] \<or> want app \<in> set (names app))"
proof
  assume "\<exists>n. backend app = Inr n"
  then obtain n where n: "backend app = Inr n" ..
  have "n \<in> set (names app)" using n by (rule backend_named)
  moreover have "want app \<noteq> [] \<Longrightarrow> n = want app" using n by (rule backend_wanted)
  ultimately show "names app \<noteq> [] \<and> (want app = [] \<or> want app \<in> set (names app))"
    by auto
qed (use backend_resolves in blast)

lemma fails_iff:
  "(\<exists>e. backend app = Inl e) \<longleftrightarrow> names app = [] \<or> want app \<noteq> [] \<and> want app \<notin> set (names app)"
  using resolves_iff [of app] by (cases "backend app") auto

end

lemma backendPort_Inr_cases:
  assumes "backendPort app = Inr n"
  obtains (wanted) "n = ws_IngressPortName (wa_Spec app)" "n \<noteq> []"
      "n \<in> portName ` set (allPorts app)"
    | (port) p where "ws_IngressPortName (wa_Spec app) = []" "p \<in> set (allPorts app)" "n = portName p"
proof (cases "ws_IngressPortName (wa_Spec app) = []")
  case True
  with assms have ne: "allPorts app \<noteq> []"
    by (auto simp: backendPort_def split: if_splits)
  show ?thesis
  proof (cases "find (\<lambda>p. cp_Name p = DefaultPortName) (allPorts app)")
    case None
    with True ne assms show ?thesis
      using port [of "hd (allPorts app)"] hd_in_set [OF ne] by (simp add: backendPort_def)
  next
    case (Some p)
    then have "p \<in> set (allPorts app)" by (auto simp: find_Some_iff)
    with Some True ne assms show ?thesis
      using port by (simp add: backendPort_def)
  qed
next
  case False
  with assms show ?thesis
    by (intro wanted) (auto simp: backendPort_def list_ex_iff Let_def image_iff split: if_splits, metis)
qed

interpretation ports: port_table PortNames "\<lambda>app. ws_IngressPortName (wa_Spec app)" backendPort
proof unfold_locales
  fix app n
  assume *: "backendPort app = Inr n"
  then show "n \<in> set (PortNames app)"
    by (cases rule: backendPort_Inr_cases) (auto simp: PortNames_def)
  show "n = ws_IngressPortName (wa_Spec app)" if "ws_IngressPortName (wa_Spec app) \<noteq> []"
    using * that by (cases rule: backendPort_Inr_cases) auto
next
  fix app
  assume "PortNames app \<noteq> []"
    and "ws_IngressPortName (wa_Spec app) = [] \<or> ws_IngressPortName (wa_Spec app) \<in> set (PortNames app)"
  then show "\<exists>n. backendPort app = Inr n"
    by (auto simp: backendPort_def PortNames_def list_ex_iff Let_def split: option.split)
qed

section \<open>What the four builders share\<close>

locale object_builder =
  fixes build :: "WebApp \<Rightarrow> object option"
    and kind :: kind
  assumes build_kind: "build app = Some obj \<Longrightarrow> kind_of obj = kind"
    and build_name: "build app = Some obj \<Longrightarrow> om_Name (meta_of obj) = app_Name app"
    and build_namespace: "build app = Some obj \<Longrightarrow> om_Namespace (meta_of obj) = app_Namespace app"
    and build_labels: "build app = Some obj \<Longrightarrow> om_Labels (meta_of obj) = Labels app"
    and build_owners: "build app = Some obj \<Longrightarrow> om_OwnerReferences (meta_of obj) = OwnerRefs app"
begin

lemma built_controlled:
  "control_documented X \<Longrightarrow> build app = Some obj \<Longrightarrow>
     IsControlledBy X (meta_of obj) owner \<longleftrightarrow> om_UID owner = app_UID app"
  by (auto simp: control_documented_def build_owners OwnerRefs_def)

lemma built_cached:
  "build app = Some obj \<Longrightarrow> fmlookup (om_Labels (meta_of obj)) ManagedByLabel = Some ManagedByValue"
  by (simp add: build_labels Labels_def SelectorLabels_lookup)

lemma built_key:
  "build app = Some obj \<Longrightarrow>
     (om_Namespace (meta_of obj), om_Name (meta_of obj)) = (app_Namespace app, app_Name app)"
  by (simp add: build_name build_namespace)

end

end
