(* ===== verification/Warp_Sha256.thy ===== *)
theory Warp_Sha256
  imports Warp_Prelude
begin

text \<open>
  The two functions of Go's standard library behind the scratch volume names: crypto/sha256.Sum256
  (FIPS 180-4) and encoding/hex.EncodeToString. Both are executable.
\<close>

unbundle bit_operations_syntax

type_synonym u8 = "8 word"
type_synonym u32 = "32 word"

section \<open>SHA-256\<close>

text \<open>
  The standard's constants are the first 32 bits of the fractional parts of the cube roots of the first
  64 primes, and of the square roots of the first 8. \<open>root_bits k b n 0\<close> is the largest \<open>b\<close>-bit number
  whose \<open>k\<close>-th power is at most \<open>n\<close>, and the conversion to a word keeps the 32 bits after the point.
\<close>

fun root_bits :: "nat \<Rightarrow> nat \<Rightarrow> int \<Rightarrow> int \<Rightarrow> int" where
  "root_bits k 0 n r = r"
| "root_bits k (Suc b) n r = root_bits k b n (if (r + 2 ^ b) ^ k \<le> n then r + 2 ^ b else r)"

definition sha_primes :: "int list" where
  "sha_primes =
    [2, 3, 5, 7, 11, 13, 17, 19, 23, 29, 31, 37, 41, 43, 47, 53, 59, 61, 67, 71, 73, 79, 83, 89, 97, 101,
     103, 107, 109, 113, 127, 131, 137, 139, 149, 151, 157, 163, 167, 173, 179, 181, 191, 193, 197, 199,
     211, 223, 227, 229, 233, 239, 241, 251, 257, 263, 269, 271, 277, 281, 283, 293, 307, 311]"

definition root_fraction :: "nat \<Rightarrow> int \<Rightarrow> u32" where
  "root_fraction k p = word_of_int (root_bits k 36 (p * 2 ^ (32 * k)) 0)"

definition sha_K :: "u32 list" where
  "sha_K = map (root_fraction 3) sha_primes"

record sha_state =
  sh_a :: u32
  sh_b :: u32
  sh_c :: u32
  sh_d :: u32
  sh_e :: u32
  sh_f :: u32
  sh_g :: u32
  sh_h :: u32

definition sha_init :: sha_state where
  "sha_init =
     \<lparr>sh_a = root_fraction 2 2, sh_b = root_fraction 2 3, sh_c = root_fraction 2 5,
      sh_d = root_fraction 2 7, sh_e = root_fraction 2 11, sh_f = root_fraction 2 13,
      sh_g = root_fraction 2 17, sh_h = root_fraction 2 19\<rparr>"

definition rotr :: "nat \<Rightarrow> u32 \<Rightarrow> u32" where
  "rotr n x = drop_bit n x OR push_bit (32 - n) x"

definition sha_schedule_step :: "u32 list \<Rightarrow> u32 list" where
  "sha_schedule_step ws =
     (let t = length ws; w15 = ws ! (t - 15); w2 = ws ! (t - 2);
          s0 = rotr 7 w15 XOR rotr 18 w15 XOR drop_bit 3 w15;
          s1 = rotr 17 w2 XOR rotr 19 w2 XOR drop_bit 10 w2
      in ws @ [ws ! (t - 16) + s0 + ws ! (t - 7) + s1])"

definition sha_schedule :: "u32 list \<Rightarrow> u32 list" where
  "sha_schedule block = (sha_schedule_step ^^ 48) block"

definition sha_round :: "u32 \<times> u32 \<Rightarrow> sha_state \<Rightarrow> sha_state" where
  "sha_round kw s =
     (let a = sh_a s; b = sh_b s; c = sh_c s; e = sh_e s;
          s1 = rotr 6 e XOR rotr 11 e XOR rotr 25 e;
          ch = (e AND sh_f s) XOR (NOT e AND sh_g s);
          t1 = sh_h s + s1 + ch + fst kw + snd kw;
          s0 = rotr 2 a XOR rotr 13 a XOR rotr 22 a;
          maj = (a AND b) XOR (a AND c) XOR (b AND c);
          t2 = s0 + maj
      in \<lparr>sh_a = t1 + t2, sh_b = a, sh_c = b, sh_d = c,
          sh_e = sh_d s + t1, sh_f = e, sh_g = sh_f s, sh_h = sh_g s\<rparr>)"

definition sha_compress :: "u32 list \<Rightarrow> sha_state \<Rightarrow> sha_state" where
  "sha_compress block s =
     (let r = fold sha_round (zip sha_K (sha_schedule block)) s
      in \<lparr>sh_a = sh_a s + sh_a r, sh_b = sh_b s + sh_b r, sh_c = sh_c s + sh_c r,
          sh_d = sh_d s + sh_d r, sh_e = sh_e s + sh_e r, sh_f = sh_f s + sh_f r,
          sh_g = sh_g s + sh_g r, sh_h = sh_h s + sh_h r\<rparr>)"

text \<open>Padding: the bit 1, zeros up to 56 bytes modulo 64, and the length in bits on 8 bytes.\<close>

definition be_bytes :: "nat \<Rightarrow> int \<Rightarrow> int list" where
  "be_bytes k n = map (\<lambda>i. (n div 256 ^ i) mod 256) (rev [0 ..< k])"

definition sha_pad :: "int list \<Rightarrow> int list" where
  "sha_pad bs =
     bs @ [0x80] @ replicate ((119 - length bs mod 64) mod 64) 0 @ be_bytes 8 (8 * int (length bs))"

fun be_words :: "int list \<Rightarrow> u32 list" where
  "be_words (a # b # c # d # bs) =
     word_of_int (16777216 * a + 65536 * b + 256 * c + d) # be_words bs"
| "be_words _ = []"

function blocks :: "'a list \<Rightarrow> 'a list list" where
  "blocks xs = (if length xs < 16 then [] else take 16 xs # blocks (drop 16 xs))"
  by pat_completeness auto
termination
  by (relation "measure length") auto

declare blocks.simps [simp del]

definition word_bytes :: "u32 \<Rightarrow> int list" where
  "word_bytes w = be_bytes 4 (uint w)"

definition Sum256 :: "string \<Rightarrow> int list" where
  "Sum256 s =
     (let r = fold sha_compress (blocks (be_words (sha_pad (map of_char s)))) sha_init
      in concat (map word_bytes
           [sh_a r, sh_b r, sh_c r, sh_d r, sh_e r, sh_f r, sh_g r, sh_h r]))"

section \<open>Hexadecimal\<close>

definition hex_digit :: "int \<Rightarrow> char" where
  "hex_digit d = ''0123456789abcdef'' ! nat d"

definition EncodeToString :: "int list \<Rightarrow> string" where
  "EncodeToString bs = concat (map (\<lambda>b. [hex_digit (b div 16), hex_digit (b mod 16)]) bs)"

definition hex_chars :: "char set" where
  "hex_chars = set ''0123456789abcdef''"

lemma hex_digit_range: "0 \<le> d \<Longrightarrow> d < 16 \<Longrightarrow> hex_digit d \<in> hex_chars"
proof -
  assume "0 \<le> d" "d < 16"
  then have "nat d < length ''0123456789abcdef''" by simp
  then show ?thesis unfolding hex_digit_def hex_chars_def by (rule nth_mem)
qed

lemma hex_digit_inj:
  "d \<in> {0..<16} \<Longrightarrow> e \<in> {0..<16} \<Longrightarrow> hex_digit d = hex_digit e \<Longrightarrow> d = e"
proof -
  assume *: "d \<in> {0..<16}" "e \<in> {0..<16}" "hex_digit d = hex_digit e"
  have "distinct ''0123456789abcdef''" by simp
  with * have "nat d = nat e"
    by (subst nth_eq_iff_index_eq [symmetric]) (auto simp: hex_digit_def)
  with * show ?thesis by auto
qed

lemma length_be_bytes [simp]: "length (be_bytes k n) = k"
  by (simp add: be_bytes_def)

lemma be_bytes_range: "b \<in> set (be_bytes k n) \<Longrightarrow> b \<in> {0..<256}"
  by (auto simp: be_bytes_def)

lemma length_Sum256: "length (Sum256 s) = 32"
  by (simp add: Sum256_def Let_def word_bytes_def)

lemma Sum256_range: "set (Sum256 s) \<subseteq> {0..<256}"
  by (auto simp: Sum256_def Let_def word_bytes_def simp del: atLeastLessThan_iff dest: be_bytes_range)

lemma byte_nibbles: "b \<in> {0..<256} \<Longrightarrow> b div 16 \<in> {0..<16} \<and> b mod 16 \<in> {0..<16::int}"
  by auto

lemma length_EncodeToString: "length (EncodeToString bs) = 2 * length bs"
  by (induction bs) (auto simp: EncodeToString_def)

lemma EncodeToString_chars: "set bs \<subseteq> {0..<256} \<Longrightarrow> set (EncodeToString bs) \<subseteq> hex_chars"
proof (induction bs)
  case (Cons b bs)
  then show ?case
    using byte_nibbles [of b] by (simp add: EncodeToString_def hex_digit_range)
qed (simp add: EncodeToString_def)

lemma EncodeToString_inj:
  "length as = length bs \<Longrightarrow> set as \<union> set bs \<subseteq> {0..<256} \<Longrightarrow>
     EncodeToString as = EncodeToString bs \<Longrightarrow> as = bs"
proof (induction as bs rule: list_induct2)
  case (Cons a as b bs)
  then have "hex_digit (a div 16) = hex_digit (b div 16)" "hex_digit (a mod 16) = hex_digit (b mod 16)"
    and rest: "EncodeToString as = EncodeToString bs"
    by (auto simp: EncodeToString_def)
  moreover have "a \<in> {0..<256}" "b \<in> {0..<256}" using Cons.prems(1) by auto
  ultimately have "a div 16 = b div 16" "a mod 16 = b mod 16"
    using byte_nibbles hex_digit_inj by blast+
  then have "a = b" by (metis div_mult_mod_eq)
  moreover have "as = bs" using Cons rest by auto
  ultimately show ?case by simp
qed simp

end
