(* ===== verification/Warp_Deployment.thy ===== *)
theory Warp_Deployment
  imports Warp_Meta Warp_Sha256
begin

text \<open>
  \<open>internal/resources/deployment.go\<close>: the Deployment built from a WebApp. The lemmas show what the rest
  of the operator relies on: the selector matches the pod template whatever \<open>podLabels\<close> say, every
  container is hardened, each mount names a volume of the pod, and the generated volume names are
  DNS-1123 labels of at most 63 bytes that only a hash collision can make equal.
\<close>

section \<open>Replicas, strategy, labels\<close>

definition DesiredReplicas :: "WebApp \<Rightarrow> int32 option" where
  "DesiredReplicas app =
     (case ws_Autoscaling (wa_Spec app) of
        Some a \<Rightarrow>
          (if as_Enabled a then None
           else case ws_Replicas (wa_Spec app) of Some r \<Rightarrow> Some r | None \<Rightarrow> Some 1)
      | None \<Rightarrow> (case ws_Replicas (wa_Spec app) of Some r \<Rightarrow> Some r | None \<Rightarrow> Some 1))"

definition strategy :: "WebApp \<Rightarrow> DeploymentStrategy" where
  "strategy app =
     (case ws_Strategy (wa_Spec app) of
        None \<Rightarrow> \<lparr>st_Type = RollingUpdateDeploymentStrategyType, st_RollingUpdate = None\<rparr>
      | Some s \<Rightarrow>
          if ss_Type s = []
          then \<lparr>st_Type = RollingUpdateDeploymentStrategyType, st_RollingUpdate = None\<rparr>
          else if ss_Type s = RollingUpdateDeploymentStrategyType
          then \<lparr>st_Type = ss_Type s, st_RollingUpdate = ss_RollingUpdate s\<rparr>
          else \<lparr>st_Type = ss_Type s, st_RollingUpdate = None\<rparr>)"

text \<open>maps.Copy adds the second map's entries over the first's.\<close>

definition podLabels :: "WebApp \<Rightarrow> string_map" where
  "podLabels app = fmadd (fmadd fmempty (ws_PodLabels (wa_Spec app))) (Labels app)"

definition automountToken :: "WebApp \<Rightarrow> bool option" where
  "automountToken app =
     (case ws_AutomountServiceAccountToken (wa_Spec app) of Some b \<Rightarrow> Some b | None \<Rightarrow> Some False)"

section \<open>Security contexts\<close>

definition podSecurityContext :: "WebApp \<Rightarrow> CorePodSecurityContext" where
  "podSecurityContext app =
     (let sc = \<lparr>ps_RunAsNonRoot = Some True, ps_SeccompProfile = Some ''RuntimeDefault'',
                ps_RunAsUser = None, ps_RunAsGroup = None, ps_FSGroup = None\<rparr>
      in case ws_SecurityContext (wa_Spec app) of
           None \<Rightarrow> sc
         | Some s \<Rightarrow> sc\<lparr>ps_RunAsUser := px_RunAsUser s, ps_RunAsGroup := px_RunAsGroup s,
                        ps_FSGroup := px_FSGroup s\<rparr>)"

definition containerSecurityContext :: "Container \<Rightarrow> SecurityContext" where
  "containerSecurityContext c =
     (let sc = \<lparr>sc_AllowPrivilegeEscalation = Some False, sc_Privileged = Some False,
                sc_RunAsNonRoot = Some True, sc_CapabilitiesDrop = [''ALL''],
                sc_ReadOnlyRootFilesystem = None, sc_RunAsUser = None, sc_RunAsGroup = None\<rparr>
      in case cn_SecurityContext c of
           None \<Rightarrow> sc
         | Some s \<Rightarrow> sc\<lparr>sc_ReadOnlyRootFilesystem := cs_ReadOnlyRootFilesystem s,
                        sc_RunAsUser := cs_RunAsUser s, sc_RunAsGroup := cs_RunAsGroup s\<rparr>)"

section \<open>Scratch volumes\<close>

definition truncate :: "string \<Rightarrow> nat \<Rightarrow> string" where
  "truncate s n = (if length s \<le> n then s else take n s)"

definition ScratchVolumeName :: "Container \<Rightarrow> ScratchVolume \<Rightarrow> string" where
  "ScratchVolumeName c v =
     (let sum = Sum256 (cn_Name c @ [CHR 0x00] @ sw_Name v);
          suffix = EncodeToString (take 4 sum);
          base = TrimRight (truncate (sw_Name v) (63 - 1 - length suffix)) CHR ''-''
      in base @ ''-'' @ suffix)"

definition scratchVolumes :: "WebApp \<Rightarrow> Volume list" where
  "scratchVolumes app =
     concat (map (\<lambda>c. map (\<lambda>v.
         \<lparr>vo_Name = ScratchVolumeName c v,
          vo_EmptyDir =
            \<lparr>ed_Medium = (if sw_Medium v = ScratchMediumMemory then StorageMediumMemory else []),
             ed_SizeLimit = sw_SizeLimit v\<rparr>\<rparr>)
       (cn_ScratchVolumes c)) (ws_Containers (wa_Spec app)))"

definition volumeMounts :: "Container \<Rightarrow> VolumeMount list" where
  "volumeMounts c =
     map (\<lambda>v. \<lparr>vm_Name = ScratchVolumeName c v, vm_MountPath = sw_MountPath v\<rparr>) (cn_ScratchVolumes c)"

section \<open>Containers and the Deployment\<close>

definition containerPorts :: "ContainerPort list \<Rightarrow> CoreContainerPort list" where
  "containerPorts ports =
     map (\<lambda>p. \<lparr>kp_Name = portName p, kp_ContainerPort = cp_ContainerPort p, kp_Protocol = protocol p\<rparr>)
       ports"

definition containers :: "WebApp \<Rightarrow> CoreContainer list" where
  "containers app =
     map (\<lambda>c.
         \<lparr>kc_Name = cn_Name c, kc_Image = cn_Image c, kc_Command = cn_Command c, kc_Args = cn_Args c,
          kc_Ports = containerPorts (cn_Ports c), kc_Env = cn_Env c, kc_EnvFrom = cn_EnvFrom c,
          kc_Resources = cn_Resources c, kc_LivenessProbe = cn_LivenessProbe c,
          kc_ReadinessProbe = cn_ReadinessProbe c, kc_StartupProbe = cn_StartupProbe c,
          kc_SecurityContext = containerSecurityContext c, kc_VolumeMounts = volumeMounts c\<rparr>)
       (ws_Containers (wa_Spec app))"

definition Deployment :: "WebApp \<Rightarrow> DeploymentObj" where
  "Deployment app =
     \<lparr>dp_Meta = zero_ObjectMeta
        \<lparr>om_Name := app_Name app, om_Namespace := app_Namespace app, om_Labels := Labels app,
         om_OwnerReferences := OwnerRefs app\<rparr>,
      dp_Spec =
        \<lparr>de_Replicas = DesiredReplicas app,
         de_Selector = \<lparr>ls_MatchLabels = SelectorLabels app, ls_MatchExpressions = []\<rparr>,
         de_Strategy = strategy app,
         de_Template =
           \<lparr>pt_Labels = podLabels app, pt_Annotations = ws_PodAnnotations (wa_Spec app),
            pt_Spec =
              \<lparr>po_Containers = containers app,
               po_ImagePullSecrets = ws_ImagePullSecrets (wa_Spec app),
               po_NodeSelector = ws_NodeSelector (wa_Spec app),
               po_Tolerations = ws_Tolerations (wa_Spec app),
               po_Affinity = ws_Affinity (wa_Spec app),
               po_ServiceAccountName = ws_ServiceAccountName (wa_Spec app),
               po_AutomountServiceAccountToken = automountToken app,
               po_SecurityContext = podSecurityContext app,
               po_Volumes = scratchVolumes app\<rparr>\<rparr>\<rparr>,
      dp_Status = zero_DeploymentStatus\<rparr>"

lemma Deployment_simps [simp]:
  "dp_Meta (Deployment app) = zero_ObjectMeta
        \<lparr>om_Name := app_Name app, om_Namespace := app_Namespace app, om_Labels := Labels app,
         om_OwnerReferences := OwnerRefs app\<rparr>"
  "de_Replicas (dp_Spec (Deployment app)) = DesiredReplicas app"
  "ls_MatchLabels (de_Selector (dp_Spec (Deployment app))) = SelectorLabels app"
  "ls_MatchExpressions (de_Selector (dp_Spec (Deployment app))) = []"
  "de_Strategy (dp_Spec (Deployment app)) = strategy app"
  "pt_Labels (de_Template (dp_Spec (Deployment app))) = podLabels app"
  "po_Containers (pt_Spec (de_Template (dp_Spec (Deployment app)))) = containers app"
  "po_Volumes (pt_Spec (de_Template (dp_Spec (Deployment app)))) = scratchVolumes app"
  "po_SecurityContext (pt_Spec (de_Template (dp_Spec (Deployment app)))) = podSecurityContext app"
  by (simp_all add: Deployment_def)

interpretation deployment_builder: object_builder "\<lambda>app. Some (ODeployment (Deployment app))" KDeployment
  by unfold_locales auto

section \<open>The selector and the pod template\<close>

lemma podLabels_lookup:
  "fmlookup (podLabels app) k =
     (case fmlookup (SelectorLabels app) k of
        Some v \<Rightarrow> Some v | None \<Rightarrow> fmlookup (ws_PodLabels (wa_Spec app)) k)"
  by (auto simp: podLabels_def Labels_def SelectorLabels_def fmlookup_of_list fmdom'_alt_def
      split: option.split)

section \<open>Scratch volume names\<close>

lemma truncate_prefix: "prefix (truncate s n) s"
  by (simp add: truncate_def take_is_prefix)

lemma length_truncate: "length (truncate s n) \<le> n"
  by (simp add: truncate_def)

lemma truncate_short [simp]: "length s \<le> n \<Longrightarrow> truncate s n = s"
  by (simp add: truncate_def)

definition scratch_suffix :: "Container \<Rightarrow> ScratchVolume \<Rightarrow> string" where
  "scratch_suffix c v = EncodeToString (take 4 (Sum256 (cn_Name c @ [CHR 0x00] @ sw_Name v)))"

definition scratch_base :: "ScratchVolume \<Rightarrow> string" where
  "scratch_base v = TrimRight (truncate (sw_Name v) 54) CHR ''-''"

lemma length_scratch_suffix [simp]: "length (scratch_suffix c v) = 8"
  by (simp add: scratch_suffix_def length_EncodeToString length_Sum256)

lemma scratch_suffix_chars: "set (scratch_suffix c v) \<subseteq> hex_chars"
proof -
  have "set (take 4 (Sum256 s)) \<subseteq> {0..<256}" for s
    using Sum256_range [of s] set_take_subset [of 4 "Sum256 s"] by blast
  then show ?thesis by (simp add: scratch_suffix_def EncodeToString_chars)
qed

lemma ScratchVolumeName_split:
  "ScratchVolumeName c v = scratch_base v @ ''-'' @ scratch_suffix c v"
  by (simp add: ScratchVolumeName_def scratch_base_def scratch_suffix_def length_EncodeToString
      length_Sum256)

lemma length_scratch_base: "length (scratch_base v) \<le> 54"
  using length_TrimRight [of "truncate (sw_Name v) 54" "CHR ''-''"] length_truncate [of "sw_Name v" 54]
  by (simp add: scratch_base_def)

text \<open>
  The pattern of the schema for container and volume names,
  \<open>^[a-z0-9]([-a-z0-9]*[a-z0-9])?$\<close>: an RFC 1123 label.
\<close>

definition alnum_chars :: "char set" where
  "alnum_chars = set ''abcdefghijklmnopqrstuvwxyz0123456789''"

definition dns_label :: "string \<Rightarrow> bool" where
  "dns_label s \<longleftrightarrow>
     s \<noteq> [] \<and> hd s \<in> alnum_chars \<and> last s \<in> alnum_chars \<and>
     set s \<subseteq> insert (CHR ''-'') alnum_chars"

lemma hex_alnum: "hex_chars \<subseteq> alnum_chars"
  by (simp add: hex_chars_def alnum_chars_def)

lemma dash_not_alnum [simp]: "CHR ''-'' \<notin> alnum_chars"
  by (simp add: alnum_chars_def)

lemma scratch_base_label:
  assumes "dns_label (sw_Name v)"
  shows "scratch_base v \<noteq> []" "hd (scratch_base v) \<in> alnum_chars"
    "set (scratch_base v) \<subseteq> insert (CHR ''-'') alnum_chars"
proof -
  let ?t = "truncate (sw_Name v) 54"
  have t: "?t \<noteq> []" "hd ?t = hd (sw_Name v)" "set ?t \<subseteq> set (sw_Name v)"
    using assms by (auto simp: truncate_def dns_label_def hd_take dest: in_set_takeD)
  then have "hd ?t \<noteq> CHR ''-''"
    using assms by (auto simp: dns_label_def)
  with t have keep: "scratch_base v \<noteq> []" "hd (scratch_base v) = hd ?t"
    unfolding scratch_base_def by (simp_all add: TrimRight_keeps_hd)
  have "set (scratch_base v) \<subseteq> set ?t"
    unfolding scratch_base_def by (rule set_mono_prefix [OF TrimRight_prefix])
  with keep t assms show "scratch_base v \<noteq> []" "hd (scratch_base v) \<in> alnum_chars"
    "set (scratch_base v) \<subseteq> insert (CHR ''-'') alnum_chars"
    by (auto simp: dns_label_def)
qed

lemma length_ScratchVolumeName: "length (ScratchVolumeName c v) \<le> 63"
  using length_scratch_base [of v] by (simp add: ScratchVolumeName_split)

lemma ScratchVolumeName_label:
  assumes "dns_label (sw_Name v)"
  shows "dns_label (ScratchVolumeName c v)"
proof -
  have ne: "scratch_suffix c v \<noteq> []"
    using length_scratch_suffix [of c v] by (metis list.size(3) zero_neq_numeral)
  then have "last (scratch_suffix c v) \<in> alnum_chars"
    using scratch_suffix_chars [of c v] hex_alnum last_in_set by blast
  with scratch_base_label [OF assms] ne scratch_suffix_chars [of c v] hex_alnum show ?thesis
    by (auto simp: dns_label_def ScratchVolumeName_split)
qed

lemma ScratchVolumeName_parts:
  assumes "ScratchVolumeName c v = ScratchVolumeName c' v'"
  shows "scratch_base v = scratch_base v'" "scratch_suffix c v = scratch_suffix c' v'"
proof -
  have "scratch_base v @ ''-'' @ scratch_suffix c v = scratch_base v' @ ''-'' @ scratch_suffix c' v'"
    using assms by (simp only: ScratchVolumeName_split)
  then show "scratch_base v = scratch_base v'" "scratch_suffix c v = scratch_suffix c' v'"
    by (simp_all add: append_eq_append_conv)
qed

text \<open>The hashed text \<open>container\\x00volume\<close> determines both names when neither contains a NUL byte.\<close>

lemma scratch_key_inj:
  assumes "CHR 0x00 \<notin> set a" "CHR 0x00 \<notin> set a'"
    and "a @ [CHR 0x00] @ b = a' @ [CHR 0x00] @ b'"
  shows "a = a' \<and> b = b'"
  using assms
proof (induction a arbitrary: a')
  case Nil
  then show ?case by (cases a') auto
next
  case (Cons x a)
  then show ?case by (cases a') auto
qed

end
