(* ===== verification/Warp_Service.thy ===== *)
theory Warp_Service
  imports Warp_Deployment
begin

text \<open>
  \<open>internal/resources/service.go\<close>: the Service in front of the Deployment. Its ports are the
  de-duplicated ports of the WebApp, each with its generated name.
\<close>

definition servicePorts :: "WebApp \<Rightarrow> ServicePort list" where
  "servicePorts app =
     map (\<lambda>p. \<lparr>sp_Name = portName p, sp_Port = cp_ContainerPort p,
              sp_TargetPort = FromInt32 (cp_ContainerPort p), sp_Protocol = protocol p\<rparr>)
       (allPorts app)"

definition Service :: "WebApp \<Rightarrow> ServiceObj" where
  "Service app =
     (let t = (if ws_ServiceType (wa_Spec app) = [] then ServiceTypeClusterIP
               else ws_ServiceType (wa_Spec app))
      in \<lparr>sv_Meta = zero_ObjectMeta
            \<lparr>om_Name := app_Name app, om_Namespace := app_Namespace app, om_Labels := Labels app,
             om_OwnerReferences := OwnerRefs app\<rparr>,
          sv_Type = t, sv_Selector = SelectorLabels app, sv_Ports = servicePorts app\<rparr>)"

lemma Service_simps [simp]:
  "sv_Meta (Service app) = zero_ObjectMeta
        \<lparr>om_Name := app_Name app, om_Namespace := app_Namespace app, om_Labels := Labels app,
         om_OwnerReferences := OwnerRefs app\<rparr>"
  "sv_Selector (Service app) = SelectorLabels app"
  "sv_Ports (Service app) = servicePorts app"
  by (simp_all add: Service_def Let_def)

interpretation service_builder: object_builder "\<lambda>app. Some (OService (Service app))" KService
  by unfold_locales auto

lemma servicePorts_names: "map sp_Name (servicePorts app) = PortNames app"
  by (simp add: servicePorts_def PortNames_def)

lemma servicePorts_Nil_iff: "servicePorts app = [] \<longleftrightarrow> declared_ports app = []"
  by (simp add: servicePorts_def allPorts_Nil_iff)

text \<open>The API server keys the ports of a Service by number and protocol.\<close>

lemma servicePorts_distinct: "distinct (map (\<lambda>q. (sp_Port q, sp_Protocol q)) (servicePorts app))"
proof -
  have "map (\<lambda>q. (sp_Port q, sp_Protocol q)) (servicePorts app)
      = map (\<lambda>k. (pk_port k, pk_protocol k)) (map portKeyOf (allPorts app))"
    by (simp add: servicePorts_def portKeyOf_def)
  moreover have "inj (\<lambda>k :: portKey. (pk_port k, pk_protocol k))"
    by (rule injI) simp
  ultimately show ?thesis
    using allPorts_distinct [of app] by (simp add: distinct_map inj_on_def)
qed

text \<open>Each service port comes from a port of some container of the pod, with the name it has there.\<close>

lemma servicePort_backed:
  assumes "q \<in> set (servicePorts app)"
  obtains kc kp where "kc \<in> set (containers app)" "kp \<in> set (kc_Ports kc)"
    "kp_Name kp = sp_Name q" "kp_ContainerPort kp = sp_Port q" "kp_Protocol kp = sp_Protocol q"
proof -
  from assms obtain p where p: "p \<in> set (allPorts app)" and q: "q =
      \<lparr>sp_Name = portName p, sp_Port = cp_ContainerPort p,
       sp_TargetPort = FromInt32 (cp_ContainerPort p), sp_Protocol = protocol p\<rparr>"
    by (auto simp: servicePorts_def)
  from p allPorts_subset [of app] obtain c
    where c: "c \<in> set (ws_Containers (wa_Spec app))" "p \<in> set (cn_Ports c)"
    by (auto simp: declared_ports_def)
  let ?kp = "\<lparr>kp_Name = portName p, kp_ContainerPort = cp_ContainerPort p, kp_Protocol = protocol p\<rparr>"
  from c have "\<exists>kc \<in> set (containers app). ?kp \<in> set (kc_Ports kc)"
    by (fastforce simp: containers_def containerPorts_def)
  then show ?thesis using that q by fastforce
qed

end
