(* ===== verification/Warp_Ingress.thy ===== *)
theory Warp_Ingress
  imports Warp_Service
begin

text \<open>
  \<open>internal/resources/ingress.go\<close>: the Ingress of a WebApp with a domain, and the URL reported in its
  status. Building one fails exactly when the backend port cannot be resolved.
\<close>

definition WantsIngress :: "WebApp \<Rightarrow> bool" where
  "WantsIngress app \<longleftrightarrow> ws_Domain (wa_Spec app) \<noteq> []"

definition IngressURL :: "WebApp \<Rightarrow> string" where
  "IngressURL app = (if \<not> WantsIngress app then [] else ''http://'' @ ws_Domain (wa_Spec app))"

definition Ingress :: "WebApp \<Rightarrow> go_error + IngressObj" where
  "Ingress app =
     (case backendPort app of
        Inl err \<Rightarrow> Inl err
      | Inr port \<Rightarrow>
          Inr \<lparr>in_Meta = zero_ObjectMeta
                 \<lparr>om_Name := app_Name app, om_Namespace := app_Namespace app, om_Labels := Labels app,
                  om_OwnerReferences := OwnerRefs app\<rparr>,
               in_IngressClassName = ws_IngressClassName (wa_Spec app),
               in_Rules =
                 [\<lparr>ir_Host = ws_Domain (wa_Spec app),
                   ir_Paths = [\<lparr>hp_Path = ''/'', hp_PathType = ''Prefix'',
                                hp_ServiceName = app_Name app, hp_PortName = port\<rparr>]\<rparr>]\<rparr>)"

lemma Ingress_Inr:
  assumes "Ingress app = Inr ing"
  obtains port where "backendPort app = Inr port" "om_Name (in_Meta ing) = app_Name app"
    "in_Rules ing = [\<lparr>ir_Host = ws_Domain (wa_Spec app),
       ir_Paths = [\<lparr>hp_Path = ''/'', hp_PathType = ''Prefix'',
                    hp_ServiceName = app_Name app, hp_PortName = port\<rparr>]\<rparr>]"
  using assms by (auto simp: Ingress_def split: sum.splits)

lemma Ingress_Inl_iff: "Ingress app = Inl e \<longleftrightarrow> backendPort app = Inl e"
  by (auto simp: Ingress_def split: sum.splits)

lemma Ingress_built_iff: "(\<exists>ing. Ingress app = Inr ing) \<longleftrightarrow> (\<exists>n. backendPort app = Inr n)"
  by (auto simp: Ingress_def split: sum.splits)

definition ingress_object :: "WebApp \<Rightarrow> object option" where
  "ingress_object app = (case Ingress app of Inl _ \<Rightarrow> None | Inr ing \<Rightarrow> Some (OIngress ing))"

interpretation ingress_builder: object_builder ingress_object KIngress
  by unfold_locales (auto simp: ingress_object_def Ingress_def split: sum.splits)

end
