(* ===== verification/Warp_HPA.thy ===== *)
theory Warp_HPA
  imports Warp_Meta
begin

text \<open>
  \<open>internal/resources/hpa.go\<close>: the HorizontalPodAutoscaler of a WebApp with autoscaling enabled.

  \<open>HPA\<close> dereferences \<open>app.Spec.Autoscaling\<close>, which is nil unless \<open>WantsHPA\<close> holds; a nil pointer panics
  in Go, so the model returns \<open>HPA_panic\<close> there and a lemma shows that the guarded call never does.
\<close>

definition DefaultTargetCPU :: int32 where [simp]: "DefaultTargetCPU = 70"

definition ErrNoMaxReplicas :: go_error where
  "ErrNoMaxReplicas = ErrorNew ''resources: autoscaling is enabled without maxReplicas''"

definition WantsHPA :: "WebApp \<Rightarrow> bool" where
  "WantsHPA app \<longleftrightarrow>
     (case ws_Autoscaling (wa_Spec app) of None \<Rightarrow> False | Some a \<Rightarrow> as_Enabled a)"

definition TargetedResources :: "AutoscalingSpec \<Rightarrow> string list" where
  "TargetedResources a =
     (let out = (if as_TargetCPU a \<noteq> None then [ResourceCPU] else [])
                @ (if as_TargetMemory a \<noteq> None then [ResourceMemory] else [])
      in if out = [] then [ResourceCPU] else out)"

definition hpaMetrics :: "AutoscalingSpec \<Rightarrow> MetricSpec list" where
  "hpaMetrics a =
     (let targets = [ResourceCPU \<mapsto> as_TargetCPU a, ResourceMemory \<mapsto> as_TargetMemory a]
      in map (\<lambda>name.
           let target = (case targets name of Some (Some t) \<Rightarrow> t | _ \<Rightarrow> DefaultTargetCPU)
           in \<lparr>ms_Type = ''Resource'', ms_ResourceName = name, ms_TargetType = ''Utilization'',
               ms_AverageUtilization = Some target\<rparr>)
         (TargetedResources a))"

datatype hpa_result = HPA_panic | HPA_error go_error | HPA_ok HPAObj

definition HPA :: "WebApp \<Rightarrow> hpa_result" where
  "HPA app =
     (case ws_Autoscaling (wa_Spec app) of
        None \<Rightarrow> HPA_panic
      | Some a \<Rightarrow>
          (case as_MaxReplicas a of
             None \<Rightarrow> HPA_error ErrNoMaxReplicas
           | Some maxReplicas \<Rightarrow>
               (let minReplicas =
                      (case as_MinReplicas a of Some m \<Rightarrow> Some m | None \<Rightarrow> Some 1)
                in HPA_ok
                  \<lparr>hs_Meta = zero_ObjectMeta
                     \<lparr>om_Name := app_Name app, om_Namespace := app_Namespace app,
                      om_Labels := Labels app, om_OwnerReferences := OwnerRefs app\<rparr>,
                   hs_ScaleTargetRef =
                     \<lparr>xr_APIVersion = ''apps/v1'', xr_Kind = ''Deployment'', xr_Name = app_Name app\<rparr>,
                   hs_MinReplicas = minReplicas, hs_MaxReplicas = maxReplicas,
                   hs_Metrics = hpaMetrics a, hs_Behavior = as_Behavior a\<rparr>)))"

lemma WantsHPA_D: "WantsHPA app \<Longrightarrow> \<exists>a. ws_Autoscaling (wa_Spec app) = Some a \<and> as_Enabled a"
  by (auto simp: WantsHPA_def split: option.splits)

lemma HPA_guarded: "WantsHPA app \<Longrightarrow> HPA app \<noteq> HPA_panic"
  by (auto simp: HPA_def Let_def dest!: WantsHPA_D split: option.split)

lemma HPA_ok_iff:
  "WantsHPA app \<Longrightarrow> (\<exists>h. HPA app = HPA_ok h) \<longleftrightarrow>
     (\<exists>a m. ws_Autoscaling (wa_Spec app) = Some a \<and> as_MaxReplicas a = Some m)"
  by (auto simp: HPA_def Let_def dest!: WantsHPA_D split: option.split)

lemma TargetedResources_nonempty: "TargetedResources a \<noteq> []"
  by (simp add: TargetedResources_def Let_def)

lemma hpaMetrics_names: "map ms_ResourceName (hpaMetrics a) = TargetedResources a"
  by (simp add: hpaMetrics_def Let_def comp_def)

definition hpa_object :: "WebApp \<Rightarrow> object option" where
  "hpa_object app = (case HPA app of HPA_ok h \<Rightarrow> Some (OHPA h) | _ \<Rightarrow> None)"

interpretation hpa_builder: object_builder hpa_object KHPA
  by unfold_locales (auto simp: hpa_object_def HPA_def Let_def split: option.splits)

end
