(* ===== verification/Warp_Policy.thy ===== *)
theory Warp_Policy
  imports Warp_Api
begin

text \<open>
  \<open>internal/policy/policy.go\<close>: the evaluation of WebAppPolicies against a WebApp, used by the
  validating webhook (all rules) and by the reconciler (the replica ceiling alone), and the
  validation of a policy itself.

  The two evaluators run the same loop over different rule sets. The locale \<open>policy_engine\<close> states that
  loop once; its lemmas hold for both by interpretation.
\<close>

section \<open>Matching\<close>

definition Matches :: "k8s \<Rightarrow> WebAppPolicy \<Rightarrow> string_map \<Rightarrow> go_error + bool" where
  "Matches X p nsLabels =
     (case py_NamespaceSelector (wp_Spec p) of
        None \<Rightarrow> Inr True
      | Some ns \<Rightarrow>
          (case LabelSelectorAsSelector X ns of
             Inl err \<Rightarrow> Inl (Errorf ''policy %q has an invalid namespaceSelector: %w''
                              [AStr (policy_Name p), AWrap err])
           | Inr sel \<Rightarrow> Inr (sel nsLabels)))"

section \<open>Results\<close>

record Result =
  re_Violations :: error_list
  re_Warnings :: "msg list"
  re_Audited :: "msg list"

definition empty_Result :: Result where
  "empty_Result = \<lparr>re_Violations = [], re_Warnings = [], re_Audited = []\<rparr>"

definition record_errors :: "Result \<Rightarrow> WebAppPolicy \<Rightarrow> error_list \<Rightarrow> Result" where
  "record_errors res p errs =
     (if errs = [] then res
      else let texts = map (\<lambda>e. Sprintf ''policy %q: %s'' [AStr (policy_Name p), AFieldErr e]) errs
      in if py_Enforcement (wp_Spec p) = EnforcementWarn
         then res\<lparr>re_Warnings := re_Warnings res @ texts\<rparr>
         else if py_Enforcement (wp_Spec p) = EnforcementAudit
         then res\<lparr>re_Audited := re_Audited res @ texts\<rparr>
         else res\<lparr>re_Violations := re_Violations res @ errs\<rparr>)"

section \<open>The rules\<close>

definition replicaViolations :: "WebApp \<Rightarrow> WebAppPolicy \<Rightarrow> error_list" where
  "replicaViolations app p =
     (case py_MaxReplicas (wp_Spec p) of
        None \<Rightarrow> []
      | Some ceil \<Rightarrow>
          let detail = Sprintf ''policy %q allows at most %d replicas''
                         [AStr (policy_Name p), AInt ceil];
              on_replicas =
                (case ws_Replicas (wa_Spec app) of
                   None \<Rightarrow> []
                 | Some r \<Rightarrow>
                     if r > ceil
                     then [field_Invalid [Child ''spec'', Child ''replicas''] (BadInt r) detail]
                     else [])
          in case ws_Autoscaling (wa_Spec app) of
               None \<Rightarrow> on_replicas
             | Some a \<Rightarrow>
                 if as_Enabled a
                 then (case as_MaxReplicas a of
                         None \<Rightarrow> []
                       | Some m \<Rightarrow>
                           if m > ceil
                           then [field_Invalid
                                   [Child ''spec'', Child ''autoscaling'', Child ''maxReplicas'']
                                   (BadInt m) detail]
                           else [])
                 else on_replicas)"

definition effective_sa :: "WebApp \<Rightarrow> string" where
  "effective_sa app =
     (if ws_ServiceAccountName (wa_Spec app) = [] then ''default''
      else ws_ServiceAccountName (wa_Spec app))"

definition serviceAccountViolations :: "WebApp \<Rightarrow> WebAppPolicy \<Rightarrow> error_list" where
  "serviceAccountViolations app p =
     (let sa = effective_sa app; allowed = py_AllowedServiceAccounts (wp_Spec p)
      in if allowed \<noteq> [] \<and> sa \<notin> set allowed
         then [field_Invalid [Child ''spec'', Child ''serviceAccountName''] (BadString sa)
                 (Sprintf ''policy %q allows only %v'' [AStr (policy_Name p), AStrs allowed])]
         else [])"

definition annotationViolations :: "WebApp \<Rightarrow> WebAppPolicy \<Rightarrow> error_list" where
  "annotationViolations app p =
     concat (map (\<lambda>pre.
       concat (map (\<lambda>k.
           if HasPrefix k pre
           then [field_Invalid [Child ''spec'', Child ''podAnnotations'', Key k] (BadString k)
                   (Sprintf ''policy %q forbids the prefix %q'' [AStr (policy_Name p), AStr pre])]
           else [])
         (sorted_keys (ws_PodAnnotations (wa_Spec app)))))
       (py_ForbiddenPodAnnotationPrefixes (wp_Spec p)))"

definition scratchViolation ::
  "k8s \<Rightarrow> WebAppPolicy \<Rightarrow> quantity \<Rightarrow> nat \<Rightarrow> nat \<Rightarrow> ScratchVolume \<Rightarrow> error_list" where
  "scratchViolation X p cap i j v =
     (let vp = [Child ''spec'', Child ''containers'', Index i, Child ''scratchVolumes'', Index j]
      in case sw_SizeLimit v of
           None \<Rightarrow>
             [field_Required (vp @ [Child ''sizeLimit''])
                (Sprintf ''policy %q caps scratch volumes at %s''
                   [AStr (policy_Name p), AStr (q_String X cap)])]
         | Some q \<Rightarrow>
             if q_Cmp X q cap > 0
             then [field_Invalid (vp @ [Child ''sizeLimit'']) (BadString (q_String X q))
                     (Sprintf ''policy %q allows at most %s''
                        [AStr (policy_Name p), AStr (q_String X cap)])]
             else [])"

definition scratchSizeViolations :: "k8s \<Rightarrow> WebApp \<Rightarrow> WebAppPolicy \<Rightarrow> error_list" where
  "scratchSizeViolations X app p =
     (case py_MaxScratchSize (wp_Spec p) of
        None \<Rightarrow> []
      | Some cap \<Rightarrow>
          for_range 0 (\<lambda>i c.
              for_range 0 (\<lambda>j v. scratchViolation X p cap i j v) (cn_ScratchVolumes c))
            (ws_Containers (wa_Spec app)))"

text \<open>sortedNames is \<^const>\<open>sorted_keys\<close> on a resource list.\<close>

definition sortedNames :: "ResourceList \<Rightarrow> string list" where
  "sortedNames l = sorted_keys l"

definition requestViolation ::
  "k8s \<Rightarrow> WebAppPolicy \<Rightarrow> ResourcePolicy \<Rightarrow> field_path \<Rightarrow> Container \<Rightarrow> string \<Rightarrow> error_list" where
  "requestViolation X p rp cp c name =
     (case fmlookup (rp_MinRequests rp) name of
        None \<Rightarrow> []
      | Some flr \<Rightarrow>
          (case fmlookup (rr_Requests (cn_Resources c)) name of
             None \<Rightarrow>
               [field_Required (cp @ [Child ''requests'', Key name])
                  (Sprintf ''policy %q requires at least %s; an absent request is zero''
                     [AStr (policy_Name p), AStr (q_String X flr)])]
           | Some got \<Rightarrow>
               if q_Cmp X got flr < 0
               then [field_Invalid (cp @ [Child ''requests'', Key name]) (BadString (q_String X got))
                       (Sprintf ''policy %q requires at least %s''
                          [AStr (policy_Name p), AStr (q_String X flr)])]
               else []))"

definition limitViolation ::
  "k8s \<Rightarrow> WebAppPolicy \<Rightarrow> ResourcePolicy \<Rightarrow> field_path \<Rightarrow> Container \<Rightarrow> string \<Rightarrow> error_list" where
  "limitViolation X p rp cp c name =
     (case fmlookup (rp_MaxLimits rp) name of
        None \<Rightarrow> []
      | Some ceil \<Rightarrow>
          (case fmlookup (rr_Limits (cn_Resources c)) name of
             None \<Rightarrow>
               [field_Required (cp @ [Child ''limits'', Key name])
                  (Sprintf ''policy %q allows at most %s; an absent limit is unlimited''
                     [AStr (policy_Name p), AStr (q_String X ceil)])]
           | Some got \<Rightarrow>
               if q_Cmp X got ceil > 0
               then [field_Invalid (cp @ [Child ''limits'', Key name]) (BadString (q_String X got))
                       (Sprintf ''policy %q allows at most %s''
                          [AStr (policy_Name p), AStr (q_String X ceil)])]
               else []))"

definition containerResourceViolations ::
  "k8s \<Rightarrow> WebAppPolicy \<Rightarrow> ResourcePolicy \<Rightarrow> nat \<Rightarrow> Container \<Rightarrow> error_list" where
  "containerResourceViolations X p rp i c =
     (let cp = [Child ''spec'', Child ''containers'', Index i, Child ''resources'']
      in (if rp_RequireRequests rp \<and> map_empty (rr_Requests (cn_Resources c))
          then [field_Required (cp @ [Child ''requests''])
                  (Sprintf ''policy %q requires resource requests'' [AStr (policy_Name p)])]
          else [])
       @ (if rp_RequireLimits rp \<and> map_empty (rr_Limits (cn_Resources c))
          then [field_Required (cp @ [Child ''limits''])
                  (Sprintf ''policy %q requires resource limits'' [AStr (policy_Name p)])]
          else [])
       @ concat (map (requestViolation X p rp cp c) (sortedNames (rp_MinRequests rp)))
       @ concat (map (limitViolation X p rp cp c) (sortedNames (rp_MaxLimits rp))))"

definition resourceViolations :: "k8s \<Rightarrow> WebApp \<Rightarrow> WebAppPolicy \<Rightarrow> error_list" where
  "resourceViolations X app p =
     (case py_Resources (wp_Spec p) of
        None \<Rightarrow> []
      | Some rp \<Rightarrow>
          for_range 0 (containerResourceViolations X p rp) (ws_Containers (wa_Spec app)))"

definition violations :: "k8s \<Rightarrow> WebApp \<Rightarrow> WebAppPolicy \<Rightarrow> error_list" where
  "violations X app p =
     replicaViolations app p @ serviceAccountViolations app p @ annotationViolations app p
     @ scratchSizeViolations X app p @ resourceViolations X app p"

section \<open>The two evaluators\<close>

fun Evaluate_loop ::
  "k8s \<Rightarrow> WebApp \<Rightarrow> string_map \<Rightarrow> WebAppPolicy list \<Rightarrow> Result \<Rightarrow> Result" where
  "Evaluate_loop X app nsLabels [] res = res"
| "Evaluate_loop X app nsLabels (p # ps) res =
     (case Matches X p nsLabels of
        Inl err \<Rightarrow>
          Evaluate_loop X app nsLabels ps
            (res\<lparr>re_Warnings := re_Warnings res
               @ [Sprintf ''policy %q is not being enforced: %s'' [AStr (policy_Name p), AErr err]]\<rparr>)
      | Inr ok \<Rightarrow>
          if \<not> ok then Evaluate_loop X app nsLabels ps res
          else Evaluate_loop X app nsLabels ps (record_errors res p (violations X app p)))"

definition Evaluate :: "k8s \<Rightarrow> WebApp \<Rightarrow> WebAppPolicy list \<Rightarrow> string_map \<Rightarrow> go_error + Result" where
  "Evaluate X app policies nsLabels = Inr (Evaluate_loop X app nsLabels policies empty_Result)"

fun EvaluateScale_loop ::
  "k8s \<Rightarrow> WebApp \<Rightarrow> string_map \<Rightarrow> WebAppPolicy list \<Rightarrow> Result \<Rightarrow> Result" where
  "EvaluateScale_loop X app nsLabels [] res = res"
| "EvaluateScale_loop X app nsLabels (p # ps) res =
     (case Matches X p nsLabels of
        Inl err \<Rightarrow>
          EvaluateScale_loop X app nsLabels ps
            (res\<lparr>re_Warnings := re_Warnings res
               @ [Sprintf ''policy %q is not being enforced: %s'' [AStr (policy_Name p), AErr err]]\<rparr>)
      | Inr ok \<Rightarrow>
          if \<not> ok then EvaluateScale_loop X app nsLabels ps res
          else EvaluateScale_loop X app nsLabels ps (record_errors res p (replicaViolations app p)))"

definition EvaluateScale ::
  "k8s \<Rightarrow> WebApp \<Rightarrow> WebAppPolicy list \<Rightarrow> string_map \<Rightarrow> go_error + Result" where
  "EvaluateScale X app policies nsLabels = Inr (EvaluateScale_loop X app nsLabels policies empty_Result)"

section \<open>What an evaluation reports\<close>

text \<open>
  A policy is in force for a namespace when its selector parses and matches; it enforces when its mode
  is neither Warn nor Audit (the schema defaults the mode to Enforce).
\<close>

definition in_force :: "k8s \<Rightarrow> string_map \<Rightarrow> WebAppPolicy \<Rightarrow> bool" where
  "in_force X nsLabels p \<longleftrightarrow> Matches X p nsLabels = Inr True"

definition enforces :: "WebAppPolicy \<Rightarrow> bool" where
  "enforces p \<longleftrightarrow> py_Enforcement (wp_Spec p) \<noteq> EnforcementWarn \<and>
     py_Enforcement (wp_Spec p) \<noteq> EnforcementAudit"

definition unparsable :: "k8s \<Rightarrow> string_map \<Rightarrow> WebAppPolicy \<Rightarrow> bool" where
  "unparsable X nsLabels p \<longleftrightarrow> (\<exists>e. Matches X p nsLabels = Inl e)"

text \<open>What one policy adds to each list of the result, for the rule set \<open>rules\<close>.\<close>

definition violation_part ::
  "k8s \<Rightarrow> string_map \<Rightarrow> (WebAppPolicy \<Rightarrow> error_list) \<Rightarrow> WebAppPolicy \<Rightarrow> error_list" where
  "violation_part X nsLabels rules p =
     (if in_force X nsLabels p \<and> enforces p then rules p else [])"

definition warning_part ::
  "k8s \<Rightarrow> string_map \<Rightarrow> (WebAppPolicy \<Rightarrow> error_list) \<Rightarrow> WebAppPolicy \<Rightarrow> msg list" where
  "warning_part X nsLabels rules p =
     (case Matches X p nsLabels of
        Inl err \<Rightarrow> [Sprintf ''policy %q is not being enforced: %s'' [AStr (policy_Name p), AErr err]]
      | Inr ok \<Rightarrow>
          if ok \<and> py_Enforcement (wp_Spec p) = EnforcementWarn
          then map (\<lambda>e. Sprintf ''policy %q: %s'' [AStr (policy_Name p), AFieldErr e]) (rules p)
          else [])"

definition audit_part ::
  "k8s \<Rightarrow> string_map \<Rightarrow> (WebAppPolicy \<Rightarrow> error_list) \<Rightarrow> WebAppPolicy \<Rightarrow> msg list" where
  "audit_part X nsLabels rules p =
     (if in_force X nsLabels p \<and> py_Enforcement (wp_Spec p) = EnforcementAudit
      then map (\<lambda>e. Sprintf ''policy %q: %s'' [AStr (policy_Name p), AFieldErr e]) (rules p)
      else [])"

lemmas part_defs = violation_part_def warning_part_def audit_part_def

lemma record_errors_parts:
  assumes "Matches X p nsLabels = Inr True"
  shows "record_errors res p (rules p) =
    \<lparr>re_Violations = re_Violations res @ violation_part X nsLabels rules p,
     re_Warnings = re_Warnings res @ warning_part X nsLabels rules p,
     re_Audited = re_Audited res @ audit_part X nsLabels rules p\<rparr>"
  using assms by (simp add: record_errors_def part_defs in_force_def enforces_def Let_def)

lemma parts_empty_iff:
  "violation_part X nsLabels rules p = [] \<and> warning_part X nsLabels rules p = []
     \<and> audit_part X nsLabels rules p = [] \<longleftrightarrow>
   \<not> unparsable X nsLabels p \<and> (in_force X nsLabels p \<longrightarrow> rules p = [])"
  by (auto simp: part_defs in_force_def enforces_def unparsable_def split: sum.splits if_splits)

locale policy_engine =
  fixes X :: k8s
    and nsLabels :: string_map
    and rules :: "WebApp \<Rightarrow> WebAppPolicy \<Rightarrow> error_list"
    and loop :: "WebApp \<Rightarrow> WebAppPolicy list \<Rightarrow> Result \<Rightarrow> Result"
  assumes loop_Nil: "loop app [] res = res"
    and loop_skip: "Matches X p nsLabels = Inr False \<Longrightarrow> loop app (p # ps) res = loop app ps res"
    and loop_error: "Matches X p nsLabels = Inl e \<Longrightarrow>
      loop app (p # ps) res = loop app ps
        (res\<lparr>re_Warnings := re_Warnings res
           @ [Sprintf ''policy %q is not being enforced: %s'' [AStr (policy_Name p), AErr e]]\<rparr>)"
    and loop_match: "Matches X p nsLabels = Inr True \<Longrightarrow>
      loop app (p # ps) res = loop app ps (record_errors res p (rules app p))"
begin

text \<open>The loop adds the parts of its policies, in order.\<close>

lemma loop_result:
  "loop app ps res =
    \<lparr>re_Violations = re_Violations res @ concat (map (violation_part X nsLabels (rules app)) ps),
     re_Warnings = re_Warnings res @ concat (map (warning_part X nsLabels (rules app)) ps),
     re_Audited = re_Audited res @ concat (map (audit_part X nsLabels (rules app)) ps)\<rparr>"
proof (induction ps arbitrary: res)
  case (Cons p ps)
  consider e where "Matches X p nsLabels = Inl e" | "Matches X p nsLabels = Inr True"
    | "Matches X p nsLabels = Inr False"
    by (cases "Matches X p nsLabels") auto
  then show ?case
    by cases (simp_all add: loop_error loop_match loop_skip record_errors_parts Cons.IH,
        simp_all add: part_defs in_force_def)
qed (simp add: loop_Nil)

lemma loop_append: "loop app (ps @ qs) res = loop app qs (loop app ps res)"
  by (simp add: loop_result)

lemma loop_accepts_iff:
  "re_Violations (loop app ps empty_Result) = [] \<longleftrightarrow>
     (\<forall>p \<in> set ps. in_force X nsLabels p \<longrightarrow> enforces p \<longrightarrow> rules app p = [])"
  by (auto simp: loop_result empty_Result_def violation_part_def)

text \<open>Adding policies, before or after, never removes a violation.\<close>

lemma loop_accumulates:
  "set (re_Violations (loop app qs empty_Result))
     \<subseteq> set (re_Violations (loop app (ps @ qs @ rs) empty_Result))"
  by (auto simp: loop_result empty_Result_def)

text \<open>Every policy that does not parse or is broken is heard about in one of the three lists.\<close>

lemma loop_silent_iff:
  "loop app ps empty_Result = empty_Result \<longleftrightarrow>
     (\<forall>p \<in> set ps. \<not> unparsable X nsLabels p \<and> (in_force X nsLabels p \<longrightarrow> rules app p = []))"
proof -
  have "loop app ps empty_Result = empty_Result \<longleftrightarrow>
    (\<forall>p \<in> set ps. violation_part X nsLabels (rules app) p = [] \<and> warning_part X nsLabels (rules app) p = []
       \<and> audit_part X nsLabels (rules app) p = [])"
    by (auto simp: loop_result empty_Result_def)
  then show ?thesis by (simp only: parts_empty_iff)
qed

end

interpretation full: policy_engine X nsLabels "violations X" "\<lambda>app. Evaluate_loop X app nsLabels"
  for X nsLabels
  by unfold_locales simp_all

interpretation scale: policy_engine X nsLabels replicaViolations "\<lambda>app. EvaluateScale_loop X app nsLabels"
  for X nsLabels
  by unfold_locales simp_all

section \<open>Compliance\<close>

text \<open>
  What a policy demands, stated over the WebApp instead of over error lists: the ceiling applies to the
  field that controls the scale, the service account the pods will run under is allowed, no annotation
  has a forbidden prefix, every scratch volume has a size within the cap, and every container sets the
  resources the policy names, within its bounds.
\<close>

definition scale_field :: "WebApp \<Rightarrow> int32 option" where
  "scale_field app =
     (case ws_Autoscaling (wa_Spec app) of
        Some a \<Rightarrow> (if as_Enabled a then as_MaxReplicas a else ws_Replicas (wa_Spec app))
      | None \<Rightarrow> ws_Replicas (wa_Spec app))"

definition replicas_comply :: "WebApp \<Rightarrow> WebAppPolicy \<Rightarrow> bool" where
  "replicas_comply app p \<longleftrightarrow>
     (\<forall>ceil n. py_MaxReplicas (wp_Spec p) = Some ceil \<longrightarrow> scale_field app = Some n \<longrightarrow> n \<le> ceil)"

definition scratch_complies :: "k8s \<Rightarrow> WebApp \<Rightarrow> WebAppPolicy \<Rightarrow> bool" where
  "scratch_complies X app p \<longleftrightarrow>
     (\<forall>cap. py_MaxScratchSize (wp_Spec p) = Some cap \<longrightarrow>
        (\<forall>c \<in> set (ws_Containers (wa_Spec app)). \<forall>v \<in> set (cn_ScratchVolumes c).
           \<exists>q. sw_SizeLimit v = Some q \<and> q_Cmp X q cap \<le> 0))"

definition container_complies :: "k8s \<Rightarrow> ResourcePolicy \<Rightarrow> Container \<Rightarrow> bool" where
  "container_complies X rp c \<longleftrightarrow>
     (rp_RequireRequests rp \<longrightarrow> \<not> map_empty (rr_Requests (cn_Resources c))) \<and>
     (rp_RequireLimits rp \<longrightarrow> \<not> map_empty (rr_Limits (cn_Resources c))) \<and>
     (\<forall>name flr. fmlookup (rp_MinRequests rp) name = Some flr \<longrightarrow>
        (\<exists>got. fmlookup (rr_Requests (cn_Resources c)) name = Some got \<and> q_Cmp X got flr \<ge> 0)) \<and>
     (\<forall>name ceil. fmlookup (rp_MaxLimits rp) name = Some ceil \<longrightarrow>
        (\<exists>got. fmlookup (rr_Limits (cn_Resources c)) name = Some got \<and> q_Cmp X got ceil \<le> 0))"

definition complies :: "k8s \<Rightarrow> WebApp \<Rightarrow> WebAppPolicy \<Rightarrow> bool" where
  "complies X app p \<longleftrightarrow>
     replicas_comply app p \<and>
     (py_AllowedServiceAccounts (wp_Spec p) = [] \<or>
        effective_sa app \<in> set (py_AllowedServiceAccounts (wp_Spec p))) \<and>
     (\<forall>pre \<in> set (py_ForbiddenPodAnnotationPrefixes (wp_Spec p)).
        \<forall>k v. fmlookup (ws_PodAnnotations (wa_Spec app)) k = Some v \<longrightarrow> \<not> HasPrefix k pre) \<and>
     scratch_complies X app p \<and>
     (\<forall>rp. py_Resources (wp_Spec p) = Some rp \<longrightarrow>
        (\<forall>c \<in> set (ws_Containers (wa_Spec app)). container_complies X rp c))"

lemma replicaViolations_Nil_iff: "replicaViolations app p = [] \<longleftrightarrow> replicas_comply app p"
  by (auto simp: replicaViolations_def replicas_comply_def scale_field_def split: option.split)

lemma annotationViolations_Nil_iff:
  "annotationViolations app p = [] \<longleftrightarrow>
     (\<forall>pre \<in> set (py_ForbiddenPodAnnotationPrefixes (wp_Spec p)).
        \<forall>k v. fmlookup (ws_PodAnnotations (wa_Spec app)) k = Some v \<longrightarrow> \<not> HasPrefix k pre)"
proof -
  let ?hit = "\<lambda>pre k. if HasPrefix k pre
    then [field_Invalid [Child ''spec'', Child ''podAnnotations'', Key k] (BadString k)
            (Sprintf ''policy %q forbids the prefix %q'' [AStr (policy_Name p), AStr pre])] else []"
  have "?hit pre k = [] \<longleftrightarrow> \<not> HasPrefix k pre" for pre k by simp
  then have "concat (map (?hit pre) (sorted_keys m)) = [] \<longleftrightarrow>
      (\<forall>k v. fmlookup m k = Some v \<longrightarrow> \<not> HasPrefix k pre)" for pre and m :: string_map
    by (simp only: concat_keys_Nil_iff)
  then show ?thesis unfolding annotationViolations_def concat_map_Nil_iff by simp
qed

lemma scratchSizeViolations_Nil_iff: "scratchSizeViolations X app p = [] \<longleftrightarrow> scratch_complies X app p"
proof -
  have "scratchViolation X p cap i j v = [] \<longleftrightarrow> (\<exists>q. sw_SizeLimit v = Some q \<and> q_Cmp X q cap \<le> 0)"
    for cap i j v
    by (auto simp: scratchViolation_def Let_def split: option.split)
  then show ?thesis
    by (simp add: scratchSizeViolations_def scratch_complies_def for_range_Nil_iff split: option.split)
qed

lemma containerResourceViolations_Nil_iff:
  "containerResourceViolations X p rp i c = [] \<longleftrightarrow> container_complies X rp c"
proof -
  let ?has = "\<lambda>m n P. \<exists>got. fmlookup m n = Some got \<and> P got"
  have "requestViolation X p rp cp c n = [] \<longleftrightarrow> (\<forall>flr. fmlookup (rp_MinRequests rp) n = Some flr \<longrightarrow>
      ?has (rr_Requests (cn_Resources c)) n (\<lambda>got. q_Cmp X got flr \<ge> 0))" for cp n
    by (auto simp: requestViolation_def split: option.split)
  then have req: "(\<forall>n \<in> set (sortedNames (rp_MinRequests rp)). requestViolation X p rp cp c n = []) \<longleftrightarrow>
    (\<forall>n flr. fmlookup (rp_MinRequests rp) n = Some flr \<longrightarrow>
      ?has (rr_Requests (cn_Resources c)) n (\<lambda>got. q_Cmp X got flr \<ge> 0))" for cp
    by (simp add: sortedNames_def all_keys_iff)
  have "limitViolation X p rp cp c n = [] \<longleftrightarrow> (\<forall>ceil. fmlookup (rp_MaxLimits rp) n = Some ceil \<longrightarrow>
      ?has (rr_Limits (cn_Resources c)) n (\<lambda>got. q_Cmp X got ceil \<le> 0))" for cp n
    by (auto simp: limitViolation_def split: option.split)
  then have lim: "(\<forall>n \<in> set (sortedNames (rp_MaxLimits rp)). limitViolation X p rp cp c n = []) \<longleftrightarrow>
    (\<forall>n ceil. fmlookup (rp_MaxLimits rp) n = Some ceil \<longrightarrow>
      ?has (rr_Limits (cn_Resources c)) n (\<lambda>got. q_Cmp X got ceil \<le> 0))" for cp
    by (simp add: sortedNames_def all_keys_iff)
  show ?thesis
    by (simp add: containerResourceViolations_def container_complies_def Let_def req lim)
qed

lemma resourceViolations_Nil_iff:
  "resourceViolations X app p = [] \<longleftrightarrow>
     (\<forall>rp. py_Resources (wp_Spec p) = Some rp \<longrightarrow>
        (\<forall>c \<in> set (ws_Containers (wa_Spec app)). container_complies X rp c))"
  by (simp add: resourceViolations_def containerResourceViolations_Nil_iff for_range_Nil_iff
      split: option.split)

lemma violations_complies: "violations X app p = [] \<longleftrightarrow> complies X app p"
  by (simp add: violations_def complies_def replicaViolations_Nil_iff annotationViolations_Nil_iff
      scratchSizeViolations_Nil_iff resourceViolations_Nil_iff serviceAccountViolations_def Let_def)

section \<open>Validation of a policy\<close>

definition selectorErrors :: "k8s \<Rightarrow> WebAppPolicy \<Rightarrow> error_list" where
  "selectorErrors X p =
     (case py_NamespaceSelector (wp_Spec p) of
        None \<Rightarrow> []
      | Some ns \<Rightarrow>
          (case LabelSelectorAsSelector X ns of
             Inl err \<Rightarrow> [field_Invalid [Child ''spec'', Child ''namespaceSelector''] (BadSelector ns)
                           (ErrorText err)]
           | Inr _ \<Rightarrow> []))"

definition boundErrors :: "k8s \<Rightarrow> ResourcePolicy \<Rightarrow> string \<Rightarrow> error_list" where
  "boundErrors X rp name =
     (case fmlookup (rp_MinRequests rp) name of
        None \<Rightarrow> []
      | Some flr \<Rightarrow>
          (case fmlookup (rp_MaxLimits rp) name of
             None \<Rightarrow> []
           | Some ceil \<Rightarrow>
               if q_Cmp X flr ceil > 0
               then [field_Invalid
                       [Child ''spec'', Child ''resources'', Child ''minRequests'', Key name]
                       (BadString (q_String X flr))
                       (Sprintf ''must not exceed maxLimits[%s] (%s); no container could satisfy both''
                          [AStr name, AStr (q_String X ceil)])]
               else []))"

definition Validate :: "k8s \<Rightarrow> WebAppPolicy \<Rightarrow> error_list" where
  "Validate X p =
     selectorErrors X p
     @ for_range 0 (\<lambda>i sa.
         if TrimSpace sa = []
         then [field_Invalid [Child ''spec'', Child ''allowedServiceAccounts'', Index i] (BadString sa)
                 (Lit ''must not be empty'')]
         else []) (py_AllowedServiceAccounts (wp_Spec p))
     @ for_range 0 (\<lambda>i pre.
         if TrimSpace pre = []
         then [field_Invalid [Child ''spec'', Child ''forbiddenPodAnnotationPrefixes'', Index i]
                 (BadString pre) (Lit ''an empty prefix forbids every annotation'')]
         else []) (py_ForbiddenPodAnnotationPrefixes (wp_Spec p))
     @ (case py_Resources (wp_Spec p) of
          None \<Rightarrow> []
        | Some rp \<Rightarrow> concat (map (boundErrors X rp) (sortedNames (rp_MinRequests rp))))"

lemma boundErrors_Nil_iff:
  "concat (map (boundErrors X rp) (sortedNames (rp_MinRequests rp))) = [] \<longleftrightarrow>
     (\<forall>n flr ceil. fmlookup (rp_MinRequests rp) n = Some flr \<longrightarrow> fmlookup (rp_MaxLimits rp) n = Some ceil
        \<longrightarrow> q_Cmp X flr ceil \<le> 0)"
proof -
  have "boundErrors X rp n = [] \<longleftrightarrow> (\<forall>flr ceil. fmlookup (rp_MinRequests rp) n = Some flr \<longrightarrow>
      fmlookup (rp_MaxLimits rp) n = Some ceil \<longrightarrow> q_Cmp X flr ceil \<le> 0)" for n
    by (auto simp: boundErrors_def split: option.split)
  then show ?thesis
    by (simp add: sortedNames_def concat_keys_Nil_iff del: concat_eq_Nil_conv)
qed

lemma Validate_Nil_iff:
  "Validate X p = [] \<longleftrightarrow>
     (\<forall>ns. py_NamespaceSelector (wp_Spec p) = Some ns \<longrightarrow> (\<exists>sel. LabelSelectorAsSelector X ns = Inr sel)) \<and>
     (\<forall>sa \<in> set (py_AllowedServiceAccounts (wp_Spec p)). TrimSpace sa \<noteq> []) \<and>
     (\<forall>pre \<in> set (py_ForbiddenPodAnnotationPrefixes (wp_Spec p)). TrimSpace pre \<noteq> []) \<and>
     (\<forall>rp n flr ceil. py_Resources (wp_Spec p) = Some rp \<longrightarrow> fmlookup (rp_MinRequests rp) n = Some flr \<longrightarrow>
        fmlookup (rp_MaxLimits rp) n = Some ceil \<longrightarrow> q_Cmp X flr ceil \<le> 0)"
proof -
  have sel: "selectorErrors X p = [] \<longleftrightarrow>
    (\<forall>ns. py_NamespaceSelector (wp_Spec p) = Some ns \<longrightarrow> (\<exists>sel. LabelSelectorAsSelector X ns = Inr sel))"
    by (auto simp: selectorErrors_def split: option.splits sum.splits)
  have res: "(case py_Resources (wp_Spec p) of None \<Rightarrow> [] | Some rp \<Rightarrow>
        concat (map (boundErrors X rp) (sortedNames (rp_MinRequests rp)))) = [] \<longleftrightarrow>
    (\<forall>rp n flr ceil. py_Resources (wp_Spec p) = Some rp \<longrightarrow> fmlookup (rp_MinRequests rp) n = Some flr \<longrightarrow>
        fmlookup (rp_MaxLimits rp) n = Some ceil \<longrightarrow> q_Cmp X flr ceil \<le> 0)"
    by (simp add: boundErrors_Nil_iff del: concat_eq_Nil_conv split: option.split)
  show ?thesis
    unfolding Validate_def append_is_Nil_conv sel res by simp
qed

text \<open>Comparison of quantities, as far as the bounds need it.\<close>

lemma q_Cmp_laws:
  assumes "quantities_documented X"
  shows "q_Cmp X a a = 0"
    and "q_Cmp X a b \<ge> 0 \<Longrightarrow> q_Cmp X b c > 0 \<Longrightarrow> q_Cmp X a c > 0"
    and "q_Cmp X a b > 0 \<Longrightarrow> q_Cmp X b c \<ge> 0 \<Longrightarrow> q_Cmp X a c > 0"
  using assms by (auto simp: quantities_documented_def split: if_splits)

text \<open>
  A resource policy can be met when some container meets it whose requests stay within its limits, which
  the API server demands of every container.
\<close>

definition resources_satisfiable :: "k8s \<Rightarrow> ResourcePolicy \<Rightarrow> bool" where
  "resources_satisfiable X rp \<longleftrightarrow>
     (\<exists>c. container_complies X rp c \<and>
        (\<forall>n r l. fmlookup (rr_Requests (cn_Resources c)) n = Some r \<longrightarrow>
           fmlookup (rr_Limits (cn_Resources c)) n = Some l \<longrightarrow> q_Cmp X r l \<le> 0))"

lemma satisfiable_bounds:
  assumes X: "quantities_documented X" and sat: "resources_satisfiable X rp"
    and flr: "fmlookup (rp_MinRequests rp) n = Some flr"
    and ceil: "fmlookup (rp_MaxLimits rp) n = Some ceil"
  shows "q_Cmp X flr ceil \<le> 0"
proof (rule ccontr)
  assume "\<not> q_Cmp X flr ceil \<le> 0"
  from sat flr ceil obtain r l where "q_Cmp X r flr \<ge> 0" "q_Cmp X l ceil \<le> 0" "q_Cmp X r l \<le> 0"
    unfolding resources_satisfiable_def container_complies_def by blast
  with \<open>\<not> q_Cmp X flr ceil \<le> 0\<close> X show False
    by (auto simp: quantities_documented_def split: if_splits)
qed

lemma bounds_satisfiable:
  assumes X: "quantities_documented X"
    and ok: "\<And>n flr ceil. fmlookup (rp_MinRequests rp) n = Some flr \<Longrightarrow>
      fmlookup (rp_MaxLimits rp) n = Some ceil \<Longrightarrow> q_Cmp X flr ceil \<le> 0"
  shows "resources_satisfiable X rp"
proof -
  let ?any = "fmap_of_list [(ResourceCPU, Quantity [])]"
  define req where "req = (if rp_MinRequests rp \<noteq> fmempty then rp_MinRequests rp
    else if rp_MaxLimits rp \<noteq> fmempty then rp_MaxLimits rp else ?any)"
  define lim where "lim = (if rp_MaxLimits rp \<noteq> fmempty then rp_MaxLimits rp
    else if rp_MinRequests rp \<noteq> fmempty then rp_MinRequests rp else ?any)"
  fix c :: Container
  let ?c = "c\<lparr>cn_Resources := \<lparr>rr_Limits = lim, rr_Requests = req, rr_Claims = []\<rparr>\<rparr>"
  have "fmlookup ?any ResourceCPU \<noteq> fmlookup fmempty ResourceCPU"
    by (simp add: fmlookup_of_list)
  then have any: "?any \<noteq> fmempty" by metis
  have "req \<noteq> fmempty" "lim \<noteq> fmempty"
    using any by (auto simp: req_def lim_def)
  moreover have "rp_MinRequests rp = fmempty \<or> req = rp_MinRequests rp"
    "rp_MaxLimits rp = fmempty \<or> lim = rp_MaxLimits rp"
    by (auto simp: req_def lim_def)
  ultimately have "container_complies X rp ?c"
    using q_Cmp_laws(1) [OF X] by (auto simp: container_complies_def map_empty_def)
  moreover have "q_Cmp X r l \<le> 0" if "fmlookup req n = Some r" "fmlookup lim n = Some l" for n r l
    using that ok q_Cmp_laws(1) [OF X] by (auto simp: req_def lim_def split: if_splits)
  ultimately show ?thesis
    unfolding resources_satisfiable_def by (intro exI [of _ ?c]) auto
qed

lemma satisfiable_iff:
  "quantities_documented X \<Longrightarrow>
     resources_satisfiable X rp \<longleftrightarrow>
     concat (map (boundErrors X rp) (sortedNames (rp_MinRequests rp))) = []"
  unfolding boundErrors_Nil_iff using satisfiable_bounds bounds_satisfiable by blast

end
