(* ===== verification/Warp_Conditions.thy ===== *)
theory Warp_Conditions
  imports Warp_Deployment
begin

text \<open>
  The status conditions of a WebApp: \<^verbatim>\<open>internal/controller/conditions.go\<close>.

  The Go functions take a pointer to the WebApp and change its status; here each returns the WebApp it
  leaves behind. The list of conditions is written and read through the library's SetStatusCondition
  and FindStatusCondition, parameters of the model; what a theorem needs of them is the hypothesis
  \<open>conditions_documented\<close> of \<^theory_text>\<open>Warp_Api\<close>. A condition handed to SetStatusCondition has no
  LastTransitionTime: the library fills it in.
\<close>

definition ReasonReconcileFailed :: string where [simp]: "ReasonReconcileFailed = ''ReconcileFailed''"
definition ReasonRolloutStalled :: string where [simp]: "ReasonRolloutStalled = ''RolloutStalled''"
definition ReasonMinimumReplicas :: string where
  [simp]: "ReasonMinimumReplicas = ''MinimumReplicasAvailable''"
definition ReasonRollingOut :: string where [simp]: "ReasonRollingOut = ''RollingOut''"
definition ReasonAllReplicas :: string where [simp]: "ReasonAllReplicas = ''AllReplicasReady''"
definition ReasonNotReady :: string where [simp]: "ReasonNotReady = ''ReplicasNotReady''"
definition ReasonNoDeployment :: string where [simp]: "ReasonNoDeployment = ''DeploymentNotFound''"
definition ReasonReconciled :: string where [simp]: "ReasonReconciled = ''Reconciled''"
definition ReasonRolloutPending :: string where [simp]: "ReasonRolloutPending = ''RolloutPending''"
definition ReasonScaledToZero :: string where [simp]: "ReasonScaledToZero = ''ScaledToZero''"

definition SetCondition :: "k8s \<Rightarrow> string \<Rightarrow> string \<Rightarrow> string \<Rightarrow> msg \<Rightarrow> WebApp \<Rightarrow> WebApp" where
  "SetCondition X condType status reason m app =
     (let c = \<lparr>co_Type = condType, co_Status = status, co_Reason = reason, co_Message = m,
               co_ObservedGeneration = app_Generation app, co_LastTransitionTime = []\<rparr>
      in app\<lparr>wa_Status := (wa_Status app)
               \<lparr>wt_Conditions := SetStatusCondition X (wt_Conditions (wa_Status app)) c\<rparr>\<rparr>)"

definition DeploymentCondition :: "DeploymentObj \<Rightarrow> string \<Rightarrow> DeploymentConditionRec option" where
  "DeploymentCondition dep t = find (\<lambda>c. dc_Type c = t) (ds_Conditions (dp_Status dep))"

definition ReasonOr :: "string \<Rightarrow> string \<Rightarrow> string" where
  "ReasonOr reason fallback = (if reason = [] then fallback else reason)"

definition SetReady :: "k8s \<Rightarrow> WebApp \<Rightarrow> DeploymentObj \<Rightarrow> bool \<Rightarrow> WebApp" where
  "SetReady X app dep stalled =
     (let desired = (case de_Replicas (dp_Spec dep) of Some n \<Rightarrow> n | None \<Rightarrow> 1)
      in if stalled then
           SetCondition X ConditionReady ConditionFalse ReasonRolloutStalled
             (Lit ''rollout stalled; see Degraded condition'') app
         else if ds_ObservedGeneration (dp_Status dep) < om_Generation (dp_Meta dep) then
           SetCondition X ConditionReady ConditionFalse ReasonRolloutPending
             (Lit ''deployment has not yet observed the current template'') app
         else if desired = 0 then
           SetCondition X ConditionReady ConditionFalse ReasonScaledToZero
             (Lit ''scaled to zero replicas'') app
         else if ds_UpdatedReplicas (dp_Status dep) = desired
                 \<and> ds_ReadyReplicas (dp_Status dep) = desired then
           SetCondition X ConditionReady ConditionTrue ReasonAllReplicas
             (Lit ''all replicas are ready and running the current template'') app
         else
           SetCondition X ConditionReady ConditionFalse ReasonNotReady
             (Lit ''waiting for replicas to become ready'') app)"

definition rolloutStalled :: "DeploymentConditionRec option \<Rightarrow> bool" where
  "rolloutStalled prog =
     (case prog of None \<Rightarrow> False
      | Some c \<Rightarrow> dc_Status c = ConditionFalse \<and> dc_Reason c = ''ProgressDeadlineExceeded'')"

definition ApplyDeploymentConditions :: "k8s \<Rightarrow> WebApp \<Rightarrow> DeploymentObj \<Rightarrow> WebApp" where
  "ApplyDeploymentConditions X app dep =
     (let app1 = (case DeploymentCondition dep DeploymentAvailable of
            Some avail \<Rightarrow>
              SetCondition X ConditionAvailable (dc_Status avail)
                (ReasonOr (dc_Reason avail) ReasonMinimumReplicas) (Lit (dc_Message avail)) app
          | None \<Rightarrow>
              SetCondition X ConditionAvailable ConditionUnknown ReasonNoDeployment
                (Lit ''deployment has not reported availability yet'') app);
          prog = DeploymentCondition dep DeploymentProgressing;
          stalled = rolloutStalled prog;
          app2 = (case prog of
            Some p \<Rightarrow>
              SetCondition X ConditionProgressing (dc_Status p)
                (ReasonOr (dc_Reason p) ReasonRollingOut) (Lit (dc_Message p)) app1
          | None \<Rightarrow>
              SetCondition X ConditionProgressing ConditionUnknown ReasonNoDeployment
                (Lit ''deployment has not reported progress yet'') app1);
          app3 = (if stalled then
              SetCondition X ConditionDegraded ConditionTrue ReasonRolloutStalled
                (Lit (case prog of Some p \<Rightarrow> dc_Message p | None \<Rightarrow> [])) app2
            else
              SetCondition X ConditionDegraded ConditionFalse ReasonReconciled
                (Lit ''no degraded state detected'') app2)
      in SetReady X app3 dep stalled)"

definition ApplyNoDeploymentConditions :: "k8s \<Rightarrow> WebApp \<Rightarrow> WebApp" where
  "ApplyNoDeploymentConditions X app =
     (let m = Lit ''deployment has not been created yet'';
          app1 = SetCondition X ConditionAvailable ConditionUnknown ReasonNoDeployment m app;
          app2 = SetCondition X ConditionProgressing ConditionUnknown ReasonNoDeployment m app1;
          app3 = SetCondition X ConditionDegraded ConditionFalse ReasonReconciled
                   (Lit ''no degraded state detected'') app2
      in SetCondition X ConditionReady ConditionFalse ReasonNotReady m app3)"

fun fill_unknown :: "k8s \<Rightarrow> string list \<Rightarrow> WebApp \<Rightarrow> WebApp" where
  "fill_unknown X [] app = app"
| "fill_unknown X (t # ts) app =
     fill_unknown X ts
       (if FindStatusCondition X (wt_Conditions (wa_Status app)) t = None then
          SetCondition X t ConditionUnknown ReasonNoDeployment
            (Lit ''deployment has not been created yet'') app
        else app)"

definition ApplyReconcileFailure :: "k8s \<Rightarrow> WebApp \<Rightarrow> go_error \<Rightarrow> WebApp" where
  "ApplyReconcileFailure X app err =
     (let app1 = SetCondition X ConditionDegraded ConditionTrue ReasonReconcileFailed (ErrorText err) app;
          app2 = SetCondition X ConditionReady ConditionFalse ReasonReconcileFailed (ErrorText err) app1
      in fill_unknown X [ConditionAvailable, ConditionProgressing] app2)"

section \<open>What a condition says after a write\<close>

definition condition_of :: "k8s \<Rightarrow> WebApp \<Rightarrow> string \<Rightarrow> (string \<times> string \<times> msg \<times> int64) option" where
  "condition_of X app t =
     map_option (\<lambda>c. (co_Status c, co_Reason c, co_Message c, co_ObservedGeneration c))
       (FindStatusCondition X (wt_Conditions (wa_Status app)) t)"

lemma condition_of_SetCondition [simp]:
  assumes "conditions_documented X"
  shows "condition_of X (SetCondition X ty st re m app) t =
    (if t = ty then Some (st, re, m, app_Generation app) else condition_of X app t)"
proof (cases "t = ty")
  case True
  let ?c = "\<lparr>co_Type = ty, co_Status = st, co_Reason = re, co_Message = m,
    co_ObservedGeneration = app_Generation app, co_LastTransitionTime = []\<rparr>"
  obtain lt where "FindStatusCondition X (SetStatusCondition X (wt_Conditions (wa_Status app)) ?c) (co_Type ?c)
      = Some (?c\<lparr>co_LastTransitionTime := lt\<rparr>)"
    using assms unfolding conditions_documented_def by blast
  with True show ?thesis by (simp add: condition_of_def SetCondition_def Let_def)
next
  case False
  then show ?thesis
    using assms by (simp add: condition_of_def SetCondition_def Let_def conditions_documented_def)
qed

lemma SetCondition_frame [simp]:
  "wa_Meta (SetCondition X ty st re m app) = wa_Meta app"
  "wa_Spec (SetCondition X ty st re m app) = wa_Spec app"
  "(wa_Status (SetCondition X ty st re m app))\<lparr>wt_Conditions := cs\<rparr> = (wa_Status app)\<lparr>wt_Conditions := cs\<rparr>"
  by (simp_all add: SetCondition_def Let_def)

lemma condition_of_None:
  "condition_of X app t = None \<longleftrightarrow> FindStatusCondition X (wt_Conditions (wa_Status app)) t = None"
  by (simp add: condition_of_def)

lemma fill_unknown_frame [simp]:
  "wa_Meta (fill_unknown X ts app) = wa_Meta app"
  "wa_Spec (fill_unknown X ts app) = wa_Spec app"
  "(wa_Status (fill_unknown X ts app))\<lparr>wt_Conditions := cs\<rparr> = (wa_Status app)\<lparr>wt_Conditions := cs\<rparr>"
  by (induction ts arbitrary: app) simp_all

lemma condition_of_fill_unknown:
  assumes "conditions_documented X"
  shows "condition_of X (fill_unknown X ts app) t =
    (if condition_of X app t = None \<and> t \<in> set ts
     then Some (ConditionUnknown, ReasonNoDeployment,
                Lit ''deployment has not been created yet'', app_Generation app)
     else condition_of X app t)"
  using assms
  by (induction ts arbitrary: app) (auto simp: condition_of_None [symmetric] simp del: ReasonNoDeployment_def)

section \<open>The contract of the three writers\<close>

text \<open>
  The reconciler writes conditions through three functions. Each promises the same: the WebApp changes
  in its conditions only, and all four conditions are there afterwards.
\<close>

definition condition_types :: "string list" where
  "condition_types = [ConditionReady, ConditionAvailable, ConditionProgressing, ConditionDegraded]"

locale condition_writer =
  fixes X :: k8s
    and wr :: "WebApp \<Rightarrow> WebApp"
  assumes writes_meta: "wa_Meta (wr app) = wa_Meta app"
    and writes_spec: "wa_Spec (wr app) = wa_Spec app"
    and writes_status: "(wa_Status (wr app))\<lparr>wt_Conditions := cs\<rparr> = (wa_Status app)\<lparr>wt_Conditions := cs\<rparr>"
    and writes_all: "conditions_documented X \<Longrightarrow> t \<in> set condition_types \<Longrightarrow>
      condition_of X (wr app) t \<noteq> None"
begin

lemma written_status_fields:
  "wt_ObservedGeneration (wa_Status (wr app)) = wt_ObservedGeneration (wa_Status app)"
  "wt_Replicas (wa_Status (wr app)) = wt_Replicas (wa_Status app)"
  "wt_ReadyReplicas (wa_Status (wr app)) = wt_ReadyReplicas (wa_Status app)"
  "wt_AvailableReplicas (wa_Status (wr app)) = wt_AvailableReplicas (wa_Status app)"
  "wt_UpdatedReplicas (wa_Status (wr app)) = wt_UpdatedReplicas (wa_Status app)"
  "wt_Selector (wa_Status (wr app)) = wt_Selector (wa_Status app)"
  "wt_IngressURL (wa_Status (wr app)) = wt_IngressURL (wa_Status app)"
proof -
  have "f ((wa_Status (wr app))\<lparr>wt_Conditions := []\<rparr>) = f ((wa_Status app)\<lparr>wt_Conditions := []\<rparr>)"
    for f :: "WebAppStatus \<Rightarrow> 'b"
    by (simp add: writes_status)
  note field = this
  show "wt_ObservedGeneration (wa_Status (wr app)) = wt_ObservedGeneration (wa_Status app)"
    using field [of wt_ObservedGeneration] by simp
  show "wt_Replicas (wa_Status (wr app)) = wt_Replicas (wa_Status app)"
    using field [of wt_Replicas] by simp
  show "wt_ReadyReplicas (wa_Status (wr app)) = wt_ReadyReplicas (wa_Status app)"
    using field [of wt_ReadyReplicas] by simp
  show "wt_AvailableReplicas (wa_Status (wr app)) = wt_AvailableReplicas (wa_Status app)"
    using field [of wt_AvailableReplicas] by simp
  show "wt_UpdatedReplicas (wa_Status (wr app)) = wt_UpdatedReplicas (wa_Status app)"
    using field [of wt_UpdatedReplicas] by simp
  show "wt_Selector (wa_Status (wr app)) = wt_Selector (wa_Status app)"
    using field [of wt_Selector] by simp
  show "wt_IngressURL (wa_Status (wr app)) = wt_IngressURL (wa_Status app)"
    using field [of wt_IngressURL] by simp
qed

lemma written_condition:
  "conditions_documented X \<Longrightarrow> t \<in> set condition_types \<Longrightarrow>
     \<exists>c. FindStatusCondition X (wt_Conditions (wa_Status (wr app))) t = Some c"
  using writes_all [of t app] by (auto simp: condition_of_None)

end

text \<open>The replica count a Deployment stands for: an absent count is 1.\<close>

definition fully_rolled_out :: "DeploymentObj \<Rightarrow> bool" where
  "fully_rolled_out dep \<longleftrightarrow>
     (let n = (case de_Replicas (dp_Spec dep) of Some n \<Rightarrow> n | None \<Rightarrow> 1)
      in n \<noteq> 0 \<and> ds_UpdatedReplicas (dp_Status dep) = n \<and> ds_ReadyReplicas (dp_Status dep) = n \<and>
         om_Generation (dp_Meta dep) \<le> ds_ObservedGeneration (dp_Status dep))"

lemma SetReady_writes:
  "\<exists>re m. SetReady X app dep stalled = SetCondition X ConditionReady
     (if \<not> stalled \<and> fully_rolled_out dep then ConditionTrue else ConditionFalse) re m app"
  unfolding SetReady_def fully_rolled_out_def Let_def
  by (cases stalled; cases "de_Replicas (dp_Spec dep)") (auto simp: not_less simp del: ConditionReady_def)

text \<open>A report on a Deployment is one write per condition, in this order.\<close>

lemma ApplyDeploymentConditions_writes:
  obtains st1 re1 m1 st2 re2 m2 re3 m3 re4 m4
  where "ApplyDeploymentConditions X app dep =
    SetCondition X ConditionReady
      (if \<not> rolloutStalled (DeploymentCondition dep DeploymentProgressing) \<and> fully_rolled_out dep
       then ConditionTrue else ConditionFalse) re4 m4
    (SetCondition X ConditionDegraded
      (if rolloutStalled (DeploymentCondition dep DeploymentProgressing)
       then ConditionTrue else ConditionFalse) re3 m3
    (SetCondition X ConditionProgressing st2 re2 m2
    (SetCondition X ConditionAvailable st1 re1 m1 app)))"
proof -
  let ?stalled = "rolloutStalled (DeploymentCondition dep DeploymentProgressing)"
  define app1 where "app1 = (case DeploymentCondition dep DeploymentAvailable of
      Some avail \<Rightarrow> SetCondition X ConditionAvailable (dc_Status avail)
        (ReasonOr (dc_Reason avail) ReasonMinimumReplicas) (Lit (dc_Message avail)) app
    | None \<Rightarrow> SetCondition X ConditionAvailable ConditionUnknown ReasonNoDeployment
        (Lit ''deployment has not reported availability yet'') app)"
  define app2 where "app2 = (case DeploymentCondition dep DeploymentProgressing of
      Some p \<Rightarrow> SetCondition X ConditionProgressing (dc_Status p)
        (ReasonOr (dc_Reason p) ReasonRollingOut) (Lit (dc_Message p)) app1
    | None \<Rightarrow> SetCondition X ConditionProgressing ConditionUnknown ReasonNoDeployment
        (Lit ''deployment has not reported progress yet'') app1)"
  obtain st1 re1 m1 where one: "app1 = SetCondition X ConditionAvailable st1 re1 m1 app"
    unfolding app1_def by (cases "DeploymentCondition dep DeploymentAvailable") auto
  obtain st2 re2 m2 where two: "app2 = SetCondition X ConditionProgressing st2 re2 m2 app1"
    unfolding app2_def by (cases "DeploymentCondition dep DeploymentProgressing") auto
  define app3 where "app3 = (if ?stalled then
      SetCondition X ConditionDegraded ConditionTrue ReasonRolloutStalled
        (Lit (case DeploymentCondition dep DeploymentProgressing of Some p \<Rightarrow> dc_Message p | None \<Rightarrow> [])) app2
    else SetCondition X ConditionDegraded ConditionFalse ReasonReconciled
        (Lit ''no degraded state detected'') app2)"
  have three: "\<exists>re3 m3. app3 =
      SetCondition X ConditionDegraded (if ?stalled then ConditionTrue else ConditionFalse) re3 m3 app2"
    unfolding app3_def by (cases ?stalled) auto
  have "ApplyDeploymentConditions X app dep = SetReady X app3 dep ?stalled"
    unfolding ApplyDeploymentConditions_def Let_def app3_def app2_def app1_def ..
  with three one two SetReady_writes [of X app3 dep ?stalled] show thesis
    using that by metis
qed

interpretation deployed: condition_writer X "\<lambda>app. ApplyDeploymentConditions X app dep" for X dep
proof
  fix app cs t
  let ?w = "ApplyDeploymentConditions X app dep"
  show "wa_Meta ?w = wa_Meta app"
    by (rule ApplyDeploymentConditions_writes [of X app dep]) simp
  show "wa_Spec ?w = wa_Spec app"
    by (rule ApplyDeploymentConditions_writes [of X app dep]) simp
  show "(wa_Status ?w)\<lparr>wt_Conditions := cs\<rparr> = (wa_Status app)\<lparr>wt_Conditions := cs\<rparr>"
    by (rule ApplyDeploymentConditions_writes [of X app dep]) simp
  show "condition_of X ?w t \<noteq> None" if "conditions_documented X" "t \<in> set condition_types"
    by (rule ApplyDeploymentConditions_writes [of X app dep])
      (use that in \<open>auto simp: condition_types_def\<close>)
qed

interpretation undeployed: condition_writer X "ApplyNoDeploymentConditions X" for X
  by unfold_locales (auto simp: ApplyNoDeploymentConditions_def Let_def condition_types_def)

lemma failure_conditions:
  assumes "conditions_documented X"
  shows "condition_of X (ApplyReconcileFailure X app err) t =
    (if t = ConditionDegraded \<or> t = ConditionReady then
       Some (if t = ConditionDegraded then ConditionTrue else ConditionFalse,
             ReasonReconcileFailed, ErrorText err, app_Generation app)
     else if (t = ConditionAvailable \<or> t = ConditionProgressing) \<and> condition_of X app t = None
       then Some (ConditionUnknown, ReasonNoDeployment,
                  Lit ''deployment has not been created yet'', app_Generation app)
     else condition_of X app t)"
  by (simp add: ApplyReconcileFailure_def Let_def condition_of_fill_unknown assms
      del: fill_unknown.simps)

interpretation failed: condition_writer X "\<lambda>app. ApplyReconcileFailure X app err" for X err
proof
  fix app cs t
  show "wa_Meta (ApplyReconcileFailure X app err) = wa_Meta app"
    "wa_Spec (ApplyReconcileFailure X app err) = wa_Spec app"
    "(wa_Status (ApplyReconcileFailure X app err))\<lparr>wt_Conditions := cs\<rparr> = (wa_Status app)\<lparr>wt_Conditions := cs\<rparr>"
    by (simp_all add: ApplyReconcileFailure_def Let_def del: fill_unknown.simps)
  show "condition_of X (ApplyReconcileFailure X app err) t \<noteq> None"
    if "conditions_documented X" "t \<in> set condition_types"
    using that by (auto simp: failure_conditions condition_types_def)
qed

section \<open>When a WebApp is Ready\<close>

definition status_of :: "k8s \<Rightarrow> WebApp \<Rightarrow> string \<Rightarrow> string option" where
  "status_of X app t = map_option fst (condition_of X app t)"

lemma status_of_SetCondition [simp]:
  "conditions_documented X \<Longrightarrow>
     status_of X (SetCondition X ty st re m app) t = (if t = ty then Some st else status_of X app t)"
  by (simp add: status_of_def)

lemma deployment_status:
  assumes "conditions_documented X"
  shows "status_of X (ApplyDeploymentConditions X app dep) ConditionReady =
      Some (if \<not> rolloutStalled (DeploymentCondition dep DeploymentProgressing) \<and> fully_rolled_out dep
            then ConditionTrue else ConditionFalse)"
    and "status_of X (ApplyDeploymentConditions X app dep) ConditionDegraded =
      Some (if rolloutStalled (DeploymentCondition dep DeploymentProgressing)
            then ConditionTrue else ConditionFalse)"
  by (rule ApplyDeploymentConditions_writes [of X app dep]; simp add: assms)+

end
