(* ===== verification/Warp_Controller.thy ===== *)
theory Warp_Controller
  imports Warp_Effects Warp_Service Warp_Ingress Warp_HPA Warp_Policy Warp_Conditions
begin

text \<open>
  The reconciler: \<^verbatim>\<open>internal/controller/webapp_controller.go\<close> and \<^verbatim>\<open>apply.go\<close>, operation by operation,
  as computations over the effects of \<^theory_text>\<open>Warp_Effects\<close>. A Go function that returns an error
  returns a \<open>go_error option\<close> here, one that returns a value and an error a sum. Where Go changes the
  WebApp behind the pointer, the operation returns or passes on the changed record.
\<close>

section \<open>Errors that decide about the retry\<close>

definition terminal :: "string \<Rightarrow> arg list \<Rightarrow> go_error" where
  "terminal fmt as = TerminalError (Errorf fmt as)"

definition external :: "string \<Rightarrow> arg list \<Rightarrow> go_error" where
  "external fmt as = ExternalError (Errorf fmt as)"

text \<open>time.Minute, in nanoseconds.\<close>

definition externalRetry :: int where [simp]: "externalRetry = 60000000000"

text \<open>
  errors.As follows Unwrap, so it looks through the \<open>%w\<close> arguments of fmt.Errorf. Neither wrapper has
  an Unwrap method: they embed the interface \<open>error\<close>, whose only method is Error.
\<close>

fun As_terminal :: "go_error \<Rightarrow> bool" and As_terminal_args :: "arg list \<Rightarrow> bool" where
  "As_terminal (TerminalError e) = True"
| "As_terminal (Errorf f as) = As_terminal_args as"
| "As_terminal _ = False"
| "As_terminal_args [] = False"
| "As_terminal_args (AWrap e # as) = (As_terminal e \<or> As_terminal_args as)"
| "As_terminal_args (_ # as) = As_terminal_args as"

fun As_external :: "go_error \<Rightarrow> bool" and As_external_args :: "arg list \<Rightarrow> bool" where
  "As_external (ExternalError e) = True"
| "As_external (Errorf f as) = As_external_args as"
| "As_external _ = False"
| "As_external_args [] = False"
| "As_external_args (AWrap e # as) = (As_external e \<or> As_external_args as)"
| "As_external_args (_ # as) = As_external_args as"

section \<open>The reconciler\<close>

record WebAppReconciler =
  rc_APIReader :: "source option"

definition reader :: "WebAppReconciler \<Rightarrow> source" where
  "reader r = (case rc_APIReader r of Some s \<Rightarrow> s | None \<Rightarrow> CachedClient)"

text \<open>ctrl.Result, of which the controller uses RequeueAfter only.\<close>

record reconcile_result =
  ct_RequeueAfter :: int

definition no_requeue :: reconcile_result where "no_requeue = \<lparr>ct_RequeueAfter = 0\<rparr>"

definition FieldOwner :: string where [simp]: "FieldOwner = ''webapp-operator''"

definition ObjectKeyFromObject :: "WebApp \<Rightarrow> object_key" where
  "ObjectKeyFromObject app = (app_Namespace app, app_Name app)"

fun toApplyConfig :: "k8s \<Rightarrow> object \<Rightarrow> go_error + object" where
  "toApplyConfig X (ODeployment d) = map_sum id ODeployment (deployment_codec X d)"
| "toApplyConfig X (OService s) = map_sum id OService (service_codec X s)"
| "toApplyConfig X (OIngress i) = map_sum id OIngress (ingress_codec X i)"
| "toApplyConfig X (OHPA h) = map_sum id OHPA (hpa_codec X h)"

definition apply_config :: "server \<Rightarrow> object \<Rightarrow> go_error option run" where
  "apply_config S ac = client_Apply S ac FieldOwner True"

section \<open>Adoption, deletion, replica hold\<close>

text \<open>What the verb \<open>%T\<close> prints for a pointer to an object of the kind.\<close>

fun type_name :: "kind \<Rightarrow> string" where
  "type_name KDeployment = ''*v1.Deployment''"
| "type_name KService = ''*v1.Service''"
| "type_name KIngress = ''*v1.Ingress''"
| "type_name KHPA = ''*v2.HorizontalPodAutoscaler''"

definition assertAdoptable ::
  "k8s \<Rightarrow> server \<Rightarrow> WebAppReconciler \<Rightarrow> WebApp \<Rightarrow> kind \<Rightarrow> string \<Rightarrow> go_error option run" where
  "assertAdoptable X S r app kd kind_text =
     do {
       reply \<leftarrow> client_Get S (reader r) kd (ObjectKeyFromObject app);
       return (case reply of
         Inl err \<Rightarrow>
           if IsNotFound err then None
           else Some (Errorf ''get %s: %w'' [AStr kind_text, AWrap err])
       | Inr obj \<Rightarrow>
           if \<not> IsControlledBy X (meta_of obj) (wa_Meta app) then
             Some (external ''%s %q already exists and is not controlled by this WebApp''
                     [AStr kind_text, AStr (app_Name app)])
           else None)
     }"

definition deleteOwned :: "k8s \<Rightarrow> server \<Rightarrow> WebApp \<Rightarrow> kind \<Rightarrow> go_error option run" where
  "deleteOwned X S app kd =
     do {
       reply \<leftarrow> client_Get S CachedClient kd (ObjectKeyFromObject app);
       (case reply of
         Inl err \<Rightarrow>
           if IsNotFound err then return None
           else return (Some (Errorf ''get %T: %w'' [AStr (type_name kd), AWrap err]))
       | Inr obj \<Rightarrow>
           if \<not> IsControlledBy X (meta_of obj) (wa_Meta app) then return None
           else do {
             deleted \<leftarrow> client_Delete S obj;
             return (case deleted of
               Some err \<Rightarrow>
                 if \<not> IsNotFound err then Some (Errorf ''delete %T: %w'' [AStr (type_name kd), AWrap err])
                 else None
             | None \<Rightarrow> None)
           })
     }"

definition owns_replicas :: "k8s \<Rightarrow> string \<Rightarrow> bool" where
  "owns_replicas X raw =
     (case json_Unmarshal X raw of
        None \<Rightarrow> False
      | Some obj \<Rightarrow>
          (case fmlookup obj ''f:spec'' of
             Some (JObject spec) \<Rightarrow> fmlookup spec ''f:replicas'' \<noteq> None
           | _ \<Rightarrow> False))"

fun ReplicasOwnedByOther_loop :: "k8s \<Rightarrow> ManagedFieldsEntry list \<Rightarrow> bool" where
  "ReplicasOwnedByOther_loop X [] = False"
| "ReplicasOwnedByOther_loop X (e # es) =
     (if mf_Manager e = FieldOwner then ReplicasOwnedByOther_loop X es
      else (case mf_FieldsV1 e of
        None \<Rightarrow> ReplicasOwnedByOther_loop X es
      | Some raw \<Rightarrow> if owns_replicas X raw then True else ReplicasOwnedByOther_loop X es))"

definition ReplicasOwnedByOther :: "k8s \<Rightarrow> DeploymentObj \<Rightarrow> bool" where
  "ReplicasOwnedByOther X dep = ReplicasOwnedByOther_loop X (om_ManagedFields (dp_Meta dep))"

definition replicaHold :: "k8s \<Rightarrow> server \<Rightarrow> WebApp \<Rightarrow> (go_error + int32 option) run" where
  "replicaHold X S app =
     do {
       reply \<leftarrow> client_GetDeployment S CachedClient (ObjectKeyFromObject app);
       return (case reply of
         Inl err \<Rightarrow>
           if IsNotFound err then Inr None else Inl (Errorf ''get deployment: %w'' [AWrap err])
       | Inr dep \<Rightarrow>
           if ReplicasOwnedByOther X dep then Inr None else Inr (de_Replicas (dp_Spec dep)))
     }"

section \<open>The replica cap\<close>

fun log_all :: "string \<Rightarrow> msg list \<Rightarrow> unit run" where
  "log_all m [] = return ()"
| "log_all m (w # ws) = do { tell (LogInfo m w); log_all m ws }"

definition scale_verdict :: "WebApp \<Rightarrow> Result \<Rightarrow> go_error option run" where
  "scale_verdict app res =
     do {
       log_all ''webapppolicy warning'' (re_Warnings res);
       log_all ''webapppolicy audit'' (re_Audited res);
       if re_Violations res \<noteq> [] then
         do {
           tell (RecordEvent app EventTypeWarning ''PolicyViolation''
                   (ErrorText (Aggregate (re_Violations res))));
           return (Some (ExternalError (Errorf ''webapppolicy: %w''
                     [AWrap (Aggregate (re_Violations res))])))
         }
       else return None
     }"

definition enforceScalePolicy ::
  "k8s \<Rightarrow> server \<Rightarrow> WebAppReconciler \<Rightarrow> WebApp \<Rightarrow> go_error option run" where
  "enforceScalePolicy X S r app =
     do {
       listed \<leftarrow> client_ListPolicies S (reader r);
       (case listed of
         Inl err \<Rightarrow> return (Some (Errorf ''list webapppolicies: %w'' [AWrap err]))
       | Inr policies \<Rightarrow>
           if policies = [] then return None
           else do {
             ns \<leftarrow> client_GetNamespace S (reader r) (app_Namespace app);
             (case ns of
               Inl err \<Rightarrow>
                 return (Some (Errorf ''get namespace %q: %w'' [AStr (app_Namespace app), AWrap err]))
             | Inr nsLabels \<Rightarrow>
                 (case EvaluateScale X app policies nsLabels of
                   Inl err \<Rightarrow> return (Some err)
                 | Inr res \<Rightarrow> scale_verdict app res))
           })
     }"

section \<open>Applying the owned objects\<close>

definition syncIngress ::
  "k8s \<Rightarrow> server \<Rightarrow> WebAppReconciler \<Rightarrow> WebApp \<Rightarrow> go_error option run" where
  "syncIngress X S r app =
     (if \<not> WantsIngress app then deleteOwned X S app KIngress
      else (case Ingress app of
        Inl err \<Rightarrow>
          do {
            tell (RecordEvent app EventTypeWarning ''IngressBuildFailed'' (ErrorText err));
            return (Some (TerminalError (Errorf ''build ingress: %w'' [AWrap err])))
          }
      | Inr ing \<Rightarrow>
          (case toApplyConfig X (OIngress ing) of
            Inl err \<Rightarrow> return (Some err)
          | Inr ac \<Rightarrow>
              do {
                adoptable \<leftarrow> assertAdoptable X S r app KIngress ''ingress'';
                (case adoptable of
                  Some err \<Rightarrow> return (Some err)
                | None \<Rightarrow>
                    do {
                      applied \<leftarrow> apply_config S ac;
                      (case applied of
                        Some err \<Rightarrow>
                          do {
                            tell (RecordEvent app EventTypeWarning ''IngressApplyFailed'' (ErrorText err));
                            return (Some (Errorf ''apply ingress: %w'' [AWrap err]))
                          }
                      | None \<Rightarrow> return None)
                    })
              })))"

definition syncHPA ::
  "k8s \<Rightarrow> server \<Rightarrow> WebAppReconciler \<Rightarrow> WebApp \<Rightarrow> go_error option run" where
  "syncHPA X S r app =
     (if \<not> WantsHPA app then deleteOwned X S app KHPA
      else (case HPA app of
        HPA_panic \<Rightarrow> do { tell Panicked; return (Some (LibError ''nil pointer dereference'')) }
      | HPA_error err \<Rightarrow>
          do {
            tell (RecordEvent app EventTypeWarning ''HPABuildFailed'' (ErrorText err));
            return (Some (TerminalError (Errorf ''build hpa: %w'' [AWrap err])))
          }
      | HPA_ok hpa \<Rightarrow>
          (case toApplyConfig X (OHPA hpa) of
            Inl err \<Rightarrow> return (Some err)
          | Inr ac \<Rightarrow>
              do {
                adoptable \<leftarrow> assertAdoptable X S r app KHPA ''hpa'';
                (case adoptable of
                  Some err \<Rightarrow> return (Some err)
                | None \<Rightarrow>
                    do {
                      applied \<leftarrow> apply_config S ac;
                      return (case applied of
                        Some err \<Rightarrow> Some (Errorf ''apply hpa: %w'' [AWrap err])
                      | None \<Rightarrow> None)
                    })
              })))"

text \<open>
  \<^verbatim>\<open>sync\<close>, in three stages: what is built and checked before anything is applied, the two objects every
  WebApp has, and the two it may have. The first stage returns the two apply configurations.
\<close>

definition sync_replicas ::
  "k8s \<Rightarrow> server \<Rightarrow> WebApp \<Rightarrow> DeploymentObj \<Rightarrow> (go_error + DeploymentObj) run" where
  "sync_replicas X S app depAC =
     (if WantsHPA app then
        do {
          hold \<leftarrow> replicaHold X S app;
          return (case hold of
            Inl err \<Rightarrow> Inl err
          | Inr n \<Rightarrow> Inr (depAC\<lparr>dp_Spec := (dp_Spec depAC)\<lparr>de_Replicas := n\<rparr>\<rparr>))
        }
      else return (Inr depAC))"

definition sync_prepare ::
  "k8s \<Rightarrow> server \<Rightarrow> WebAppReconciler \<Rightarrow> WebApp \<Rightarrow> (go_error + DeploymentObj \<times> ServiceObj) run" where
  "sync_prepare X S r app =
     do {
       enforced \<leftarrow> enforceScalePolicy X S r app;
       (case enforced of
         Some err \<Rightarrow> return (Inl err)
       | None \<Rightarrow>
           if sv_Ports (Service app) = [] then
             return (Inl (terminal ''no container ports declared; the generated Service would be rejected'' []))
           else (case deployment_codec X (Deployment app) of
             Inl err \<Rightarrow> return (Inl err)
           | Inr depAC0 \<Rightarrow>
               do {
                 held \<leftarrow> sync_replicas X S app depAC0;
                 (case held of
                   Inl err \<Rightarrow> return (Inl err)
                 | Inr depAC \<Rightarrow>
                     (case service_codec X (Service app) of
                       Inl err \<Rightarrow> return (Inl err)
                     | Inr svcAC \<Rightarrow>
                         do {
                           dep_ok \<leftarrow> assertAdoptable X S r app KDeployment ''deployment'';
                           (case dep_ok of
                             Some err \<Rightarrow> return (Inl err)
                           | None \<Rightarrow>
                               do {
                                 svc_ok \<leftarrow> assertAdoptable X S r app KService ''service'';
                                 return (case svc_ok of
                                   Some err \<Rightarrow> Inl err
                                 | None \<Rightarrow> Inr (depAC, svcAC))
                               })
                         }))
               }))
     }"

definition sync ::
  "k8s \<Rightarrow> server \<Rightarrow> WebAppReconciler \<Rightarrow> WebApp \<Rightarrow> go_error option run" where
  "sync X S r app =
     do {
       prepared \<leftarrow> sync_prepare X S r app;
       (case prepared of
         Inl err \<Rightarrow> return (Some err)
       | Inr acs \<Rightarrow>
           do {
             dep_applied \<leftarrow> apply_config S (ODeployment (fst acs));
             (case dep_applied of
               Some err \<Rightarrow> return (Some (Errorf ''apply deployment: %w'' [AWrap err]))
             | None \<Rightarrow>
                 do {
                   svc_applied \<leftarrow> apply_config S (OService (snd acs));
                   (case svc_applied of
                     Some err \<Rightarrow> return (Some (Errorf ''apply service: %w'' [AWrap err]))
                   | None \<Rightarrow>
                       do {
                         ingress \<leftarrow> syncIngress X S r app;
                         (case ingress of
                           Some err \<Rightarrow> return (Some err)
                         | None \<Rightarrow> syncHPA X S r app)
                       })
                 })
           })
     }"

section \<open>Deletion\<close>

definition finalizer_kinds :: "kind list" where
  "finalizer_kinds = [KIngress, KHPA, KService, KDeployment]"

fun delete_all :: "k8s \<Rightarrow> server \<Rightarrow> WebApp \<Rightarrow> kind list \<Rightarrow> go_error option run" where
  "delete_all X S app [] = return None"
| "delete_all X S app (kd # kds) =
     do {
       deleted \<leftarrow> deleteOwned X S app kd;
       (case deleted of
         Some err \<Rightarrow> return (Some err)
       | None \<Rightarrow> delete_all X S app kds)
     }"

definition finalize :: "k8s \<Rightarrow> server \<Rightarrow> WebApp \<Rightarrow> go_error option run" where
  "finalize X S app =
     (if \<not> ContainsFinalizer X (wa_Meta app) Finalizer then return None
      else do {
        deleted \<leftarrow> delete_all X S app finalizer_kinds;
        (case deleted of
          Some err \<Rightarrow> return (Some err)
        | None \<Rightarrow>
            do {
              tell (RecordEvent app EventTypeNormal ''Deleted'' (Lit ''owned resources removed''));
              tell (Metric (MForget (app_Name app) (app_Namespace app)));
              updated \<leftarrow> client_Update S (app\<lparr>wa_Meta := RemoveFinalizer X (wa_Meta app) Finalizer\<rparr>);
              return (case updated of Inl err \<Rightarrow> Some err | Inr app' \<Rightarrow> None)
            })
      })"

section \<open>Status\<close>

definition published_status :: "k8s \<Rightarrow> WebApp \<Rightarrow> DeploymentObj option \<Rightarrow> WebApp" where
  "published_status X app dep =
     (let app1 = app\<lparr>wa_Status := (wa_Status app)
                       \<lparr>wt_IngressURL := IngressURL app,
                        wt_Selector := LabelSetString X (SelectorLabels app)\<rparr>\<rparr>
      in case dep of
           None \<Rightarrow> app1
         | Some d \<Rightarrow>
             app1\<lparr>wa_Status := (wa_Status app1)
                    \<lparr>wt_Replicas := ds_Replicas (dp_Status d),
                     wt_ReadyReplicas := ds_ReadyReplicas (dp_Status d),
                     wt_AvailableReplicas := ds_AvailableReplicas (dp_Status d),
                     wt_UpdatedReplicas := ds_UpdatedReplicas (dp_Status d)\<rparr>\<rparr>)"

fun publish_conditions :: "WebApp \<Rightarrow> Condition list \<Rightarrow> unit run" where
  "publish_conditions app [] = return ()"
| "publish_conditions app (c # cs) =
     do {
       tell (Metric (MSetCondition (app_Name app) (app_Namespace app) (co_Type c) (co_Status c)));
       publish_conditions app cs
     }"

definition record_scaled :: "WebApp \<Rightarrow> WebApp \<Rightarrow> DeploymentObj option \<Rightarrow> unit run" where
  "record_scaled app base dep =
     (case dep of
        None \<Rightarrow> return ()
      | Some d \<Rightarrow>
          if ds_Replicas (dp_Status d) \<noteq> wt_Replicas (wa_Status base) then
            tell (RecordEvent app EventTypeNormal ''Scaled''
              (Sprintf ''replicas %d -> %d''
                 [AInt (wt_Replicas (wa_Status base)), AInt (ds_Replicas (dp_Status d))]))
          else return ())"

definition updateStatus ::
  "k8s \<Rightarrow> server \<Rightarrow> WebApp \<Rightarrow> WebApp \<Rightarrow> DeploymentObj option \<Rightarrow> go_error option run" where
  "updateStatus X S app base dep =
     do {
       record_scaled app base dep;
       let app' = published_status X app dep;
       tell (Metric (MReplicas (app_Name app) (app_Namespace app) (wt_Replicas (wa_Status app'))));
       tell (Metric (MReadyReplicas (app_Name app) (app_Namespace app) (wt_ReadyReplicas (wa_Status app'))));
       publish_conditions app (wt_Conditions (wa_Status app'));
       client_PatchStatus S app' base
     }"

section \<open>Reconcile\<close>

definition ensure_finalizer :: "k8s \<Rightarrow> server \<Rightarrow> WebApp \<Rightarrow> (go_error + WebApp) run" where
  "ensure_finalizer X S app =
     (case AddFinalizer X (wa_Meta app) Finalizer of
        (m, added) \<Rightarrow>
          if added then client_Update S (app\<lparr>wa_Meta := m\<rparr>)
          else return (Inr (app\<lparr>wa_Meta := m\<rparr>)))"

definition reconcile_failed ::
  "k8s \<Rightarrow> server \<Rightarrow> WebApp \<Rightarrow> WebApp \<Rightarrow> go_error \<Rightarrow> (reconcile_result \<times> go_error option) run" where
  "reconcile_failed X S app base err =
     (let app1 = ApplyReconcileFailure X app err
      in do {
        tell (RecordEvent app1 EventTypeWarning ReasonReconcileFailed (ErrorText err));
        patched \<leftarrow> updateStatus X S app1 base None;
        return (case patched of
          Some serr \<Rightarrow>
            (no_requeue, Some (Errorf ''%w (status update also failed: %v)'' [AWrap err, AErr serr]))
        | None \<Rightarrow>
            if As_terminal err then (no_requeue, None)
            else if As_external err then (\<lparr>ct_RequeueAfter = externalRetry\<rparr>, None)
            else (no_requeue, Some err))
      })"

definition record_reconciled :: "WebApp \<Rightarrow> unit run" where
  "record_reconciled app =
     (if app_Generation app \<noteq> wt_ObservedGeneration (wa_Status app) then
        tell (RecordEvent app EventTypeNormal ''Reconciled''
                (Sprintf ''applied spec generation %d'' [AInt (app_Generation app)]))
      else return ())"

definition reconcile_report ::
  "k8s \<Rightarrow> server \<Rightarrow> WebApp \<Rightarrow> WebApp \<Rightarrow> DeploymentObj option \<Rightarrow> (reconcile_result \<times> go_error option) run"
where
  "reconcile_report X S app base dep =
     do {
       record_reconciled app;
       let app1 = app\<lparr>wa_Status := (wa_Status app)\<lparr>wt_ObservedGeneration := app_Generation app\<rparr>\<rparr>;
       let app2 = (case dep of
         Some d \<Rightarrow> ApplyDeploymentConditions X app1 d
       | None \<Rightarrow> ApplyNoDeploymentConditions X app1);
       patched \<leftarrow> updateStatus X S app2 base dep;
       return (no_requeue, patched)
     }"

definition reconcile ::
  "k8s \<Rightarrow> server \<Rightarrow> WebAppReconciler \<Rightarrow> object_key \<Rightarrow> (reconcile_result \<times> go_error option) run" where
  "reconcile X S r req =
     do {
       got \<leftarrow> client_GetApp S req;
       (case got of
         Inl err \<Rightarrow>
           if IsNotFound err then
             do { tell (Metric (MForget (snd req) (fst req))); return (no_requeue, None) }
           else return (no_requeue, Some err)
       | Inr base \<Rightarrow>
           if om_DeletionTimestamp (wa_Meta base) \<noteq> None then
             do { done \<leftarrow> finalize X S base; return (no_requeue, done) }
           else do {
             finalized \<leftarrow> ensure_finalizer X S base;
             (case finalized of
               Inl err \<Rightarrow> return (no_requeue, Some err)
             | Inr app \<Rightarrow>
                 do {
                   synced \<leftarrow> sync X S r app;
                   (case synced of
                     Some err \<Rightarrow> reconcile_failed X S app base err
                   | None \<Rightarrow>
                       do {
                         got_dep \<leftarrow> client_GetDeployment S CachedClient (ObjectKeyFromObject app);
                         (case got_dep of
                           Inl err \<Rightarrow>
                             if \<not> IsNotFound err then return (no_requeue, Some err)
                             else reconcile_report X S app base None
                         | Inr dep \<Rightarrow> reconcile_report X S app base (Some dep))
                       })
                 })
           })
     }"

definition Reconcile ::
  "k8s \<Rightarrow> server \<Rightarrow> WebAppReconciler \<Rightarrow> object_key \<Rightarrow> (reconcile_result \<times> go_error option) run" where
  "Reconcile X S r req =
     do {
       res \<leftarrow> reconcile X S r req;
       let outcome = (if snd res \<noteq> None then ResultError else ResultSuccess);
       tell (Metric (MReconcileTotal outcome));
       tell (Metric (MReconcileDuration outcome));
       return res
     }"

end
