(* ===== verification/Warp_Reconcile.thy ===== *)
theory Warp_Reconcile
  imports Warp_Controller
begin

text \<open>
  What a reconcile run may do, and after what: facts each operation establishes on the trace, and the
  rules that its writes keep.
\<close>

section \<open>Which effects an operation has\<close>

text \<open>Reads, events, log lines and metrics change none of the cluster's objects.\<close>

fun harmless :: "effect \<Rightarrow> bool" where
  "harmless (UpdateApp a r) = False"
| "harmless (ApplyObject obj owner force r) = False"
| "harmless (DeleteObject obj r) = False"
| "harmless (PatchStatus a b r) = False"
| "harmless Panicked = False"
| "harmless _ = True"

fun is_apply :: "effect \<Rightarrow> bool" where
  "is_apply (ApplyObject obj owner force r) = True"
| "is_apply _ = False"

fun is_delete :: "effect \<Rightarrow> bool" where
  "is_delete (DeleteObject obj r) = True"
| "is_delete _ = False"

fun is_update :: "effect \<Rightarrow> bool" where
  "is_update (UpdateApp a r) = True"
| "is_update _ = False"

fun is_patch :: "effect \<Rightarrow> bool" where
  "is_patch (PatchStatus a b r) = True"
| "is_patch _ = False"

lemma harmless_kinds:
  "harmless e \<Longrightarrow> \<not> is_apply e" "harmless e \<Longrightarrow> \<not> is_delete e" "harmless e \<Longrightarrow> \<not> is_update e"
  "harmless e \<Longrightarrow> \<not> is_patch e" "harmless e \<Longrightarrow> e \<noteq> Panicked"
  by (cases e; simp)+

lemma other_kinds:
  "is_delete e \<Longrightarrow> \<not> is_apply e" "is_update e \<Longrightarrow> \<not> is_apply e" "is_patch e \<Longrightarrow> \<not> is_apply e"
  "is_apply e \<Longrightarrow> \<not> is_delete e" "is_update e \<Longrightarrow> \<not> is_delete e" "is_patch e \<Longrightarrow> \<not> is_delete e"
  "is_apply e \<Longrightarrow> \<not> is_update e" "is_delete e \<Longrightarrow> \<not> is_update e" "is_patch e \<Longrightarrow> \<not> is_update e"
  by (cases e; simp)+

lemmas effect_kinds = harmless_kinds other_kinds

lemma emits_assertAdoptable: "emits (assertAdoptable X S r app kd t) harmless"
  unfolding assertAdoptable_def client_defs by (intro emits_bind) simp_all

lemma emits_replicaHold: "emits (replicaHold X S app) harmless"
  unfolding replicaHold_def client_defs by (intro emits_bind) simp_all

lemma emits_log_all: "emits (log_all m ws) harmless"
  by (induction ws) auto

lemma emits_scale_verdict: "emits (scale_verdict app res) harmless"
  unfolding scale_verdict_def by (auto intro!: emits_bind emits_log_all)

lemma emits_enforceScalePolicy: "emits (enforceScalePolicy X S r app) harmless"
  unfolding enforceScalePolicy_def client_defs
  by (auto intro!: emits_bind emits_scale_verdict split: sum.split)

lemma emits_sync_replicas: "emits (sync_replicas X S app d) harmless"
  unfolding sync_replicas_def by (auto intro!: emits_bind emits_replicaHold)

lemma emits_sync_prepare: "emits (sync_prepare X S r app) harmless"
  unfolding sync_prepare_def
  by (auto intro!: emits_bind emits_enforceScalePolicy emits_sync_replicas emits_assertAdoptable
      split: sum.split option.split)

lemma emits_deleteOwned: "emits (deleteOwned X S app kd) (\<lambda>e. harmless e \<or> is_delete e)"
  unfolding deleteOwned_def client_defs by (auto intro!: emits_bind split: sum.split)

lemma emits_syncIngress: "emits (syncIngress X S r app) (\<lambda>e. harmless e \<or> is_delete e \<or> is_apply e)"
  unfolding syncIngress_def apply_config_def client_defs
  by (auto intro!: emits_bind emits_mono [OF emits_assertAdoptable] emits_mono [OF emits_deleteOwned]
      split: sum.split option.split)

lemma emits_syncHPA: "emits (syncHPA X S r app) (\<lambda>e. harmless e \<or> is_delete e \<or> is_apply e)"
  unfolding syncHPA_def apply_config_def client_defs
  by (auto intro!: emits_bind emits_mono [OF emits_assertAdoptable] emits_mono [OF emits_deleteOwned]
      dest: HPA_guarded split: sum.split option.split hpa_result.split)

lemma emits_sync: "emits (sync X S r app) (\<lambda>e. harmless e \<or> is_delete e \<or> is_apply e)"
  unfolding sync_def apply_config_def client_Apply_def
  by (auto intro!: emits_bind emits_mono [OF emits_sync_prepare] emits_syncIngress emits_syncHPA
      split: sum.split option.split)

lemma emits_delete_all: "emits (delete_all X S app kds) (\<lambda>e. harmless e \<or> is_delete e)"
  by (induction kds) (auto intro!: emits_bind emits_deleteOwned split: option.split)

lemma emits_publish_conditions: "emits (publish_conditions app cs) harmless"
  by (induction cs) auto

lemma emits_updateStatus: "emits (updateStatus X S app base dep) (\<lambda>e. harmless e \<or> is_patch e)"
  unfolding updateStatus_def record_scaled_def client_defs
  by (auto intro!: emits_bind emits_mono [OF emits_publish_conditions] simp: Let_def split: option.split)

lemma emits_reconcile_failed: "emits (reconcile_failed X S app base err) (\<lambda>e. harmless e \<or> is_patch e)"
  unfolding reconcile_failed_def Let_def by (auto intro!: emits_bind emits_updateStatus)

lemma emits_reconcile_report: "emits (reconcile_report X S app base dep) (\<lambda>e. harmless e \<or> is_patch e)"
  unfolding reconcile_report_def record_reconciled_def Let_def by (auto intro!: emits_bind emits_updateStatus)

lemma emits_ensure_finalizer: "emits (ensure_finalizer X S app) is_update"
  unfolding ensure_finalizer_def client_defs by (auto split: prod.split)

lemma emits_finalize: "emits (finalize X S app) (\<lambda>e. harmless e \<or> is_delete e \<or> is_update e)"
  unfolding finalize_def client_defs
  by (auto intro!: emits_bind emits_mono [OF emits_delete_all] split: option.split)

section \<open>What a successful step has seen\<close>

text \<open>The object may be taken: a read of it found nothing, or one this WebApp controls.\<close>

definition adopted :: "k8s \<Rightarrow> source \<Rightarrow> WebApp \<Rightarrow> kind \<Rightarrow> trace \<Rightarrow> bool" where
  "adopted X src app kd tr \<longleftrightarrow>
     (\<exists>reply. GetObject src kd (ObjectKeyFromObject app) reply \<in> set tr \<and>
        (case reply of Inl err \<Rightarrow> IsNotFound err
         | Inr obj \<Rightarrow> IsControlledBy X (meta_of obj) (wa_Meta app)))"

text \<open>The replica cap was checked: no policy in force for the namespace forbids the scale.\<close>

definition scale_cleared :: "k8s \<Rightarrow> source \<Rightarrow> WebApp \<Rightarrow> trace \<Rightarrow> bool" where
  "scale_cleared X src app tr \<longleftrightarrow>
     (\<exists>ps. ListPolicies src (Inr ps) \<in> set tr \<and>
        (ps = [] \<or> (\<exists>ns. GetNamespace src (app_Namespace app) (Inr ns) \<in> set tr \<and>
           (\<forall>p \<in> set ps. in_force X ns p \<longrightarrow> enforces p \<longrightarrow> replicas_comply app p))))"

text \<open>The replica count that goes into the apply configuration when an HPA is wanted.\<close>

definition hold_seen :: "k8s \<Rightarrow> WebApp \<Rightarrow> int32 option \<Rightarrow> trace \<Rightarrow> bool" where
  "hold_seen X app h tr \<longleftrightarrow>
     (\<exists>err. GetObject CachedClient KDeployment (ObjectKeyFromObject app) (Inl err) \<in> set tr
        \<and> IsNotFound err \<and> h = None) \<or>
     (\<exists>d. GetObject CachedClient KDeployment (ObjectKeyFromObject app) (Inr (ODeployment d)) \<in> set tr
        \<and> h = (if ReplicasOwnedByOther X d then None else de_Replicas (dp_Spec d)))"

text \<open>
  What \<^verbatim>\<open>deleteOwned\<close> has seen when it succeeds: a cached read found nothing or an object that is not ours,
  or the deletion of the object it found was accepted or came too late.
\<close>

definition released :: "k8s \<Rightarrow> WebApp \<Rightarrow> kind \<Rightarrow> trace \<Rightarrow> bool" where
  "released X app kd tr \<longleftrightarrow>
     (\<exists>err. GetObject CachedClient kd (ObjectKeyFromObject app) (Inl err) \<in> set tr \<and> IsNotFound err) \<or>
     (\<exists>obj. GetObject CachedClient kd (ObjectKeyFromObject app) (Inr obj) \<in> set tr \<and>
        (\<not> IsControlledBy X (meta_of obj) (wa_Meta app) \<or>
         DeleteObject obj None \<in> set tr \<or>
         (\<exists>err. DeleteObject obj (Some err) \<in> set tr \<and> IsNotFound err)))"

lemma stable_facts [simp]:
  "stable (adopted X src app kd)" "stable (scale_cleared X src app)"
  "stable (hold_seen X app h)" "stable (released X app kd)"
  by (auto simp: stable_def adopted_def scale_cleared_def hold_seen_def released_def)

lemma get_typed_kind: "get_typed S tr src kd k = Inr obj \<Longrightarrow> kind_of obj = kd"
  by (cases kd) (auto simp: map_sum_def split: sum.splits)

lemma assertAdoptable_fact:
  "triple (\<lambda>_. True) (assertAdoptable X S r app kd t) (\<lambda>res tr. res = None \<longrightarrow> adopted X (reader r) app kd tr)"
  unfolding assertAdoptable_def client_Get_def
  by (rule triple_bind, rule triple_call [where Q = "\<lambda>reply tr.
        GetObject (reader r) kd (ObjectKeyFromObject app) reply \<in> set tr"])
    (auto simp: adopted_def split: sum.splits if_splits)

lemma log_all_frame: "stable F \<Longrightarrow> triple F (log_all m ws) (\<lambda>_. F)"
  by (rule emits_stable [OF emits_log_all])

lemma scale_verdict_fact:
  assumes "stable F"
  shows "triple F (scale_verdict app res) (\<lambda>x tr. F tr \<and> (x = None \<longrightarrow> re_Violations res = []))"
  unfolding scale_verdict_def
  by (rule triple_bind [OF log_all_frame [OF assms]], rule triple_bind [OF log_all_frame [OF assms]])
    (use assms in \<open>auto simp: triple_def stable_def\<close>)

lemma enforceScalePolicy_fact:
  "triple (\<lambda>_. True) (enforceScalePolicy X S r app) (\<lambda>res tr. res = None \<longrightarrow> scale_cleared X (reader r) app tr)"
  unfolding enforceScalePolicy_def client_defs
proof (rule triple_bind [OF triple_call [where Q = "\<lambda>l tr. ListPolicies (reader r) l \<in> set tr"]],
    simp, rule triple_sum, rule triple_return, simp, rule triple_if)
  fix listed :: "go_error + WebAppPolicy list" and ps
  assume ps: "listed = Inr ps"
  show "triple (\<lambda>tr. ListPolicies (reader r) listed \<in> set tr) (return None)
      (\<lambda>res tr. res = None \<longrightarrow> scale_cleared X (reader r) app tr)" if "ps = []"
    using that ps by (auto simp: scale_cleared_def)
  let ?F = "\<lambda>ns tr. ListPolicies (reader r) (Inr ps) \<in> set tr \<and> GetNamespace (reader r) (app_Namespace app) ns \<in> set tr"
  show "triple (\<lambda>tr. ListPolicies (reader r) listed \<in> set tr)
      (do {
         ns \<leftarrow> call (\<lambda>tr. srv_GetNamespace S tr (reader r) (app_Namespace app))
                 (GetNamespace (reader r) (app_Namespace app));
         (case ns of
           Inl err \<Rightarrow> return (Some (Errorf ''get namespace %q: %w'' [AStr (app_Namespace app), AWrap err]))
         | Inr nsLabels \<Rightarrow>
             (case EvaluateScale X app ps nsLabels of
               Inl err \<Rightarrow> return (Some err)
             | Inr res \<Rightarrow> scale_verdict app res))
       })
      (\<lambda>res tr. res = None \<longrightarrow> scale_cleared X (reader r) app tr)"
  proof (rule triple_bind [OF triple_call [where Q = ?F]], simp add: ps, rule triple_sum, rule triple_return, simp)
    fix reply :: "go_error + string_map" and ns
    assume ns: "reply = Inr ns"
    show "triple (?F reply)
        (case EvaluateScale X app ps ns of Inl err \<Rightarrow> return (Some err) | Inr res \<Rightarrow> scale_verdict app res)
        (\<lambda>res tr. res = None \<longrightarrow> scale_cleared X (reader r) app tr)"
      unfolding EvaluateScale_def sum.case
      by (rule triple_post, rule scale_verdict_fact, intro stable_conj stable_member)
        (auto simp: ns scale_cleared_def scale.loop_accepts_iff replicaViolations_Nil_iff)
  qed
qed

lemma replicaHold_fact:
  "triple (\<lambda>_. True) (replicaHold X S app) (\<lambda>res tr. \<forall>h. res = Inr h \<longrightarrow> hold_seen X app h tr)"
  unfolding replicaHold_def client_GetDeployment_def
  by (rule triple_bind, rule triple_call [where Q = "\<lambda>reply tr.
        GetObject CachedClient KDeployment (ObjectKeyFromObject app) (map_sum id ODeployment reply) \<in> set tr"])
    (auto simp: hold_seen_def split: sum.splits if_splits)

lemma deleteOwned_fact:
  "triple (\<lambda>_. True) (deleteOwned X S app kd) (\<lambda>res tr. res = None \<longrightarrow> released X app kd tr)"
  by (auto simp: triple_def deleteOwned_def client_defs released_def
      split: sum.splits option.splits if_splits)

section \<open>Every apply is justified\<close>

text \<open>
  The objects a WebApp stands for. With an HPA the replica count of the Deployment is not the WebApp's:
  it is what \<open>hold_seen\<close> allows.
\<close>

definition with_replicas :: "int32 option \<Rightarrow> DeploymentObj \<Rightarrow> DeploymentObj" where
  "with_replicas n d = d\<lparr>dp_Spec := (dp_Spec d)\<lparr>de_Replicas := n\<rparr>\<rparr>"

fun desired :: "k8s \<Rightarrow> WebApp \<Rightarrow> trace \<Rightarrow> object \<Rightarrow> bool" where
  "desired X app tr (ODeployment d) \<longleftrightarrow>
     (if WantsHPA app then \<exists>h. hold_seen X app h tr \<and> d = with_replicas h (Deployment app)
      else d = Deployment app)"
| "desired X app tr (OService s) \<longleftrightarrow> s = Service app"
| "desired X app tr (OIngress i) \<longleftrightarrow> WantsIngress app \<and> Ingress app = Inr i"
| "desired X app tr (OHPA h) \<longleftrightarrow> WantsHPA app \<and> HPA app = HPA_ok h"

lemma stable_desired [simp]: "stable (\<lambda>tr. desired X app tr obj)"
  using stable_facts(3) [of X app] by (cases obj) (auto simp: stable_def)

definition sync_allowed :: "k8s \<Rightarrow> source \<Rightarrow> WebApp \<Rightarrow> trace \<Rightarrow> bool" where
  "sync_allowed X src app tr \<longleftrightarrow> scale_cleared X src app tr \<and> sv_Ports (Service app) \<noteq> []"

definition apply_justified :: "k8s \<Rightarrow> source \<Rightarrow> WebApp \<Rightarrow> trace \<Rightarrow> object \<Rightarrow> bool" where
  "apply_justified X src app tr obj \<longleftrightarrow>
     sync_allowed X src app tr \<and> adopted X src app (kind_of obj) tr \<and> desired X app tr obj"

lemma stable_justified [simp]:
  "stable (sync_allowed X src app)" "stable (\<lambda>tr. apply_justified X src app tr obj)"
  unfolding sync_allowed_def apply_justified_def
  by (intro stable_conj stable_facts stable_desired stable_const)+

fun apply_ok :: "k8s \<Rightarrow> source \<Rightarrow> WebApp \<Rightarrow> trace \<Rightarrow> effect \<Rightarrow> bool" where
  "apply_ok X src app pre (ApplyObject obj owner force reply) \<longleftrightarrow>
     owner = FieldOwner \<and> force \<and> apply_justified X src app pre obj"
| "apply_ok X src app pre _ \<longleftrightarrow> True"

interpretation applying: effect_rule "apply_ok X src app" is_apply for X src app
proof
  fix e pre
  show "\<not> is_apply e \<Longrightarrow> apply_ok X src app pre e" by (cases e) simp_all
qed

lemma applying_harmless:
  assumes "emits m harmless" "triple F m G"
  shows "triple (\<lambda>tr. keeps (apply_ok X src app) tr \<and> F tr) m (\<lambda>x tr. keeps (apply_ok X src app) tr \<and> G x tr)"
  by (rule applying.quiet_facts [OF emits_mono [OF assms(1) harmless_kinds(1)] assms(2)])

lemma apply_config_justified:
  assumes "\<And>tr. F tr \<Longrightarrow> apply_justified X src app tr obj" "stable F"
  shows "triple (\<lambda>tr. keeps (apply_ok X src app) tr \<and> F tr) (apply_config S obj)
    (\<lambda>_ tr. keeps (apply_ok X src app) tr \<and> F tr)"
  unfolding apply_config_def client_Apply_def
  by (rule applying.loud_call) (simp_all add: assms)

lemma sync_replicas_fact:
  "triple (\<lambda>_. True) (sync_replicas X S app (Deployment app))
     (\<lambda>res tr. \<forall>d. res = Inr d \<longrightarrow> desired X app tr (ODeployment d))"
  unfolding sync_replicas_def
proof (rule triple_if)
  assume "WantsHPA app"
  then show "triple (\<lambda>_. True) (do {
      hold \<leftarrow> replicaHold X S app;
      return (case hold of Inl err \<Rightarrow> Inl err
        | Inr n \<Rightarrow> Inr ((Deployment app)\<lparr>dp_Spec := (dp_Spec (Deployment app))\<lparr>de_Replicas := n\<rparr>\<rparr>)) })
     (\<lambda>res tr. \<forall>d. res = Inr d \<longrightarrow> desired X app tr (ODeployment d))"
    by (intro triple_bind [OF replicaHold_fact]) (auto simp: with_replicas_def split: sum.splits)
qed auto

definition prepared :: "k8s \<Rightarrow> source \<Rightarrow> WebApp \<Rightarrow> DeploymentObj \<times> ServiceObj \<Rightarrow> trace \<Rightarrow> bool" where
  "prepared X src app acs tr \<longleftrightarrow>
     apply_justified X src app tr (ODeployment (fst acs)) \<and> apply_justified X src app tr (OService (snd acs))"

lemma stable_prepared [simp]: "stable (prepared X src app acs)"
  unfolding prepared_def by (intro stable_conj stable_justified)

lemma harmless_step:
  assumes "triple (\<lambda>_. True) m Q" "emits m C" "stable F"
  shows "triple F m (\<lambda>x tr. F tr \<and> Q x tr)"
  using triple_frame [OF assms] by (simp add: triple_def)

lemma sync_prepare_fact:
  assumes X: "codecs_faithful X"
  shows "triple (\<lambda>_. True) (sync_prepare X S r app)
    (\<lambda>res tr. \<forall>acs. res = Inr acs \<longrightarrow> prepared X (reader r) app acs tr)"
proof -
  have codecs: "deployment_codec X d = Inr d" "service_codec X s = Inr s" for d s
    using X by (simp_all add: codecs_faithful_def)
  let ?scale = "scale_cleared X (reader r) app"
  let ?dep = "\<lambda>d tr. ?scale tr \<and> desired X app tr (ODeployment d)"
  let ?adopt = "\<lambda>d tr. ?dep d tr \<and> adopted X (reader r) app KDeployment tr"
  have adopt_dep: "triple (?dep d) (assertAdoptable X S r app KDeployment t)
      (\<lambda>x tr. ?dep d tr \<and> (x = None \<longrightarrow> adopted X (reader r) app KDeployment tr))" for d t
    by (rule harmless_step [OF assertAdoptable_fact emits_assertAdoptable])
      (intro stable_conj; simp del: desired.simps)
  have adopt_svc: "triple (?adopt d) (assertAdoptable X S r app KService t)
      (\<lambda>x tr. ?adopt d tr \<and> (x = None \<longrightarrow> adopted X (reader r) app KService tr))" for d t
    by (rule harmless_step [OF assertAdoptable_fact emits_assertAdoptable])
      (intro stable_conj; simp del: desired.simps)
  have replicas: "triple ?scale (sync_replicas X S app (Deployment app))
      (\<lambda>x tr. ?scale tr \<and> (\<forall>d. x = Inr d \<longrightarrow> desired X app tr (ODeployment d)))"
    by (rule harmless_step [OF sync_replicas_fact emits_sync_replicas]) simp
  show ?thesis
    unfolding sync_prepare_def codecs sum.case
    apply (rule triple_bind [OF enforceScalePolicy_fact])
    apply (rule triple_option)
     apply (rule triple_if)
      apply (rule triple_return, simp)
     apply (rule triple_bind [OF triple_pre [OF replicas]], simp)
     apply (rule triple_sum)
      apply (rule triple_return, simp)
     apply (rule triple_bind [OF triple_pre [OF adopt_dep]], fastforce simp del: desired.simps)
     apply (rule triple_option)
      apply (rule triple_bind [OF triple_pre [OF adopt_svc]], fastforce simp del: desired.simps)
      apply (rule triple_return)
      apply (auto simp: prepared_def apply_justified_def sync_allowed_def split: option.splits)
    done
qed

end
