(* ===== verification/Warp_Webhook.thy ===== *)
theory Warp_Webhook
  imports Warp_Ingress Warp_HPA Warp_Policy
begin

text \<open>
  \<open>internal/webhook/v1alpha1\<close>: defaulting and validating admission of WebApps, and admission of
  WebAppPolicies. The validator's loops keep their seen-maps as explicit state; \<open>valid_spec\<close> states the
  same rules over the WebApp, and the lemmas relate the two.

  The validator only reads: its client is given by the replies to the one List and the one Get it may
  make. What it returns, and what it logs, is an \<open>admission\<close>.
\<close>

section \<open>Defaulting\<close>

definition default_strategy :: "StrategySpec option \<Rightarrow> StrategySpec option" where
  "default_strategy so =
     (let s = (case so of None \<Rightarrow> \<lparr>ss_Type = [], ss_RollingUpdate = None\<rparr> | Some s \<Rightarrow> s)
      in Some (if ss_Type s = [] then s\<lparr>ss_Type := RollingUpdateDeploymentStrategyType\<rparr> else s))"

definition default_autoscaling :: "AutoscalingSpec \<Rightarrow> AutoscalingSpec" where
  "default_autoscaling a =
     (if as_Enabled a
      then let a1 = (if as_MinReplicas a = None then a\<lparr>as_MinReplicas := Some 1\<rparr> else a)
           in if as_TargetCPU a1 = None \<and> as_TargetMemory a1 = None
              then a1\<lparr>as_TargetCPU := Some DefaultTargetCPU\<rparr> else a1
      else a)"

definition default_port :: "ContainerPort \<Rightarrow> ContainerPort" where
  "default_port p = (if cp_Protocol p = [] then p\<lparr>cp_Protocol := ProtocolTCP\<rparr> else p)"

definition default_container :: "Container \<Rightarrow> Container" where
  "default_container c = c\<lparr>cn_Ports := map default_port (cn_Ports c)\<rparr>"

definition default_spec :: "WebAppSpec \<Rightarrow> WebAppSpec" where
  "default_spec s =
     s\<lparr>ws_ServiceType := (if ws_ServiceType s = [] then ServiceTypeClusterIP else ws_ServiceType s),
       ws_Strategy := default_strategy (ws_Strategy s),
       ws_Autoscaling := map_option default_autoscaling (ws_Autoscaling s),
       ws_Containers := map default_container (ws_Containers s)\<rparr>"

definition Default :: "WebApp \<Rightarrow> WebApp" where
  "Default app = app\<lparr>wa_Spec := default_spec (wa_Spec app)\<rparr>"

section \<open>Validation of a WebApp\<close>

definition protocolOf :: "ContainerPort \<Rightarrow> string" where
  "protocolOf p = (if cp_Protocol p = [] then ProtocolTCP else cp_Protocol p)"

definition totalPorts :: "WebApp \<Rightarrow> nat" where
  "totalPorts app = fold (\<lambda>c n. n + length (cn_Ports c)) (ws_Containers (wa_Spec app)) 0"

definition missingUtilizationRequests :: "WebApp \<Rightarrow> AutoscalingSpec \<Rightarrow> error_list" where
  "missingUtilizationRequests app a =
     concat (map (\<lambda>name.
         for_range 0 (\<lambda>i c.
             if fmlookup (rr_Requests (cn_Resources c)) name = None
             then [field_Required
                     [Child ''spec'', Child ''containers'', Index i, Child ''resources'',
                      Child ''requests'', Key name]
                     (Sprintf ''required while autoscaling targets %s utilization, which is measured against requests''
                        [AStr name])]
             else [])
           (ws_Containers (wa_Spec app)))
       (TargetedResources a))"

text \<open>The maps of the container loop, and the errors so far.\<close>

record vstate =
  vs_errs :: error_list
  vs_containerNames :: "string \<Rightarrow> bool"
  vs_portOwners :: "string \<rightharpoonup> string"
  vs_numberOwners :: "string \<rightharpoonup> string"

definition init_vstate :: vstate where
  "init_vstate = \<lparr>vs_errs = [], vs_containerNames = (\<lambda>_. False),
     vs_portOwners = Map.empty, vs_numberOwners = Map.empty\<rparr>"

definition number_key :: "ContainerPort \<Rightarrow> string" where
  "number_key p = int_dec (cp_ContainerPort p) @ ''/'' @ protocolOf p"

definition add_errs :: "error_list \<Rightarrow> vstate \<Rightarrow> vstate" where
  "add_errs es st = st\<lparr>vs_errs := vs_errs st @ es\<rparr>"

definition validate_port :: "k8s \<Rightarrow> field_path \<Rightarrow> string \<Rightarrow> ContainerPort \<Rightarrow> vstate \<Rightarrow> vstate" where
  "validate_port X pp cname port st =
     (let st1 = add_errs
            (if cp_ContainerPort port < 1 \<or> cp_ContainerPort port > 65535
             then [field_Invalid (pp @ [Child ''containerPort'']) (BadInt (cp_ContainerPort port))
                     (Lit ''must be between 1 and 65535'')]
             else []) st;
          key = number_key port;
          st2 = add_errs
            (case vs_numberOwners st1 key of
               Some owner \<Rightarrow>
                 [field_Duplicate (pp @ [Child ''containerPort''])
                    (Sprintf ''%s (already bound by container %q; containers share one network namespace)''
                       [AStr key, AStr owner])]
             | None \<Rightarrow> []) st1;
          st3 = st2\<lparr>vs_numberOwners := (vs_numberOwners st2)(key \<mapsto> cname)\<rparr>
      in if cp_Name port = [] then st3
         else let st4 = add_errs
                    (map (\<lambda>m. field_Invalid (pp @ [Child ''name'']) (BadString (cp_Name port)) (Lit m))
                       (IsValidPortName X (cp_Name port))) st3;
                  st5 = add_errs
                    (case vs_portOwners st4 (cp_Name port) of
                       Some owner \<Rightarrow>
                         [field_Duplicate (pp @ [Child ''name''])
                            (Sprintf ''%s (already declared by container %q)''
                               [AStr (cp_Name port), AStr owner])]
                     | None \<Rightarrow> []) st4
              in st5\<lparr>vs_portOwners := (vs_portOwners st5)(cp_Name port \<mapsto> cname)\<rparr>)"

fun validate_ports ::
  "k8s \<Rightarrow> field_path \<Rightarrow> string \<Rightarrow> nat \<Rightarrow> ContainerPort list \<Rightarrow> vstate \<Rightarrow> vstate" where
  "validate_ports X p cname j [] st = st"
| "validate_ports X p cname j (port # ports) st =
     validate_ports X p cname (Suc j) ports
       (validate_port X (p @ [Child ''ports'', Index j]) cname port st)"

fun validate_mounts ::
  "k8s \<Rightarrow> field_path \<Rightarrow> nat \<Rightarrow> (string \<Rightarrow> bool) \<Rightarrow> ScratchVolume list \<Rightarrow> error_list" where
  "validate_mounts X p j mountPaths [] = []"
| "validate_mounts X p j mountPaths (v # vs) =
     (let vp = p @ [Child ''scratchVolumes'', Index j]
      in (if mountPaths (sw_MountPath v)
          then [field_Duplicate (vp @ [Child ''mountPath'']) (Lit (sw_MountPath v))] else [])
       @ (case sw_SizeLimit v of
            None \<Rightarrow> []
          | Some q \<Rightarrow>
              if q_Sign X q \<le> 0
              then [field_Invalid (vp @ [Child ''sizeLimit'']) (BadString (q_String X q))
                      (Lit ''must be greater than zero'')]
              else [])
       @ validate_mounts X p (Suc j) (mountPaths(sw_MountPath v := True)) vs)"

definition name_errors :: "k8s \<Rightarrow> field_path \<Rightarrow> Container \<Rightarrow> (string \<Rightarrow> bool) \<Rightarrow> error_list" where
  "name_errors X p c containerNames =
     (if cn_Name c = []
      then [field_Required (p @ [Child ''name'']) (Lit ''container name is required'')]
      else if containerNames (cn_Name c)
      then [field_Duplicate (p @ [Child ''name'']) (Lit (cn_Name c))]
      else map (\<lambda>m. field_Invalid (p @ [Child ''name'']) (BadString (cn_Name c)) (Lit m))
             (IsDNS1123Label X (cn_Name c)))"

definition validate_container :: "k8s \<Rightarrow> nat \<Rightarrow> Container \<Rightarrow> vstate \<Rightarrow> vstate" where
  "validate_container X i c st =
     (let p = [Child ''spec'', Child ''containers'', Index i];
          st1 = add_errs (name_errors X p c (vs_containerNames st)) st;
          st2 = st1\<lparr>vs_containerNames := (vs_containerNames st1)(cn_Name c := True)\<rparr>;
          st3 = add_errs
            (if cn_Image c = []
             then [field_Required (p @ [Child ''image'']) (Lit ''container image is required'')]
             else []) st2;
          st4 = validate_ports X p (cn_Name c) 0 (cn_Ports c) st3
      in add_errs (validate_mounts X p 0 (\<lambda>_. False) (cn_ScratchVolumes c)) st4)"

fun validate_containers :: "k8s \<Rightarrow> nat \<Rightarrow> Container list \<Rightarrow> vstate \<Rightarrow> vstate" where
  "validate_containers X i [] st = st"
| "validate_containers X i (c # cs) st = validate_containers X (Suc i) cs (validate_container X i c st)"

definition autoscaling_errors :: "WebApp \<Rightarrow> error_list" where
  "autoscaling_errors app =
     (case ws_Autoscaling (wa_Spec app) of
        None \<Rightarrow> []
      | Some a \<Rightarrow>
          if \<not> as_Enabled a then []
          else let ap = [Child ''spec'', Child ''autoscaling'', Child ''maxReplicas'']
               in (case as_MaxReplicas a of
                     None \<Rightarrow> [field_Required ap (Lit ''required when autoscaling.enabled is true'')]
                   | Some mx \<Rightarrow>
                       let minReplicas = (case as_MinReplicas a of Some m \<Rightarrow> m | None \<Rightarrow> 1)
                       in if mx < minReplicas
                          then [field_Invalid ap (BadInt mx)
                                  (Sprintf ''must be greater than or equal to minReplicas (%d)''
                                     [AInt minReplicas])]
                          else [])
                @ missingUtilizationRequests app a)"

fun generated_collisions :: "(string \<Rightarrow> bool) \<Rightarrow> string list \<Rightarrow> error_list" where
  "generated_collisions seen [] = []"
| "generated_collisions seen (name # names) =
     (if seen name
      then [field_Duplicate [Child ''spec'', Child ''containers'', Child ''ports'', Child ''name'']
              (Sprintf ''%s (an explicit name collides with one generated for an unnamed port)''
                 [AStr name])]
      else [])
     @ generated_collisions (seen(name := True)) names"

definition ValidateSpec :: "k8s \<Rightarrow> WebApp \<Rightarrow> error_list" where
  "ValidateSpec X app =
     (let spec = wa_Spec app; cs = ws_Containers spec
      in (if cs = []
          then [field_Required [Child ''spec'', Child ''containers'']
                  (Lit ''at least one container is required'')] else [])
       @ vs_errs (validate_containers X 0 cs init_vstate)
       @ (if cs \<noteq> [] \<and> totalPorts app = 0
          then [field_Required [Child ''spec'', Child ''containers'', Index 0, Child ''ports'']
                  (Lit ''at least one container port must be declared; the generated Service requires one'')]
          else [])
       @ autoscaling_errors app
       @ generated_collisions (\<lambda>_. False) (PortNames app)
       @ (if ws_IngressPortName spec \<noteq> [] \<and> ws_IngressPortName spec \<notin> set (PortNames app)
          then [field_Invalid [Child ''spec'', Child ''ingressPortName'']
                  (BadString (ws_IngressPortName spec))
                  (Lit ''no container declares a port with this name'')]
          else [])
       @ (if ws_Domain spec \<noteq> []
          then map (\<lambda>m. field_Invalid [Child ''spec'', Child ''domain''] (BadString (ws_Domain spec)) (Lit m))
                 (IsDNS1123Subdomain X (ws_Domain spec))
          else [])
       @ (case ws_Strategy spec of
            None \<Rightarrow> []
          | Some s \<Rightarrow>
              (case ss_RollingUpdate s of
                 None \<Rightarrow> []
               | Some ru \<Rightarrow>
                   if ss_Type s = RecreateDeploymentStrategyType
                   then [field_Invalid [Child ''spec'', Child ''strategy'', Child ''rollingUpdate'']
                           (BadRollingUpdate ru)
                           (Lit ''may only be set when strategy.type is RollingUpdate'')]
                   else [])))"

section \<open>Admission\<close>

definition image_ref :: "string \<Rightarrow> string" where
  "image_ref img = drop (nat (LastIndex img CHR ''/'' + 1)) img"

definition mutable_tag :: "string \<Rightarrow> bool" where
  "mutable_tag img \<longleftrightarrow>
     HasSuffix (image_ref img) '':latest'' \<or> \<not> Contains (image_ref img) '':''"

definition warnings :: "WebApp \<Rightarrow> msg list" where
  "warnings app =
     concat (map (\<lambda>c.
         if mutable_tag (cn_Image c)
         then [Sprintf ''container %q uses a mutable image tag; pin a version or digest''
                 [AStr (cn_Name c)]]
         else [])
       (ws_Containers (wa_Spec app)))"

record policy_reader =
  pr_List :: "go_error + WebAppPolicy list"
  pr_GetNamespace :: "string \<Rightarrow> go_error + string_map"

record WebAppValidator =
  wv_Reader :: "policy_reader option"

record admission =
  ad_Warnings :: "msg list"
  ad_Error :: "go_error option"
  ad_Log :: "msg list"

definition invalidOrNil :: "WebApp \<Rightarrow> error_list \<Rightarrow> go_error option" where
  "invalidOrNil app errs =
     (if errs = [] then None else Some (InvalidObject ''WebApp'' (app_Name app) errs))"

definition evaluatePolicies :: "k8s \<Rightarrow> WebAppValidator \<Rightarrow> WebApp \<Rightarrow> go_error + Result" where
  "evaluatePolicies X v app =
     (case wv_Reader v of
        None \<Rightarrow> Inr empty_Result
      | Some r \<Rightarrow>
          (case pr_List r of
             Inl err \<Rightarrow> Inl (Errorf ''list webapppolicies: %w'' [AWrap err])
           | Inr policies \<Rightarrow>
               if policies = [] then Inr empty_Result
               else (case pr_GetNamespace r (app_Namespace app) of
                       Inl err \<Rightarrow>
                         Inl (Errorf ''get namespace %q: %w'' [AStr (app_Namespace app), AWrap err])
                     | Inr nsLabels \<Rightarrow> Evaluate X app policies nsLabels)))"

definition validate :: "k8s \<Rightarrow> WebAppValidator \<Rightarrow> WebApp \<Rightarrow> admission" where
  "validate X v app =
     (let errs = ValidateSpec X app; warns = warnings app
      in case evaluatePolicies X v app of
           Inl err \<Rightarrow> \<lparr>ad_Warnings = warns, ad_Error = Some err, ad_Log = []\<rparr>
         | Inr res \<Rightarrow>
             \<lparr>ad_Warnings = warns @ re_Warnings res,
              ad_Error = invalidOrNil app (errs @ re_Violations res),
              ad_Log = re_Audited res\<rparr>)"

definition ValidateCreate :: "k8s \<Rightarrow> WebAppValidator \<Rightarrow> WebApp \<Rightarrow> admission" where
  "ValidateCreate X v app = validate X v app"

definition ValidateUpdate :: "k8s \<Rightarrow> WebAppValidator \<Rightarrow> WebApp \<Rightarrow> WebApp \<Rightarrow> admission" where
  "ValidateUpdate X v old app =
     (if om_DeletionTimestamp (wa_Meta app) \<noteq> None \<or> SemanticDeepEqual X (wa_Spec old) (wa_Spec app)
      then \<lparr>ad_Warnings = [], ad_Error = None, ad_Log = []\<rparr>
      else validate X v app)"

definition ValidateDelete :: "WebApp \<Rightarrow> admission" where
  "ValidateDelete app = \<lparr>ad_Warnings = [], ad_Error = None, ad_Log = []\<rparr>"

definition validate_policy :: "k8s \<Rightarrow> WebAppPolicy \<Rightarrow> go_error option" where
  "validate_policy X p =
     (let errs = Validate X p
      in if errs = [] then None else Some (InvalidObject ''WebAppPolicy'' (policy_Name p) errs))"

end
