(* ===== verification/Warp_Admission.thy ===== *)
theory Warp_Admission
  imports Warp_Webhook
begin

text \<open>
  What admission guarantees: the validator's loops against the declarative \<open>valid_spec\<close>, the effect of
  defaulting, and what a WebApp that was let in is good for.
\<close>

section \<open>The rules of a valid spec\<close>

definition port_ok :: "k8s \<Rightarrow> ContainerPort \<Rightarrow> bool" where
  "port_ok X p \<longleftrightarrow>
     1 \<le> cp_ContainerPort p \<and> cp_ContainerPort p \<le> 65535 \<and>
     (cp_Name p \<noteq> [] \<longrightarrow> IsValidPortName X (cp_Name p) = [])"

definition mounts_ok :: "k8s \<Rightarrow> Container \<Rightarrow> bool" where
  "mounts_ok X c \<longleftrightarrow>
     distinct (map sw_MountPath (cn_ScratchVolumes c)) \<and>
     (\<forall>v \<in> set (cn_ScratchVolumes c). \<forall>q. sw_SizeLimit v = Some q \<longrightarrow> q_Sign X q > 0)"

definition container_ok :: "k8s \<Rightarrow> Container \<Rightarrow> bool" where
  "container_ok X c \<longleftrightarrow>
     cn_Name c \<noteq> [] \<and> IsDNS1123Label X (cn_Name c) = [] \<and> cn_Image c \<noteq> [] \<and>
     (\<forall>p \<in> set (cn_Ports c). port_ok X p) \<and> mounts_ok X c"

definition explicit_names :: "ContainerPort list \<Rightarrow> string list" where
  "explicit_names ps = filter (\<lambda>n. n \<noteq> []) (map cp_Name ps)"

definition autoscaling_ok :: "WebApp \<Rightarrow> bool" where
  "autoscaling_ok app \<longleftrightarrow>
     (\<forall>a. ws_Autoscaling (wa_Spec app) = Some a \<longrightarrow> as_Enabled a \<longrightarrow>
        (\<exists>mx. as_MaxReplicas a = Some mx \<and>
           (case as_MinReplicas a of Some m \<Rightarrow> m | None \<Rightarrow> 1) \<le> mx) \<and>
        (\<forall>name \<in> set (TargetedResources a). \<forall>c \<in> set (ws_Containers (wa_Spec app)).
           fmlookup (rr_Requests (cn_Resources c)) name \<noteq> None))"

definition valid_spec :: "k8s \<Rightarrow> WebApp \<Rightarrow> bool" where
  "valid_spec X app \<longleftrightarrow>
     (let cs = ws_Containers (wa_Spec app); ps = declared_ports app
      in ps \<noteq> [] \<and>
         distinct (map cn_Name cs) \<and> (\<forall>c \<in> set cs. container_ok X c) \<and>
         distinct (map portKeyOf ps) \<and> distinct (map portName ps) \<and>
         autoscaling_ok app \<and>
         (ws_IngressPortName (wa_Spec app) \<noteq> [] \<longrightarrow>
            ws_IngressPortName (wa_Spec app) \<in> portName ` set ps) \<and>
         (ws_Domain (wa_Spec app) \<noteq> [] \<longrightarrow> IsDNS1123Subdomain X (ws_Domain (wa_Spec app)) = []) \<and>
         (\<forall>s. ws_Strategy (wa_Spec app) = Some s \<longrightarrow> ss_Type s = RecreateDeploymentStrategyType \<longrightarrow>
            ss_RollingUpdate s = None))"

section \<open>The loops\<close>

lemma protocolOf_protocol: "protocolOf = protocol"
  by (simp add: protocolOf_def protocol_def fun_eq_iff)

lemma add_errs_simps [simp]:
  "vs_errs (add_errs es st) = vs_errs st @ es"
  "vs_containerNames (add_errs es st) = vs_containerNames st"
  "vs_portOwners (add_errs es st) = vs_portOwners st"
  "vs_numberOwners (add_errs es st) = vs_numberOwners st"
  by (simp_all add: add_errs_def)

text \<open>The map key \<open>%d/%s\<close> identifies the pair it prints.\<close>

lemma number_key_eq: "number_key p = number_key q \<longleftrightarrow> portKeyOf p = portKeyOf q"
proof -
  have split: "a @ CHR ''/'' # s = b @ CHR ''/'' # t \<longleftrightarrow> a = b \<and> s = t"
    if "CHR ''/'' \<notin> set a" "CHR ''/'' \<notin> set b" for a b s t :: string
    using that by (auto simp: append_eq_append_conv2 append_eq_Cons_conv Cons_eq_append_conv)
  have no_slash: "CHR ''/'' \<notin> set (int_dec i)" for i
    using int_dec_chars [of i] by auto
  show ?thesis
    by (auto simp: number_key_def portKeyOf_eq protocolOf_protocol split no_slash int_dec_inj)
qed

lemma number_key_distinct: "distinct (map number_key ps) \<longleftrightarrow> distinct (map portKeyOf ps)"
  by (induction ps) (auto simp: number_key_eq image_iff)

lemma validate_port_simps:
  "vs_containerNames (validate_port X pp cname p st) = vs_containerNames st"
  "dom (vs_numberOwners (validate_port X pp cname p st)) = insert (number_key p) (dom (vs_numberOwners st))"
  "dom (vs_portOwners (validate_port X pp cname p st))
     = set (explicit_names [p]) \<union> dom (vs_portOwners st)"
  by (auto simp: validate_port_def Let_def explicit_names_def)

lemma validate_port_errs:
  "vs_errs (validate_port X pp cname p st) = [] \<longleftrightarrow>
     vs_errs st = [] \<and> port_ok X p \<and> number_key p \<notin> dom (vs_numberOwners st)
     \<and> set (explicit_names [p]) \<inter> dom (vs_portOwners st) = {}"
  by (auto simp: validate_port_def Let_def explicit_names_def port_ok_def split: option.split)

lemma explicit_names_simps:
  "explicit_names [] = []"
  "explicit_names (p # ps) = explicit_names [p] @ explicit_names ps"
  "explicit_names (ps @ qs) = explicit_names ps @ explicit_names qs"
  by (simp_all add: explicit_names_def)

lemma distinct_explicit_one [simp]: "distinct (explicit_names [p])"
  by (simp add: explicit_names_def)

lemma validate_ports_simps:
  "vs_containerNames (validate_ports X p cname j ports st) = vs_containerNames st"
  "dom (vs_numberOwners (validate_ports X p cname j ports st))
     = number_key ` set ports \<union> dom (vs_numberOwners st)"
  "dom (vs_portOwners (validate_ports X p cname j ports st))
     = set (explicit_names ports) \<union> dom (vs_portOwners st)"
proof (induction ports arbitrary: j st)
  case (Cons q ports)
  { case 1 show ?case by (simp add: Cons.IH validate_port_simps) }
  { case 2 show ?case by (simp add: Cons.IH validate_port_simps) }
  { case 3 show ?case
      by (subst explicit_names_simps(2)) (auto simp: Cons.IH validate_port_simps) }
qed (simp_all add: explicit_names_simps)

lemma validate_ports_errs:
  "vs_errs (validate_ports X p cname j ports st) = [] \<longleftrightarrow>
     vs_errs st = [] \<and> (\<forall>q \<in> set ports. port_ok X q) \<and>
     distinct (map number_key ports) \<and> number_key ` set ports \<inter> dom (vs_numberOwners st) = {} \<and>
     distinct (explicit_names ports) \<and> set (explicit_names ports) \<inter> dom (vs_portOwners st) = {}"
proof (induction ports arbitrary: j st)
  case (Cons q ports)
  show ?case
    unfolding explicit_names_simps(2) [of q ports]
    by (auto simp: Cons.IH validate_port_simps validate_port_errs)
qed (simp add: explicit_names_simps)

lemma validate_mounts_errs:
  "validate_mounts X p j seen vs = [] \<longleftrightarrow>
     distinct (map sw_MountPath vs) \<and> (\<forall>v \<in> set vs. \<not> seen (sw_MountPath v)) \<and>
     (\<forall>v \<in> set vs. \<forall>q. sw_SizeLimit v = Some q \<longrightarrow> q_Sign X q > 0)"
  by (induction vs arbitrary: j seen) (auto simp: Let_def image_iff split: option.splits)

lemma validate_container_simps:
  "vs_containerNames (validate_container X i c st) = (vs_containerNames st)(cn_Name c := True)"
  "dom (vs_numberOwners (validate_container X i c st))
     = number_key ` set (cn_Ports c) \<union> dom (vs_numberOwners st)"
  "dom (vs_portOwners (validate_container X i c st))
     = set (explicit_names (cn_Ports c)) \<union> dom (vs_portOwners st)"
  by (simp_all add: validate_container_def Let_def validate_ports_simps)

lemma validate_container_errs:
  "vs_errs (validate_container X i c st) = [] \<longleftrightarrow>
     vs_errs st = [] \<and> container_ok X c \<and> \<not> vs_containerNames st (cn_Name c) \<and>
     distinct (map number_key (cn_Ports c)) \<and>
     number_key ` set (cn_Ports c) \<inter> dom (vs_numberOwners st) = {} \<and>
     distinct (explicit_names (cn_Ports c)) \<and>
     set (explicit_names (cn_Ports c)) \<inter> dom (vs_portOwners st) = {}"
  by (auto simp: validate_container_def Let_def validate_ports_errs container_ok_def mounts_ok_def
      validate_mounts_errs name_errors_def)

lemma validate_containers_errs:
  "vs_errs (validate_containers X i cs st) = [] \<longleftrightarrow>
     vs_errs st = [] \<and> (\<forall>c \<in> set cs. container_ok X c) \<and>
     distinct (map cn_Name cs) \<and> (\<forall>c \<in> set cs. \<not> vs_containerNames st (cn_Name c)) \<and>
     distinct (map number_key (concat (map cn_Ports cs))) \<and>
     number_key ` set (concat (map cn_Ports cs)) \<inter> dom (vs_numberOwners st) = {} \<and>
     distinct (explicit_names (concat (map cn_Ports cs))) \<and>
     set (explicit_names (concat (map cn_Ports cs))) \<inter> dom (vs_portOwners st) = {}"
proof (induction cs arbitrary: i st)
  case (Cons c cs)
  let ?ps = "concat (map cn_Ports cs)"
  have names: "(\<forall>c' \<in> set cs. \<not> (f(cn_Name c := True)) (cn_Name c')) \<longleftrightarrow>
      cn_Name c \<notin> cn_Name ` set cs \<and> (\<forall>c' \<in> set cs. \<not> f (cn_Name c'))" for f
    by (auto simp: image_iff)
  have every: "(\<forall>x \<in> insert c (set cs). P x) \<longleftrightarrow> P c \<and> (\<forall>x \<in> set cs. P x)" for P
    by auto
  note disjoint = Int_Un_distrib Int_Un_distrib2 Un_empty image_Un
    Int_commute [of "number_key ` set ?ps" "number_key ` set (cn_Ports c)"]
    Int_commute [of "set (explicit_names ?ps)" "set (explicit_names (cn_Ports c))"]
  show ?case
    by (simp only: validate_containers.simps Cons.IH validate_container_errs validate_container_simps
        list.map concat.simps map_append explicit_names_simps(3) distinct_append set_append set_map
        list.set distinct.simps names every disjoint) argo
qed (simp add: explicit_names_simps)

lemma generated_collisions_errs:
  "generated_collisions seen names = [] \<longleftrightarrow> distinct names \<and> (\<forall>n \<in> set names. \<not> seen n)"
  by (induction names arbitrary: seen) auto

lemma totalPorts_sum: "totalPorts app = length (declared_ports app)"
proof -
  have "fold (\<lambda>c n. n + length (cn_Ports c)) cs k = k + length (concat (map cn_Ports cs))" for cs k
    by (induction cs arbitrary: k) auto
  from this [of _ 0] show ?thesis unfolding totalPorts_def declared_ports_def by simp
qed

lemma missingUtilizationRequests_errs:
  "missingUtilizationRequests app a = [] \<longleftrightarrow>
     (\<forall>name \<in> set (TargetedResources a). \<forall>c \<in> set (ws_Containers (wa_Spec app)).
        fmlookup (rr_Requests (cn_Resources c)) name \<noteq> None)"
  unfolding missingUtilizationRequests_def concat_map_Nil_iff by simp

lemma autoscaling_errors_errs: "autoscaling_errors app = [] \<longleftrightarrow> autoscaling_ok app"
  by (auto simp: autoscaling_errors_def autoscaling_ok_def missingUtilizationRequests_errs Let_def
      split: option.split)

text \<open>Distinct names over all ports, generated ones included, contain the explicit ones.\<close>

lemma explicit_names_distinct:
  assumes "distinct (map portName ps)"
  shows "distinct (explicit_names ps)"
proof -
  have "explicit_names ps = map portName (filter (\<lambda>p. cp_Name p \<noteq> []) ps)"
    by (induction ps) (auto simp: explicit_names_def portName_def)
  moreover have "distinct (map portName (filter (\<lambda>p. cp_Name p \<noteq> []) ps))"
    using assms by (rule distinct_map_filter)
  ultimately show ?thesis by simp
qed

section \<open>Validation decides \<open>valid_spec\<close>\<close>

lemma ValidateSpec_valid: "ValidateSpec X app = [] \<longleftrightarrow> valid_spec X app"
proof (cases "distinct (map portKeyOf (declared_ports app))")
  case True
  let ?cs = "ws_Containers (wa_Spec app)" and ?ps = "declared_ports app"
  have names: "PortNames app = map portName ?ps"
    using True by (simp add: PortNames_def allPorts_id)
  have loop: "vs_errs (validate_containers X 0 ?cs init_vstate) = [] \<longleftrightarrow>
      (\<forall>c \<in> set ?cs. container_ok X c) \<and> distinct (map cn_Name ?cs) \<and> distinct (explicit_names ?ps)"
    using True by (auto simp: validate_containers_errs init_vstate_def number_key_distinct
        declared_ports_def simp del: map_concat)
  have nonempty: "?cs \<noteq> [] \<and> \<not> (?cs \<noteq> [] \<and> totalPorts app = 0) \<longleftrightarrow> ?ps \<noteq> []"
    by (auto simp: totalPorts_sum declared_ports_def)
  show ?thesis
    using loop nonempty True explicit_names_distinct [of ?ps]
    by (auto simp: ValidateSpec_def valid_spec_def Let_def autoscaling_errors_errs names
        generated_collisions_errs image_iff split: option.splits if_splits)
next
  case False
  then have "vs_errs (validate_containers X 0 (ws_Containers (wa_Spec app)) init_vstate) \<noteq> []"
    unfolding validate_containers_errs by (simp add: number_key_distinct declared_ports_def)
  with False show ?thesis
    by (simp add: ValidateSpec_def valid_spec_def Let_def)
qed

section \<open>Defaulting changes neither the verdict nor what is built\<close>

lemma default_port_simps [simp]:
  "cp_Name (default_port p) = cp_Name p"
  "cp_ContainerPort (default_port p) = cp_ContainerPort p"
  "protocol (default_port p) = protocol p"
  "portName (default_port p) = portName p"
  "portKeyOf (default_port p) = portKeyOf p"
  by (simp_all add: default_port_def protocol_def portName_def portKeyOf_def)

lemma default_port_idem [simp]: "default_port (default_port p) = default_port p"
  by (simp add: default_port_def)

lemma default_container_simps [simp]:
  "cn_Name (default_container c) = cn_Name c"
  "cn_Image (default_container c) = cn_Image c"
  "cn_Ports (default_container c) = map default_port (cn_Ports c)"
  "cn_Env (default_container c) = cn_Env c"
  "cn_EnvFrom (default_container c) = cn_EnvFrom c"
  "cn_Resources (default_container c) = cn_Resources c"
  "cn_Command (default_container c) = cn_Command c"
  "cn_Args (default_container c) = cn_Args c"
  "cn_LivenessProbe (default_container c) = cn_LivenessProbe c"
  "cn_ReadinessProbe (default_container c) = cn_ReadinessProbe c"
  "cn_StartupProbe (default_container c) = cn_StartupProbe c"
  "cn_SecurityContext (default_container c) = cn_SecurityContext c"
  "cn_ScratchVolumes (default_container c) = cn_ScratchVolumes c"
  by (simp_all add: default_container_def)

lemma default_container_idem [simp]: "default_container (default_container c) = default_container c"
  by (simp add: default_container_def comp_def)

lemma default_autoscaling_simps [simp]:
  "as_Enabled (default_autoscaling a) = as_Enabled a"
  "as_MaxReplicas (default_autoscaling a) = as_MaxReplicas a"
  "as_Behavior (default_autoscaling a) = as_Behavior a"
  by (simp_all add: default_autoscaling_def Let_def)

lemma default_autoscaling_min:
  "as_Enabled a \<Longrightarrow> as_MinReplicas (default_autoscaling a) =
     (case as_MinReplicas a of Some m \<Rightarrow> Some m | None \<Rightarrow> Some 1)"
  by (auto simp: default_autoscaling_def Let_def split: option.split)

lemma default_autoscaling_targets:
  "as_Enabled a \<Longrightarrow> as_TargetMemory (default_autoscaling a) = as_TargetMemory a"
  "as_Enabled a \<Longrightarrow> as_TargetCPU (default_autoscaling a) =
     (if as_TargetCPU a = None \<and> as_TargetMemory a = None then Some DefaultTargetCPU else as_TargetCPU a)"
  by (auto simp: default_autoscaling_def Let_def)

lemma default_autoscaling_resources:
  "as_Enabled a \<Longrightarrow> TargetedResources (default_autoscaling a) = TargetedResources a"
  "as_Enabled a \<Longrightarrow> hpaMetrics (default_autoscaling a) = hpaMetrics a"
  by (auto simp: TargetedResources_def hpaMetrics_def default_autoscaling_targets Let_def)

lemma default_autoscaling_idem [simp]:
  "default_autoscaling (default_autoscaling a) = default_autoscaling a"
  by (auto simp: default_autoscaling_def Let_def)

lemma default_strategy_idem [simp]: "default_strategy (default_strategy s) = default_strategy s"
  by (auto simp: default_strategy_def Let_def split: option.split)

lemma Default_simps [simp]:
  "wa_Meta (Default app) = wa_Meta app"
  "wa_Status (Default app) = wa_Status app"
  "ws_Containers (wa_Spec (Default app)) = map default_container (ws_Containers (wa_Spec app))"
  "ws_Domain (wa_Spec (Default app)) = ws_Domain (wa_Spec app)"
  "ws_IngressClassName (wa_Spec (Default app)) = ws_IngressClassName (wa_Spec app)"
  "ws_IngressPortName (wa_Spec (Default app)) = ws_IngressPortName (wa_Spec app)"
  "ws_Replicas (wa_Spec (Default app)) = ws_Replicas (wa_Spec app)"
  "ws_Autoscaling (wa_Spec (Default app)) = map_option default_autoscaling (ws_Autoscaling (wa_Spec app))"
  "ws_Strategy (wa_Spec (Default app)) = default_strategy (ws_Strategy (wa_Spec app))"
  "ws_ImagePullSecrets (wa_Spec (Default app)) = ws_ImagePullSecrets (wa_Spec app)"
  "ws_NodeSelector (wa_Spec (Default app)) = ws_NodeSelector (wa_Spec app)"
  "ws_Tolerations (wa_Spec (Default app)) = ws_Tolerations (wa_Spec app)"
  "ws_Affinity (wa_Spec (Default app)) = ws_Affinity (wa_Spec app)"
  "ws_ServiceAccountName (wa_Spec (Default app)) = ws_ServiceAccountName (wa_Spec app)"
  "ws_AutomountServiceAccountToken (wa_Spec (Default app)) = ws_AutomountServiceAccountToken (wa_Spec app)"
  "ws_SecurityContext (wa_Spec (Default app)) = ws_SecurityContext (wa_Spec app)"
  "ws_PodLabels (wa_Spec (Default app)) = ws_PodLabels (wa_Spec app)"
  "ws_PodAnnotations (wa_Spec (Default app)) = ws_PodAnnotations (wa_Spec app)"
  by (simp_all add: Default_def default_spec_def)

lemma Default_ServiceType:
  "ws_ServiceType (wa_Spec (Default app)) =
     (if ws_ServiceType (wa_Spec app) = [] then ServiceTypeClusterIP else ws_ServiceType (wa_Spec app))"
  by (simp add: Default_def default_spec_def)

lemma Default_idem: "Default (Default app) = Default app"
proof -
  have "map_option default_autoscaling (map_option default_autoscaling a)
      = map_option default_autoscaling a" for a
    by (cases a) simp_all
  then show ?thesis
    by (simp add: Default_def default_spec_def comp_def)
qed

lemma Default_ports:
  "declared_ports (Default app) = map default_port (declared_ports app)"
  "allPorts (Default app) = map default_port (allPorts app)"
  "PortNames (Default app) = PortNames app"
proof -
  show decl: "declared_ports (Default app) = map default_port (declared_ports app)"
    by (simp add: declared_ports_def map_concat comp_def)
  have "first_by portKeyOf seen (map default_port ps) = map default_port (first_by portKeyOf seen ps)"
    for seen ps
    by (induction portKeyOf seen ps rule: first_by.induct) simp_all
  then show all: "allPorts (Default app) = map default_port (allPorts app)"
    by (simp add: allPorts_def decl)
  show "PortNames (Default app) = PortNames app"
    by (simp add: PortNames_def all comp_def)
qed

lemma Default_builds:
  "backendPort (Default app) = backendPort app"
  "Ingress (Default app) = Ingress app"
  "Service (Default app) = Service app"
  "HPA (Default app) = (if WantsHPA app then HPA app else HPA (Default app))"
proof -
  have find: "find P (map f xs) = map_option f (find (P \<circ> f) xs)" for P f and xs :: "ContainerPort list"
    by (induction xs) auto
  have "list_ex P (map default_port ps) = list_ex (P \<circ> default_port) ps" for P ps
    by (induction ps) auto
  then show backend: "backendPort (Default app) = backendPort app"
    by (auto simp: backendPort_def Default_ports Let_def find comp_def hd_map split: option.split)
  have meta: "Labels (Default app) = Labels app" "OwnerRefs (Default app) = OwnerRefs app"
    "SelectorLabels (Default app) = SelectorLabels app"
    by (simp_all add: Labels_def SelectorLabels_def OwnerRefs_def)
  show "Ingress (Default app) = Ingress app"
    by (simp add: Ingress_def backend meta split: sum.split)
  show "Service (Default app) = Service app"
    by (simp add: Service_def servicePorts_def meta Default_ports Default_ServiceType comp_def)
  show "HPA (Default app) = (if WantsHPA app then HPA app else HPA (Default app))"
    by (auto simp: HPA_def meta default_autoscaling_min default_autoscaling_resources Let_def
        dest!: WantsHPA_D split: option.split)
qed

lemma Default_Deployment:
  assumes "\<And>s. ws_Strategy (wa_Spec app) = Some s \<Longrightarrow> ss_Type s = [] \<Longrightarrow> ss_RollingUpdate s = None"
  shows "Deployment (Default app) = Deployment app"
proof -
  have "strategy (Default app) = strategy app"
    using assms by (auto simp: strategy_def default_strategy_def Let_def split: option.split)
  moreover have "DesiredReplicas (Default app) = DesiredReplicas app"
    by (simp add: DesiredReplicas_def split: option.split)
  moreover have "containers (Default app) = containers app"
    by (simp add: containers_def containerPorts_def containerSecurityContext_def volumeMounts_def
        ScratchVolumeName_def comp_def)
  moreover have "scratchVolumes (Default app) = scratchVolumes app"
    by (simp add: scratchVolumes_def ScratchVolumeName_def comp_def)
  moreover have "podLabels (Default app) = podLabels app" "podSecurityContext (Default app) = podSecurityContext app"
    "automountToken (Default app) = automountToken app"
    by (simp_all add: podLabels_def Labels_def SelectorLabels_def podSecurityContext_def automountToken_def)
  moreover have "Labels (Default app) = Labels app" "OwnerRefs (Default app) = OwnerRefs app"
    "SelectorLabels (Default app) = SelectorLabels app"
    by (simp_all add: Labels_def SelectorLabels_def OwnerRefs_def)
  ultimately show ?thesis by (simp add: Deployment_def)
qed

lemma validate_port_default: "validate_port X pp cname (default_port p) st = validate_port X pp cname p st"
proof -
  have key: "number_key (default_port p) = number_key p"
    by (simp add: number_key_def protocolOf_protocol)
  show ?thesis unfolding validate_port_def key default_port_simps ..
qed

lemma validate_ports_default:
  "validate_ports X p cname j (map default_port ps) st = validate_ports X p cname j ps st"
  by (induction ps arbitrary: j st) (simp_all add: validate_port_default)

lemma validate_containers_default:
  "validate_containers X i (map default_container cs) st = validate_containers X i cs st"
  by (induction cs arbitrary: i st)
    (simp_all add: validate_container_def name_errors_def validate_ports_default Let_def)

lemma for_range_map: "for_range i f (map g xs) = for_range i (\<lambda>j x. f j (g x)) xs"
  by (induction xs arbitrary: i) simp_all

lemma missingUtilizationRequests_default:
  "as_Enabled a \<Longrightarrow> missingUtilizationRequests (Default app) (default_autoscaling a)
     = missingUtilizationRequests app a"
  by (simp add: missingUtilizationRequests_def default_autoscaling_resources for_range_map)

lemma ValidateSpec_Default: "ValidateSpec X (Default app) = ValidateSpec X app"
proof -
  have "autoscaling_errors (Default app) = autoscaling_errors app"
    by (auto simp: autoscaling_errors_def Let_def missingUtilizationRequests_default
        default_autoscaling_min split: option.split)
  moreover have "totalPorts (Default app) = totalPorts app"
    by (simp add: totalPorts_sum Default_ports)
  moreover have "(case default_strategy so of None \<Rightarrow> [] | Some s \<Rightarrow> (case ss_RollingUpdate s of
        None \<Rightarrow> [] | Some ru \<Rightarrow> if ss_Type s = RecreateDeploymentStrategyType then f ru else []))
    = (case so of None \<Rightarrow> [] | Some s \<Rightarrow> (case ss_RollingUpdate s of
        None \<Rightarrow> [] | Some ru \<Rightarrow> if ss_Type s = RecreateDeploymentStrategyType then f ru else []))"
    for so and f :: "RollingUpdateDeployment \<Rightarrow> error_list"
    by (auto simp: default_strategy_def Let_def split: option.split)
  ultimately show ?thesis
    by (simp add: ValidateSpec_def Let_def validate_containers_default Default_ports)
qed

lemma containerResourceViolations_default:
  "containerResourceViolations X p rp i (default_container c) = containerResourceViolations X p rp i c"
proof -
  have "requestViolation X p rp fp (default_container c) = requestViolation X p rp fp c"
    "limitViolation X p rp fp (default_container c) = limitViolation X p rp fp c" for fp
    by (simp_all add: requestViolation_def limitViolation_def fun_eq_iff split: option.split)
  then show ?thesis by (simp add: containerResourceViolations_def)
qed

lemma violations_Default: "violations X (Default app) p = violations X app p"
proof -
  have "replicaViolations (Default app) p = replicaViolations app p"
    by (simp add: replicaViolations_def Let_def split: option.split)
  moreover have "serviceAccountViolations (Default app) p = serviceAccountViolations app p"
    by (simp add: serviceAccountViolations_def effective_sa_def)
  moreover have "annotationViolations (Default app) p = annotationViolations app p"
    by (simp add: annotationViolations_def)
  moreover have "scratchSizeViolations X (Default app) p = scratchSizeViolations X app p"
    by (simp add: scratchSizeViolations_def for_range_map split: option.split)
  moreover have "resourceViolations X (Default app) p = resourceViolations X app p"
    by (simp add: resourceViolations_def for_range_map containerResourceViolations_default
        split: option.split)
  ultimately show ?thesis by (simp add: violations_def)
qed

lemma Evaluate_Default: "Evaluate X (Default app) ps ns = Evaluate X app ps ns"
proof -
  have "violations X (Default app) = violations X app"
    by (simp add: violations_Default fun_eq_iff)
  then show ?thesis by (simp add: Evaluate_def full.loop_result)
qed

lemma validate_Default: "validate X v (Default app) = validate X v app"
proof -
  have "evaluatePolicies X v (Default app) = evaluatePolicies X v app"
    by (simp add: evaluatePolicies_def Evaluate_Default split: option.split sum.split)
  moreover have "warnings (Default app) = warnings app"
    by (simp add: warnings_def comp_def cong: list.map_cong if_cong)
  moreover have "invalidOrNil (Default app) = invalidOrNil app"
    by (simp add: invalidOrNil_def fun_eq_iff)
  ultimately show ?thesis
    by (simp add: validate_def ValidateSpec_Default Let_def split: sum.split)
qed

section \<open>What an admitted WebApp builds\<close>

lemma valid_spec_builds:
  assumes "valid_spec X app"
  shows "sv_Ports (Service app) \<noteq> []" "\<exists>ing. Ingress app = Inr ing"
    "WantsHPA app \<Longrightarrow> \<exists>h. HPA app = HPA_ok h"
proof -
  have ps: "declared_ports app \<noteq> []" "distinct (map portKeyOf (declared_ports app))"
    and want: "ws_IngressPortName (wa_Spec app) \<noteq> [] \<Longrightarrow>
      ws_IngressPortName (wa_Spec app) \<in> portName ` set (declared_ports app)"
    and auto: "autoscaling_ok app"
    using assms by (auto simp: valid_spec_def Let_def)
  then have names: "PortNames app = map portName (declared_ports app)"
    by (simp add: PortNames_def allPorts_id)
  show "sv_Ports (Service app) \<noteq> []"
    using ps by (simp add: servicePorts_Nil_iff)
  have "\<exists>n. backendPort app = Inr n"
    unfolding ports.resolves_iff using ps want by (auto simp: names)
  then show "\<exists>ing. Ingress app = Inr ing"
    by (simp add: Ingress_built_iff)
  show "\<exists>h. HPA app = HPA_ok h" if "WantsHPA app"
    using that auto WantsHPA_D [OF that] by (auto simp: HPA_ok_iff autoscaling_ok_def)
qed

lemma evaluatePolicies_accepts:
  assumes "pr_List r = Inr policies" "pr_GetNamespace r (app_Namespace app) = Inr nsLabels"
  shows "\<exists>res. evaluatePolicies X \<lparr>wv_Reader = Some r\<rparr> app = Inr res \<and>
    (re_Violations res = [] \<longleftrightarrow>
      (\<forall>p \<in> set policies. in_force X nsLabels p \<longrightarrow> enforces p \<longrightarrow> complies X app p))"
  using assms full.loop_accepts_iff [of X app nsLabels policies]
  by (auto simp: evaluatePolicies_def Evaluate_def violations_complies empty_Result_def)

end
