(* ===== verification/Warp_Runs.thy ===== *)
theory Warp_Runs
  imports Warp_Reconcile Warp_Admission
begin

text \<open>
  Whole runs of the reconciler: which writes they make, in which order, after what, and how they end.
\<close>

section \<open>Applies\<close>

lemma Ingress_of_app: "Ingress app = Inr i \<Longrightarrow> kind_of (OIngress i) = KIngress"
  by simp

lemma sync_optional_apply:
  assumes adopted: "adopted X (reader r) app (kind_of obj) = A"
    and des: "\<And>tr. desired X app tr obj"
  shows "triple (\<lambda>tr. keeps (apply_ok X (reader r) app) tr \<and> (sync_allowed X (reader r) app tr \<and> A tr))
    (apply_config S obj)
    (\<lambda>_ tr. keeps (apply_ok X (reader r) app) tr \<and> (sync_allowed X (reader r) app tr \<and> A tr))"
proof (rule apply_config_justified)
  show "apply_justified X (reader r) app tr obj" if "sync_allowed X (reader r) app tr \<and> A tr" for tr
    using that des by (simp add: apply_justified_def adopted)
  show "stable (\<lambda>tr. sync_allowed X (reader r) app tr \<and> A tr)"
    unfolding adopted [symmetric] by (intro stable_conj stable_justified stable_facts)
qed

lemma assertAdoptable_keeps:
  "triple (\<lambda>tr. keeps (apply_ok X (reader r) app) tr \<and> sync_allowed X (reader r) app tr)
     (assertAdoptable X S r app kd t)
     (\<lambda>x tr. keeps (apply_ok X (reader r) app) tr \<and>
        (sync_allowed X (reader r) app tr \<and> (x = None \<longrightarrow> adopted X (reader r) app kd tr)))"
  by (rule applying_harmless [OF emits_assertAdoptable])
    (rule harmless_step [OF assertAdoptable_fact emits_assertAdoptable stable_justified(1)])

lemma deleteOwned_applies:
  "triple (keeps (apply_ok X src app)) (deleteOwned X S app kd) (\<lambda>_. keeps (apply_ok X src app))"
  by (rule applying.quiet, rule emits_mono [OF emits_deleteOwned])
    (auto dest: harmless_kinds(1) elim!: is_delete.elims)

lemma event_applies:
  "triple (keeps (apply_ok X src app)) (tell (RecordEvent a t u m)) (\<lambda>_. keeps (apply_ok X src app))"
  by (rule applying.quiet) simp

lemma syncIngress_applies:
  assumes "codecs_faithful X"
  shows "triple (\<lambda>tr. keeps (apply_ok X (reader r) app) tr \<and> sync_allowed X (reader r) app tr)
    (syncIngress X S r app) (\<lambda>_. keeps (apply_ok X (reader r) app))"
proof (cases "WantsIngress app")
  case False
  then show ?thesis
    unfolding syncIngress_def by simp (rule triple_pre [OF deleteOwned_applies], simp)
next
  case True
  show ?thesis
  proof (cases "Ingress app")
    case (Inl err)
    then show ?thesis
      using True by (auto simp: syncIngress_def intro!: triple_bind [OF triple_pre [OF event_applies]])
  next
    case (Inr ing)
    have codec: "toApplyConfig X (OIngress ing) = Inr (OIngress ing)"
      using assms by (simp add: codecs_faithful_def)
    have step: "triple (\<lambda>tr. keeps (apply_ok X (reader r) app) tr \<and>
          (sync_allowed X (reader r) app tr \<and> adopted X (reader r) app KIngress tr))
        (apply_config S (OIngress ing))
        (\<lambda>_ tr. keeps (apply_ok X (reader r) app) tr)"
      by (rule triple_post, rule sync_optional_apply) (auto simp: True Inr)
    show ?thesis
      unfolding syncIngress_def Inr codec sum.case using True
      apply simp
      apply (rule triple_bind [OF assertAdoptable_keeps])
      apply (rule triple_option)
       apply (rule triple_bind [OF triple_pre [OF step]], simp)
       apply (rule triple_option)
        apply (rule triple_return, simp)
       apply (rule triple_bind [OF event_applies])
       apply (rule triple_return, simp)
      apply (rule triple_return, simp)
      done
  qed
qed

lemma syncHPA_applies:
  assumes "codecs_faithful X"
  shows "triple (\<lambda>tr. keeps (apply_ok X (reader r) app) tr \<and> sync_allowed X (reader r) app tr)
    (syncHPA X S r app) (\<lambda>_. keeps (apply_ok X (reader r) app))"
proof (cases "WantsHPA app")
  case False
  then show ?thesis
    unfolding syncHPA_def by simp (rule triple_pre [OF deleteOwned_applies], simp)
next
  case True
  show ?thesis
  proof (cases "HPA app")
    case HPA_panic
    with HPA_guarded [OF True] show ?thesis by simp
  next
    case (HPA_error err)
    then show ?thesis
      using True by (auto simp: syncHPA_def intro!: triple_bind [OF triple_pre [OF event_applies]])
  next
    case (HPA_ok h)
    have codec: "toApplyConfig X (OHPA h) = Inr (OHPA h)"
      using assms by (simp add: codecs_faithful_def)
    have step: "triple (\<lambda>tr. keeps (apply_ok X (reader r) app) tr \<and>
          (sync_allowed X (reader r) app tr \<and> adopted X (reader r) app KHPA tr))
        (apply_config S (OHPA h))
        (\<lambda>_ tr. keeps (apply_ok X (reader r) app) tr)"
      by (rule triple_post, rule sync_optional_apply) (auto simp: True HPA_ok)
    show ?thesis
      unfolding syncHPA_def HPA_ok codec sum.case hpa_result.case using True
      apply simp
      apply (rule triple_bind [OF assertAdoptable_keeps])
      apply (rule triple_option)
       apply (rule triple_bind [OF triple_pre [OF step]], simp)
       apply (rule triple_return, simp)
      apply (rule triple_return, simp)
      done
  qed
qed

lemma sync_applies:
  assumes "codecs_faithful X"
  shows "triple (keeps (apply_ok X (reader r) app)) (sync X S r app) (\<lambda>_. keeps (apply_ok X (reader r) app))"
proof -
  let ?k = "keeps (apply_ok X (reader r) app)"
  have prep: "triple (\<lambda>tr. ?k tr) (sync_prepare X S r app)
      (\<lambda>x tr. ?k tr \<and> (\<forall>acs. x = Inr acs \<longrightarrow> prepared X (reader r) app acs tr))"
    using applying_harmless [OF emits_sync_prepare sync_prepare_fact [OF assms]] by simp
  have dep: "triple (\<lambda>tr. ?k tr \<and> prepared X (reader r) app acs tr) (apply_config S (ODeployment (fst acs)))
      (\<lambda>_ tr. ?k tr \<and> prepared X (reader r) app acs tr)" for acs
    by (rule apply_config_justified) (simp add: prepared_def, rule stable_prepared)
  have svc: "triple (\<lambda>tr. ?k tr \<and> prepared X (reader r) app acs tr) (apply_config S (OService (snd acs)))
      (\<lambda>_ tr. ?k tr \<and> prepared X (reader r) app acs tr)" for acs
    by (rule apply_config_justified) (simp add: prepared_def, rule stable_prepared)
  have ing: "triple (\<lambda>tr. ?k tr \<and> sync_allowed X (reader r) app tr) (syncIngress X S r app)
      (\<lambda>_ tr. ?k tr \<and> sync_allowed X (reader r) app tr)"
    using syncIngress_applies [OF assms, of r app S] emits_stable [OF emits_syncIngress, of "sync_allowed X (reader r) app"]
    by (simp add: triple_def)
  show ?thesis
    unfolding sync_def
    apply (rule triple_bind [OF prep])
    apply (rule triple_sum)
     apply (rule triple_return, simp)
    apply (rule triple_bind [OF triple_pre [OF dep]], simp)
    apply (rule triple_option)
     apply (rule triple_bind [OF svc])
     apply (rule triple_option)
      apply (rule triple_bind [OF triple_pre [OF ing]], simp add: prepared_def apply_justified_def)
      apply (rule triple_option)
       apply (rule syncHPA_applies [OF assms])
      apply (rule triple_return, simp)+
    done
qed

section \<open>From the operations to a run\<close>

text \<open>The WebApp as it was read, and as it is synced: with the finalizer, as stored by the server.\<close>

definition read_app :: "WebApp \<Rightarrow> trace \<Rightarrow> bool" where
  "read_app app tr \<longleftrightarrow> (\<exists>k. GetApp k (Inr app) \<in> set tr)"

definition synced_app :: "k8s \<Rightarrow> WebApp \<Rightarrow> trace \<Rightarrow> bool" where
  "synced_app X app tr \<longleftrightarrow>
     (\<exists>base. read_app base tr \<and> app = base\<lparr>wa_Meta := fst (AddFinalizer X (wa_Meta base) Finalizer)\<rparr>) \<or>
     (\<exists>a. UpdateApp a (Inr app) \<in> set tr)"

lemma stable_seen [simp]:
  "stable (read_app app)" "stable (synced_app X app)"
  "stable (\<lambda>tr. read_app app tr \<or> synced_app X app tr)"
  by (auto simp: stable_def read_app_def synced_app_def)

lemma reconcile_rule:
  assumes get: "\<And>tr g. P tr \<Longrightarrow> G g (tr @ [GetApp req g])"
    and quiet: "\<And>e tr. harmless e \<or> is_patch e \<Longrightarrow> Q tr \<Longrightarrow> Q (tr @ [e])"
    and lost: "\<And>e tr. G (Inl e) tr \<Longrightarrow> Q tr"
    and fin: "\<And>base. om_DeletionTimestamp (wa_Meta base) \<noteq> None \<Longrightarrow>
      triple (G (Inr base)) (finalize X S base) (\<lambda>_. Q)"
    and ens: "\<And>base. om_DeletionTimestamp (wa_Meta base) = None \<Longrightarrow>
      triple (G (Inr base)) (ensure_finalizer X S base)
        (\<lambda>x tr. case x of Inl e \<Rightarrow> Q tr | Inr app \<Rightarrow> H app tr)"
    and syn: "\<And>app. triple (H app) (sync X S r app) (\<lambda>_. Q)"
  shows "triple P (reconcile X S r req) (\<lambda>_. Q)"
proof -
  have many: "Q (tr @ new)" if "Q tr" "\<forall>e \<in> set new. harmless e \<or> is_patch e" for tr new
    using that
  proof (induction new rule: rev_induct)
    case (snoc e new)
    then show ?case using quiet [of e "tr @ new"] by simp
  qed simp
  have rest: "triple Q m (\<lambda>_. Q)" if "emits m (\<lambda>e. harmless e \<or> is_patch e)" for m :: "'b run"
    using that many unfolding triple_def emits_def by metis
  show ?thesis
    unfolding reconcile_def client_GetApp_def
    apply (rule triple_bind [OF triple_call [where Q = G]], erule get)
    apply (rule triple_sum)
     apply (rule triple_if)
      apply (rule triple_bind [OF triple_tell [where Q = "\<lambda>_. Q"]], rule quiet, simp, rule lost, simp)
      apply (rule triple_return, simp)
     apply (rule triple_return, rule lost, simp)
    apply (rule triple_if)
     apply (rule triple_bind, rule triple_pre [OF fin], simp, simp, rule triple_return, simp)
    apply (rule triple_bind, rule triple_pre [OF ens], simp, simp)
    apply (rule triple_sum)
     apply (rule triple_return, simp)
    apply (rule triple_bind, rule triple_pre [OF syn], simp)
    apply (rule triple_option)
     apply (rule triple_bind, rule rest, simp add: client_GetDeployment_def)
     apply (rule triple_sum)
      apply (rule triple_if)
       apply (rule triple_return, simp)
      apply (rule rest, rule emits_reconcile_report)
     apply (rule rest, rule emits_reconcile_report)
    apply (rule rest, rule emits_reconcile_failed)
    done
qed

lemma Reconcile_of_reconcile:
  assumes "triple P (reconcile X S r req) (\<lambda>_. Q)" "\<And>e tr. harmless e \<Longrightarrow> Q tr \<Longrightarrow> Q (tr @ [e])"
  shows "triple P (Reconcile X S r req) (\<lambda>_. Q)"
  unfolding Reconcile_def Let_def
  by (rule triple_bind [OF assms(1)])
    (auto intro!: triple_bind [OF triple_tell [where Q = "\<lambda>_. Q"]] assms(2))

lemma ensure_finalizer_synced:
  "triple (\<lambda>tr. read_app base tr \<and> (\<forall>e \<in> set tr. \<not> is_apply e \<and> \<not> is_delete e)) (ensure_finalizer X S base)
     (\<lambda>x tr. (\<forall>e \<in> set tr. \<not> is_apply e \<and> \<not> is_delete e) \<and> (\<forall>app. x = Inr app \<longrightarrow> synced_app X app tr))"
proof -
  obtain m added where AF: "AddFinalizer X (wa_Meta base) Finalizer = (m, added)"
    by fastforce
  have kept: "synced_app X (base\<lparr>wa_Meta := m\<rparr>) tr" if "read_app base tr" for tr
    unfolding synced_app_def using that AF by (metis fst_conv)
  show ?thesis
    unfolding ensure_finalizer_def AF prod.case client_Update_def
    by (rule triple_if; (rule triple_call | rule triple_return))
      (auto simp: kept, auto simp: synced_app_def)
qed

interpretation applying_run: app_rule "apply_ok X src" is_apply "synced_app X" for X src
proof
  show "\<not> is_apply e \<Longrightarrow> apply_ok X src app pre e" for e app pre by (cases e) simp_all
  show "stable (synced_app X app)" for app by simp
qed

abbreviation run_apply_ok :: "k8s \<Rightarrow> source \<Rightarrow> trace \<Rightarrow> effect \<Rightarrow> bool" where
  "run_apply_ok X src \<equiv> for_seen is_apply (synced_app X) (apply_ok X src)"

lemma reconcile_applies:
  assumes "codecs_faithful X"
  shows "triple (\<lambda>tr. tr = []) (Reconcile X S r req) (\<lambda>_. keeps (run_apply_ok X (reader r)))"
proof (rule Reconcile_of_reconcile, rule reconcile_rule)
  let ?none = "\<lambda>tr. \<forall>e \<in> set tr. \<not> is_apply e \<and> \<not> is_delete e"
  let ?G = "\<lambda>g tr. ?none tr \<and> (\<forall>base. g = Inr base \<longrightarrow> read_app base tr)"
  let ?H = "\<lambda>app tr. ?none tr \<and> synced_app X app tr"
  show "?G g (tr @ [GetApp req g])" if "tr = []" for tr g
    using that by (auto simp: read_app_def)
  show quiet: "keeps (run_apply_ok X (reader r)) (tr @ [e])"
    if "harmless e \<or> is_patch e" "keeps (run_apply_ok X (reader r)) tr" for e tr
    using that by (cases e) (simp_all add: for_seen_def)
  then show "keeps (run_apply_ok X (reader r)) (tr @ [e])"
    if "harmless e" "keeps (run_apply_ok X (reader r)) tr" for e tr
    using that by blast
  have none: "keeps (run_apply_ok X (reader r)) tr" if "?none tr" for tr
    using applying_run.whole.keeps_quiet [of X "reader r" "[]" tr] that by simp
  show "keeps (run_apply_ok X (reader r)) tr" if "?G (Inl e) tr" for e tr
    using that none by simp
  show "triple (?G (Inr base)) (finalize X S base) (\<lambda>_. keeps (run_apply_ok X (reader r)))" for base
    by (rule triple_pre [OF applying_run.whole.quiet [OF emits_mono [OF emits_finalize]]])
      (auto simp: none dest: harmless_kinds(1) elim!: is_delete.elims is_update.elims)
  show "triple (?G (Inr base)) (ensure_finalizer X S base)
      (\<lambda>x tr. case x of Inl e \<Rightarrow> keeps (run_apply_ok X (reader r)) tr | Inr app \<Rightarrow> ?H app tr)" for base
    by (rule triple_conseq [OF ensure_finalizer_synced]) (auto simp: none split: sum.split)
  show "triple (?H app) (sync X S r app) (\<lambda>_. keeps (run_apply_ok X (reader r)))" for app
    by (rule triple_pre [OF applying_run.lift [OF sync_applies [OF assms] emits_sync]]) simp
qed

abbreviation run_trace :: "k8s \<Rightarrow> server \<Rightarrow> WebAppReconciler \<Rightarrow> object_key \<Rightarrow> trace" where
  "run_trace X S r req \<equiv> snd (run_state (Reconcile X S r req) [])"

lemma run_applies:
  assumes "codecs_faithful X"
    and "run_trace X S r req = pre @ ApplyObject obj owner force reply # post"
  obtains app where "synced_app X app pre" "owner = FieldOwner" "force"
    "apply_justified X (reader r) app pre obj"
proof -
  have "keeps (run_apply_ok X (reader r)) (run_trace X S r req)"
    using tripleD [OF reconcile_applies [OF assms(1)]] by simp
  with assms(2) have "run_apply_ok X (reader r) pre (ApplyObject obj owner force reply)"
    unfolding keeps_iff by blast
  with that show thesis by (auto simp: for_seen_def)
qed

end
