(* ===== verification/Warp_Lifecycle.thy ===== *)
theory Warp_Lifecycle
  imports Warp_Runs
begin

text \<open>
  Deletions and the finalizer: what a run may delete, when it may rewrite the WebApp, and that the
  finalizer goes last.
\<close>

section \<open>Deletions\<close>

text \<open>The kinds a WebApp has no use for: all of them once it is being deleted.\<close>

definition unwanted :: "WebApp \<Rightarrow> kind \<Rightarrow> bool" where
  "unwanted app kd \<longleftrightarrow>
     om_DeletionTimestamp (wa_Meta app) \<noteq> None \<or>
     kd = KIngress \<and> \<not> WantsIngress app \<or> kd = KHPA \<and> \<not> WantsHPA app"

fun delete_ok :: "k8s \<Rightarrow> WebApp \<Rightarrow> trace \<Rightarrow> effect \<Rightarrow> bool" where
  "delete_ok X app pre (DeleteObject obj reply) \<longleftrightarrow>
     unwanted app (kind_of obj) \<and> IsControlledBy X (meta_of obj) (wa_Meta app) \<and>
     pre \<noteq> [] \<and> last pre = GetObject CachedClient (kind_of obj) (ObjectKeyFromObject app) (Inr obj)"
| "delete_ok X app pre _ \<longleftrightarrow> True"

definition read_or_synced :: "k8s \<Rightarrow> WebApp \<Rightarrow> trace \<Rightarrow> bool" where
  "read_or_synced X app tr \<longleftrightarrow> read_app app tr \<or> synced_app X app tr"

interpretation deleting: app_rule "delete_ok X" is_delete "read_or_synced X" for X
proof
  show "\<not> is_delete e \<Longrightarrow> delete_ok X app pre e" for e app pre by (cases e) simp_all
  show "stable (read_or_synced X app)" for app unfolding read_or_synced_def by simp
qed

interpretation deleting_app: effect_rule "delete_ok X app" is_delete for X app
  by unfold_locales (rule deleting.others)

lemma deleteOwned_deletes:
  assumes "unwanted app kd"
  shows "triple (keeps (delete_ok X app)) (deleteOwned X S app kd) (\<lambda>_. keeps (delete_ok X app))"
  using assms
  by (auto simp: triple_def deleteOwned_def client_defs keeps_append dest: get_typed_kind split: sum.split)

lemma delete_all_deletes:
  assumes "om_DeletionTimestamp (wa_Meta app) \<noteq> None"
  shows "triple (keeps (delete_ok X app)) (delete_all X S app kds) (\<lambda>_. keeps (delete_ok X app))"
proof (induction kds)
  case (Cons kd kds)
  have "unwanted app kd" using assms by (simp add: unwanted_def)
  note deleteOwned_deletes [OF this, of X S]
  with Cons.IH show ?case
    by (auto intro!: triple_bind triple_option)
qed auto

lemma harmless_deletes:
  "emits m (\<lambda>e. harmless e \<or> is_apply e \<or> is_update e) \<Longrightarrow>
     triple (keeps (delete_ok X app)) m (\<lambda>_. keeps (delete_ok X app))"
  by (erule deleting_app.quiet [OF emits_mono])
    (auto dest: harmless_kinds(2) elim!: is_apply.elims is_update.elims)

lemma finalize_deletes:
  assumes "om_DeletionTimestamp (wa_Meta app) \<noteq> None"
  shows "triple (keeps (delete_ok X app)) (finalize X S app) (\<lambda>_. keeps (delete_ok X app))"
  unfolding finalize_def
  by (intro triple_if triple_return triple_bind [OF delete_all_deletes [OF assms]] triple_option)
    (auto intro!: harmless_deletes emits_bind simp: client_defs)

lemma syncIngress_deletes:
  "triple (keeps (delete_ok X app)) (syncIngress X S r app) (\<lambda>_. keeps (delete_ok X app))"
proof (cases "WantsIngress app")
  case False
  then show ?thesis
    unfolding syncIngress_def by (simp add: deleteOwned_deletes unwanted_def)
next
  case True
  have "emits (syncIngress X S r app) (\<lambda>e. harmless e \<or> is_apply e \<or> is_update e)"
    unfolding syncIngress_def apply_config_def client_defs using True
    by (auto intro!: emits_bind emits_mono [OF emits_assertAdoptable] split: sum.split option.split)
  then show ?thesis by (rule harmless_deletes)
qed

lemma syncHPA_deletes:
  "triple (keeps (delete_ok X app)) (syncHPA X S r app) (\<lambda>_. keeps (delete_ok X app))"
proof (cases "WantsHPA app")
  case False
  then show ?thesis
    unfolding syncHPA_def by (simp add: deleteOwned_deletes unwanted_def)
next
  case True
  have "emits (syncHPA X S r app) (\<lambda>e. harmless e \<or> is_apply e \<or> is_update e)"
    unfolding syncHPA_def apply_config_def client_defs using True
    by (auto intro!: emits_bind emits_mono [OF emits_assertAdoptable] dest: HPA_guarded
        split: sum.split option.split hpa_result.split)
  then show ?thesis by (rule harmless_deletes)
qed

lemma sync_deletes:
  "triple (keeps (delete_ok X app)) (sync X S r app) (\<lambda>_. keeps (delete_ok X app))"
proof -
  have prep: "triple (keeps (delete_ok X app)) (sync_prepare X S r app) (\<lambda>_. keeps (delete_ok X app))"
    by (rule harmless_deletes) (rule emits_mono [OF emits_sync_prepare], simp)
  have app: "triple (keeps (delete_ok X app)) (apply_config S obj) (\<lambda>_. keeps (delete_ok X app))" for obj
    by (rule harmless_deletes) (simp add: apply_config_def client_defs)
  show ?thesis
    unfolding sync_def
    by (intro triple_bind [OF prep] triple_bind [OF app] triple_sum triple_option triple_return
        triple_bind [OF syncIngress_deletes] syncHPA_deletes)
qed

abbreviation run_delete_ok :: "k8s \<Rightarrow> trace \<Rightarrow> effect \<Rightarrow> bool" where
  "run_delete_ok X \<equiv> for_seen is_delete (read_or_synced X) (delete_ok X)"

lemma reconcile_deletes:
  "triple (\<lambda>tr. tr = []) (Reconcile X S r req) (\<lambda>_. keeps (run_delete_ok X))"
proof (rule Reconcile_of_reconcile, rule reconcile_rule)
  let ?none = "\<lambda>tr. \<forall>e \<in> set tr. \<not> is_apply e \<and> \<not> is_delete e"
  let ?G = "\<lambda>g tr. ?none tr \<and> (\<forall>base. g = Inr base \<longrightarrow> read_app base tr)"
  let ?H = "\<lambda>app tr. ?none tr \<and> synced_app X app tr"
  show "?G g (tr @ [GetApp req g])" if "tr = []" for tr g
    using that by (auto simp: read_app_def)
  show quiet: "keeps (run_delete_ok X) (tr @ [e])"
    if "harmless e \<or> is_patch e" "keeps (run_delete_ok X) tr" for e tr
    using that by (cases e) (simp_all add: for_seen_def)
  then show "keeps (run_delete_ok X) (tr @ [e])"
    if "harmless e" "keeps (run_delete_ok X) tr" for e tr
    using that by blast
  have none: "keeps (run_delete_ok X) tr" if "?none tr" for tr
    using deleting.whole.keeps_quiet [of X "[]" tr] that by simp
  show "keeps (run_delete_ok X) tr" if "?G (Inl e) tr" for e tr
    using that none by simp
  show "triple (?G (Inr base)) (finalize X S base) (\<lambda>_. keeps (run_delete_ok X))"
    if "om_DeletionTimestamp (wa_Meta base) \<noteq> None" for base
    by (rule triple_pre [OF deleting.lift [OF finalize_deletes [OF that] emits_finalize]])
      (simp add: read_or_synced_def)
  show "triple (?G (Inr base)) (ensure_finalizer X S base)
      (\<lambda>x tr. case x of Inl e \<Rightarrow> keeps (run_delete_ok X) tr | Inr app \<Rightarrow> ?H app tr)" for base
    by (rule triple_conseq [OF ensure_finalizer_synced]) (auto simp: none split: sum.split)
  show "triple (?H app) (sync X S r app) (\<lambda>_. keeps (run_delete_ok X))" for app
    by (rule triple_pre [OF deleting.lift [OF sync_deletes emits_sync]]) (simp add: read_or_synced_def)
qed

section \<open>Rewriting the WebApp\<close>

text \<open>
  A run updates the WebApp in two cases: to add the finalizer to a WebApp that is not being deleted, and
  to remove it once each of the four owned objects was found missing or foreign, or was deleted. The WebApp
  it goes by is the one its first call has read.
\<close>

definition first_read :: "WebApp \<Rightarrow> trace \<Rightarrow> bool" where
  "first_read app tr \<longleftrightarrow> (\<exists>k es. tr = GetApp k (Inr app) # es)"

lemma stable_first_read [simp]: "stable (first_read app)"
  by (auto simp: stable_def first_read_def)

lemma first_read_app: "first_read app tr \<Longrightarrow> read_app app tr"
  unfolding first_read_def read_app_def by (metis list.set_intros(1))

fun update_ok :: "k8s \<Rightarrow> WebApp \<Rightarrow> trace \<Rightarrow> effect \<Rightarrow> bool" where
  "update_ok X app pre (UpdateApp a reply) \<longleftrightarrow>
     (if om_DeletionTimestamp (wa_Meta app) = None
      then AddFinalizer X (wa_Meta app) Finalizer = (wa_Meta a, True) \<and> a = app\<lparr>wa_Meta := wa_Meta a\<rparr>
      else a = app\<lparr>wa_Meta := RemoveFinalizer X (wa_Meta app) Finalizer\<rparr> \<and>
           ContainsFinalizer X (wa_Meta app) Finalizer \<and> (\<forall>kd. released X app kd pre))"
| "update_ok X app pre _ \<longleftrightarrow> True"

interpretation updating: app_rule "update_ok X" is_update first_read for X
proof
  show "\<not> is_update e \<Longrightarrow> update_ok X app pre e" for e app pre by (cases e) simp_all
qed simp

interpretation updating_app: effect_rule "update_ok X app" is_update for X app
  by unfold_locales (rule updating.others)

lemma delete_all_fact:
  "triple F (delete_all X S app kds) (\<lambda>x tr. x = None \<longrightarrow> (\<forall>kd \<in> set kds. released X app kd tr))"
proof (induction kds arbitrary: F)
  case (Cons kd kds)
  have one: "triple F (deleteOwned X S app kd) (\<lambda>x tr. x = None \<longrightarrow> released X app kd tr)"
    by (rule triple_pre [OF deleteOwned_fact]) simp
  have more: "triple (released X app kd) (delete_all X S app kds)
      (\<lambda>x tr. released X app kd tr \<and> (x = None \<longrightarrow> (\<forall>k \<in> set kds. released X app k tr)))"
    using Cons.IH emits_stable [OF emits_delete_all stable_facts(4)] by (simp add: triple_def)
  show ?case
    by (auto intro!: triple_bind [OF one] triple_option triple_conseq [OF more])
qed auto

lemma all_kinds: "(\<forall>kd. P kd) \<longleftrightarrow> (\<forall>kd \<in> set finalizer_kinds. P kd)"
  by (auto simp: finalizer_kinds_def) (metis kind.exhaust)

lemma finalize_updates:
  assumes "om_DeletionTimestamp (wa_Meta app) \<noteq> None"
  shows "triple (keeps (update_ok X app)) (finalize X S app) (\<lambda>_. keeps (update_ok X app))"
proof (cases "ContainsFinalizer X (wa_Meta app) Finalizer")
  case True
  let ?R = "\<lambda>tr. keeps (update_ok X app) tr \<and> (\<forall>kd. released X app kd tr)"
  have del: "triple (keeps (update_ok X app)) (delete_all X S app finalizer_kinds)
      (\<lambda>x tr. keeps (update_ok X app) tr \<and> (x = None \<longrightarrow> (\<forall>kd. released X app kd tr)))"
  proof -
    have "emits (delete_all X S app finalizer_kinds) (\<lambda>e. \<not> is_update e)"
      by (rule emits_mono [OF emits_delete_all]) (auto dest: harmless_kinds(3) elim!: is_delete.elims)
    from updating_app.quiet [OF this] delete_all_fact [of "\<lambda>_. True" X S app finalizer_kinds]
    show ?thesis unfolding triple_def all_kinds by auto
  qed
  have say: "triple ?R (tell e) (\<lambda>_. ?R)" if "harmless e" for e
  proof -
    have "released X app kd (tr @ [e])" if "released X app kd tr" for kd tr
      using that stable_facts(4) [of X app kd] by (simp add: stable_def)
    moreover have "update_ok X app tr e" for tr
      using \<open>harmless e\<close> updating.others harmless_kinds(3) by blast
    ultimately show ?thesis by (auto simp: triple_def)
  qed
  have upd: "triple ?R (client_Update S (app\<lparr>wa_Meta := RemoveFinalizer X (wa_Meta app) Finalizer\<rparr>))
      (\<lambda>_. keeps (update_ok X app))"
    unfolding client_Update_def using assms True by (auto simp: triple_def)
  show ?thesis
    unfolding finalize_def
    apply (simp only: True not_True_eq_False if_False)
    apply (rule triple_bind [OF del])
    apply (rule triple_option)
     apply (rule triple_bind [OF triple_pre [OF say]], simp, simp)
     apply (rule triple_bind [OF say], simp)
     apply (rule triple_bind [OF upd])
     apply (rule triple_return, simp)+
    done
qed (auto simp: finalize_def)

lemma ensure_finalizer_updates:
  assumes "om_DeletionTimestamp (wa_Meta app) = None"
  shows "triple (keeps (update_ok X app)) (ensure_finalizer X S app) (\<lambda>_. keeps (update_ok X app))"
  unfolding ensure_finalizer_def client_Update_def using assms
  by (auto simp: triple_def split: prod.split)

abbreviation run_update_ok :: "k8s \<Rightarrow> trace \<Rightarrow> effect \<Rightarrow> bool" where
  "run_update_ok X \<equiv> for_seen is_update first_read (update_ok X)"

lemma reconcile_updates:
  "triple (\<lambda>tr. tr = []) (Reconcile X S r req) (\<lambda>_. keeps (run_update_ok X))"
proof (rule Reconcile_of_reconcile, rule reconcile_rule)
  let ?none = "\<lambda>tr. \<forall>e \<in> set tr. \<not> is_update e"
  let ?G = "\<lambda>g tr. ?none tr \<and> (\<forall>base. g = Inr base \<longrightarrow> first_read base tr)"
  show "?G g (tr @ [GetApp req g])" if "tr = []" for tr g
    using that by (auto simp: first_read_def)
  show quiet: "keeps (run_update_ok X) (tr @ [e])"
    if "harmless e \<or> is_patch e" "keeps (run_update_ok X) tr" for e tr
    using that by (cases e) (simp_all add: for_seen_def)
  then show "keeps (run_update_ok X) (tr @ [e])"
    if "harmless e" "keeps (run_update_ok X) tr" for e tr
    using that by blast
  show "keeps (run_update_ok X) tr" if "?G (Inl e) tr" for e tr
    using that updating.whole.keeps_quiet [of X "[]" tr] by simp
  show "triple (?G (Inr base)) (finalize X S base) (\<lambda>_. keeps (run_update_ok X))"
    if "om_DeletionTimestamp (wa_Meta base) \<noteq> None" for base
    by (rule triple_pre [OF updating.lift [OF finalize_updates [OF that] emits_finalize]]) simp
  show "triple (?G (Inr base)) (ensure_finalizer X S base)
      (\<lambda>x tr. case x of Inl e \<Rightarrow> keeps (run_update_ok X) tr | Inr app \<Rightarrow> keeps (run_update_ok X) tr)"
    if "om_DeletionTimestamp (wa_Meta base) = None" for base
    by (rule triple_conseq [OF updating.lift [OF ensure_finalizer_updates [OF that] emits_ensure_finalizer]])
      (simp_all split: sum.split)
  show "triple (keeps (run_update_ok X)) (sync X S r app) (\<lambda>_. keeps (run_update_ok X))" for app
    by (rule updating.whole.quiet [OF emits_mono [OF emits_sync]])
      (auto dest: harmless_kinds(3) elim!: is_delete.elims is_apply.elims)
qed

lemma run_deletes:
  assumes "run_trace X S r req = pre @ DeleteObject obj reply # post"
  obtains app where "read_or_synced X app pre" "delete_ok X app pre (DeleteObject obj reply)"
proof -
  have "keeps (run_delete_ok X) (run_trace X S r req)"
    using tripleD [OF reconcile_deletes] by simp
  with assms have "run_delete_ok X pre (DeleteObject obj reply)"
    unfolding keeps_iff by blast
  with that show thesis by (auto simp: for_seen_def)
qed

lemma run_updates:
  assumes "run_trace X S r req = pre @ UpdateApp a reply # post"
  obtains app where "first_read app pre" "update_ok X app pre (UpdateApp a reply)"
proof -
  have "keeps (run_update_ok X) (run_trace X S r req)"
    using tripleD [OF reconcile_updates] by simp
  with assms have "run_update_ok X pre (UpdateApp a reply)"
    unfolding keeps_iff by blast
  with that show thesis by (auto simp: for_seen_def simp del: update_ok.simps)
qed

end
