(* ===== verification/Warp_Outcomes.thy ===== *)
theory Warp_Outcomes
  imports Warp_Lifecycle
begin

text \<open>
  How a run ends: what is applied in which order, when a sync succeeds, what an error leads to, and what
  the status and the metrics say afterwards.
\<close>

section \<open>The order of applies\<close>

text \<open>The applies of a trace, each with its reply.\<close>

fun applied :: "trace \<Rightarrow> (kind \<times> go_error option) list" where
  "applied [] = []"
| "applied (ApplyObject obj owner force reply # es) = (kind_of obj, reply) # applied es"
| "applied (e # es) = applied es"

lemma applied_append [simp]: "applied (tr @ es) = applied tr @ applied es"
proof (induction tr)
  case (Cons e tr)
  then show ?case by (cases e) simp_all
qed simp

lemma applied_quiet: "\<forall>e \<in> set es. \<not> is_apply e \<Longrightarrow> applied es = []"
proof (induction es)
  case (Cons e es)
  then show ?case by (cases e) simp_all
qed simp

lemma applied_frame:
  assumes "emits m (\<lambda>e. \<not> is_apply e)"
  shows "triple (\<lambda>tr. Q (applied tr)) m (\<lambda>_ tr. Q (applied tr))"
  using assms applied_quiet unfolding triple_def emits_def by (metis append_Nil2 applied_append)

lemma emits_no_apply:
  "emits (sync_prepare X S r app) (\<lambda>e. \<not> is_apply e)"
  "emits (assertAdoptable X S r app kd t) (\<lambda>e. \<not> is_apply e)"
  "emits (deleteOwned X S app kd) (\<lambda>e. \<not> is_apply e)"
  "emits (finalize X S app) (\<lambda>e. \<not> is_apply e)"
  "emits (ensure_finalizer X S app) (\<lambda>e. \<not> is_apply e)"
  by (rule emits_mono [OF emits_sync_prepare] emits_mono [OF emits_assertAdoptable]
      emits_mono [OF emits_deleteOwned] emits_mono [OF emits_finalize]
      emits_mono [OF emits_ensure_finalizer], auto dest: effect_kinds)+

text \<open>A log of applies is orderly when the kinds come in this order and only the last may have failed.\<close>

definition orderly :: "(kind \<times> go_error option) list \<Rightarrow> bool" where
  "orderly as \<longleftrightarrow>
     subseq (map fst as) [KDeployment, KService, KIngress, KHPA] \<and>
     (\<forall>a \<in> set (butlast as). snd a = None)"

definition base_applied :: "(kind \<times> go_error option) list \<Rightarrow> bool" where
  "base_applied as \<longleftrightarrow> as = [(KDeployment, None), (KService, None)]"

definition ingress_done :: "go_error option \<Rightarrow> (kind \<times> go_error option) list \<Rightarrow> bool" where
  "ingress_done x as \<longleftrightarrow>
     (if x = None
      then as \<in> {[(KDeployment, None), (KService, None)], [(KDeployment, None), (KService, None), (KIngress, None)]}
      else orderly as)"

lemma apply_config_log:
  "triple (\<lambda>tr. applied tr = as) (apply_config S obj) (\<lambda>x tr. applied tr = as @ [(kind_of obj, x)])"
  by (auto simp: triple_def apply_config_def client_Apply_def)

lemma kind_of_toApplyConfig: "toApplyConfig X obj = Inr ac \<Longrightarrow> kind_of ac = kind_of obj"
  by (cases obj) (auto simp: map_sum_def split: sum.splits)

lemma syncIngress_log:
  "triple (\<lambda>tr. base_applied (applied tr)) (syncIngress X S r app) (\<lambda>x tr. ingress_done x (applied tr))"
proof (cases "WantsIngress app")
  case False
  have "triple (\<lambda>tr. base_applied (applied tr)) (deleteOwned X S app KIngress) (\<lambda>_ tr. base_applied (applied tr))"
    by (rule applied_frame [OF emits_no_apply(3)])
  then show ?thesis
    using False unfolding syncIngress_def
    by (auto elim!: triple_post simp: base_applied_def ingress_done_def orderly_def)
next
  case True
  let ?B = "\<lambda>tr. base_applied (applied tr)"
  have fail: "ingress_done (Some e) as" if "base_applied as" for e as
    using that by (simp add: base_applied_def ingress_done_def orderly_def)
  have say: "triple (\<lambda>tr. Q (applied tr)) (tell (RecordEvent a t u m)) (\<lambda>_ tr. Q (applied tr))" for Q a t u m
    by (rule applied_frame) simp
  have ask: "triple ?B (assertAdoptable X S r app KIngress t) (\<lambda>_. ?B)" for t
    by (rule applied_frame [OF emits_no_apply(2)])
  have put: "triple ?B (apply_config S ac)
      (\<lambda>x tr. applied tr = [(KDeployment, None), (KService, None), (KIngress, x)])"
    if "kind_of ac = KIngress" for ac
    using apply_config_log [of "[(KDeployment, None), (KService, None)]" S ac] that
    by (simp add: base_applied_def triple_def)
  show ?thesis
    unfolding syncIngress_def using True
    apply (simp del: toApplyConfig.simps)
    apply (rule triple_sum)
     apply (rule triple_bind [OF say], rule triple_return, erule fail)
    apply (rule triple_sum)
     apply (rule triple_return, erule fail)
    apply (rule triple_bind [OF ask])
    apply (rule triple_option)
     apply (rule triple_bind [OF put])
      apply (metis kind_of_toApplyConfig kind_of.simps(3))
     apply (rule triple_option)
      apply (rule triple_return, simp add: ingress_done_def)
     apply (rule triple_bind)
      apply (rule say)
     apply (rule triple_return, simp add: ingress_done_def orderly_def)
    apply (rule triple_return, erule fail)
    done
qed

lemma syncHPA_log:
  "triple (\<lambda>tr. ingress_done None (applied tr)) (syncHPA X S r app) (\<lambda>_ tr. orderly (applied tr))"
proof -
  let ?B = "\<lambda>tr. ingress_done None (applied tr)"
  have stop: "orderly as" if "ingress_done None as" for as
    using that by (auto simp: ingress_done_def orderly_def)
  have say: "triple ?B (tell e) (\<lambda>_. ?B)" if "\<not> is_apply e" for e
    by (rule applied_frame) (simp add: that)
  have ask: "triple ?B (assertAdoptable X S r app KHPA t) (\<lambda>_. ?B)" for t
    by (rule applied_frame [OF emits_no_apply(2)])
  have put: "triple ?B (apply_config S ac) (\<lambda>_ tr. orderly (applied tr))" if "kind_of ac = KHPA" for ac
    unfolding triple_def apply_config_def client_Apply_def run_call
    using that by (auto simp: ingress_done_def orderly_def)
  have del: "triple ?B (deleteOwned X S app KHPA) (\<lambda>_ tr. orderly (applied tr))"
    by (rule triple_post, rule applied_frame [OF emits_no_apply(3)], erule stop)
  show ?thesis
  proof (cases "WantsHPA app")
    case False
    then show ?thesis using del by (simp add: syncHPA_def)
  next
    case True
    show ?thesis
    proof (cases "HPA app")
      case HPA_panic
      with HPA_guarded [OF True] show ?thesis by simp
    next
      case (HPA_error err)
      show ?thesis
        unfolding syncHPA_def using True HPA_error
        by (auto intro!: triple_bind [OF say] triple_return stop)
    next
      case (HPA_ok h)
      show ?thesis
        unfolding syncHPA_def using True HPA_ok
        apply (simp del: toApplyConfig.simps)
        apply (rule triple_sum)
         apply (rule triple_return, erule stop)
        apply (rule triple_bind [OF ask])
        apply (rule triple_option)
         apply (rule triple_bind [OF put])
          apply (metis kind_of_toApplyConfig kind_of.simps(4))
         apply (rule triple_return, simp)
        apply (rule triple_return, erule stop)
        done
    qed
  qed
qed

lemma sync_log: "triple (\<lambda>tr. applied tr = []) (sync X S r app) (\<lambda>_ tr. orderly (applied tr))"
proof -
  have prep: "triple (\<lambda>tr. applied tr = []) (sync_prepare X S r app) (\<lambda>_ tr. applied tr = [])"
    by (rule applied_frame [OF emits_no_apply(1), where Q = "\<lambda>as. as = []"])
  have first: "triple (\<lambda>tr. applied tr = []) (apply_config S (ODeployment d))
      (\<lambda>x tr. applied tr = [(KDeployment, x)])" for d
    using apply_config_log [of "[]" S "ODeployment d"] by simp
  have second: "triple (\<lambda>tr. applied tr = [(KDeployment, y)]) (apply_config S (OService s))
      (\<lambda>x tr. applied tr = [(KDeployment, y), (KService, x)])" for y s
    using apply_config_log [of "[(KDeployment, y)]" S "OService s"] by simp
  show ?thesis
    unfolding sync_def
    apply (rule triple_bind [OF prep])
    apply (rule triple_sum)
     apply (rule triple_return, simp add: orderly_def)
    apply (rule triple_bind [OF first])
    apply (rule triple_option)
     apply (rule triple_bind [OF second])
     apply (rule triple_option)
      apply (rule triple_bind [OF triple_pre [OF syncIngress_log]], simp add: base_applied_def)
      apply (rule triple_option)
       apply (rule triple_pre [OF syncHPA_log], simp)
      apply (rule triple_return, simp add: ingress_done_def)
     apply (rule triple_return, simp add: orderly_def)+
    done
qed

lemma Reconcile_log: "triple (\<lambda>tr. tr = []) (Reconcile X S r req) (\<lambda>_ tr. orderly (applied tr))"
proof (rule Reconcile_of_reconcile, rule reconcile_rule)
  let ?none = "\<lambda>tr. applied tr = []"
  have Nil: "orderly (applied tr)" if "?none tr" for tr
    using that by (simp add: orderly_def)
  show "?none (tr @ [GetApp req g])" if "tr = []" for tr and g :: "go_error + WebApp"
    using that by simp
  show quiet: "orderly (applied (tr @ [e]))" if "harmless e \<or> is_patch e" "orderly (applied tr)" for e tr
    using that by (cases e) simp_all
  then show "orderly (applied (tr @ [e]))" if "harmless e" "orderly (applied tr)" for e tr
    using that by blast
  show "?none tr \<Longrightarrow> orderly (applied tr)" for tr and e :: go_error
    by (rule Nil)
  show "triple ?none (finalize X S base) (\<lambda>_ tr. orderly (applied tr))" for base
    by (rule triple_post [OF applied_frame [OF emits_no_apply(4), where Q = "\<lambda>as. as = []"]]) (rule Nil)
  show "triple ?none (ensure_finalizer X S base)
      (\<lambda>x tr. case x of Inl e \<Rightarrow> orderly (applied tr) | Inr app \<Rightarrow> ?none tr)" for base
    by (rule triple_post [OF applied_frame [OF emits_no_apply(5), where Q = "\<lambda>as. as = []"]])
      (simp add: orderly_def split: sum.split)
  show "triple ?none (sync X S r app) (\<lambda>_ tr. orderly (applied tr))" for app
    by (rule sync_log)
qed

lemma applied_split:
  assumes "(kd, x) \<in> set (applied tr)"
  obtains pre obj owner force post
  where "tr = pre @ ApplyObject obj owner force x # post" "kind_of obj = kd"
  using assms
proof (induction tr arbitrary: thesis)
  case (Cons e tr)
  show ?case
  proof (cases "(kd, x) \<in> set (applied tr)")
    case True
    with Cons.IH obtain pre obj owner force post
      where "tr = pre @ ApplyObject obj owner force x # post" "kind_of obj = kd" by blast
    with Cons.prems(1) [of "e # pre"] show ?thesis by simp
  next
    case False
    with Cons.prems(2) obtain obj owner force where "e = ApplyObject obj owner force x" "kind_of obj = kd"
      by (cases e) auto
    with Cons.prems(1) [of "[]"] show ?thesis by simp
  qed
qed simp

end
