(* ===== verification/Warp_Progress.thy ===== *)
theory Warp_Progress
  imports Warp_Outcomes
begin

text \<open>
  Progress: what a cooperative API server is enough for, what a WebApp that passed admission can no longer
  run into, and what the reconciler does with an error.
\<close>

section \<open>A cooperative server\<close>

text \<open>
  For the kinds in \<open>K\<close> a read of the WebApp's object finds nothing or an object the WebApp controls, the
  replica cap is respected, and applies and deletes succeed.
\<close>

definition reads_fine :: "k8s \<Rightarrow> server \<Rightarrow> WebApp \<Rightarrow> kind \<Rightarrow> bool" where
  "reads_fine X S app kd \<longleftrightarrow>
     (\<forall>tr src. case get_typed S tr src kd (ObjectKeyFromObject app) of
        Inl err \<Rightarrow> IsNotFound err
      | Inr obj \<Rightarrow> IsControlledBy X (meta_of obj) (wa_Meta app))"

definition cap_fine :: "k8s \<Rightarrow> server \<Rightarrow> source \<Rightarrow> WebApp \<Rightarrow> bool" where
  "cap_fine X S src app \<longleftrightarrow>
     (\<exists>ps ns. (\<forall>tr. srv_ListPolicies S tr src = Inr ps) \<and>
        (\<forall>tr. srv_GetNamespace S tr src (app_Namespace app) = Inr ns) \<and>
        (\<forall>p \<in> set ps. in_force X ns p \<longrightarrow> enforces p \<longrightarrow> replicas_comply app p))"

definition writes_fine :: "server \<Rightarrow> bool" where
  "writes_fine S \<longleftrightarrow>
     (\<forall>tr obj owner force. srv_Apply S tr obj owner force = None) \<and> (\<forall>tr obj. srv_Delete S tr obj = None)"

text \<open>What is built for a buildable WebApp needs no terminal error.\<close>

definition buildable :: "WebApp \<Rightarrow> bool" where
  "buildable app \<longleftrightarrow>
     sv_Ports (Service app) \<noteq> [] \<and>
     (WantsIngress app \<longrightarrow> (\<exists>i. Ingress app = Inr i)) \<and>
     (WantsHPA app \<longrightarrow> (\<exists>h. HPA app = HPA_ok h))"

lemma valid_spec_buildable: "valid_spec X app \<Longrightarrow> buildable app"
  using valid_spec_builds [of X app] by (simp add: buildable_def)

definition wanted_kinds :: "WebApp \<Rightarrow> kind list" where
  "wanted_kinds app = [KDeployment, KService]
     @ (if WantsIngress app then [KIngress] else []) @ (if WantsHPA app then [KHPA] else [])"

lemma log_all_run: "run_state (log_all m ws) tr = ((), tr @ map (LogInfo m) ws)"
  by (induction ws arbitrary: tr) auto

lemma applied_logs [simp]: "applied (map (LogInfo m) ws) = []"
  by (induction ws) auto

lemma assertAdoptable_fine:
  assumes "reads_fine X S app kd"
  shows "fst (run_state (assertAdoptable X S r app kd t) tr) = None"
proof -
  have "case get_typed S tr (reader r) kd (ObjectKeyFromObject app) of
      Inl err \<Rightarrow> IsNotFound err | Inr obj \<Rightarrow> IsControlledBy X (meta_of obj) (wa_Meta app)"
    using assms unfolding reads_fine_def by blast
  then show ?thesis
    by (auto simp: assertAdoptable_def client_defs split: sum.splits)
qed

lemma deleteOwned_fine:
  assumes "reads_fine X S app kd" "writes_fine S"
  shows "fst (run_state (deleteOwned X S app kd) tr) = None"
proof -
  have "case get_typed S tr CachedClient kd (ObjectKeyFromObject app) of
      Inl err \<Rightarrow> IsNotFound err | Inr obj \<Rightarrow> IsControlledBy X (meta_of obj) (wa_Meta app)"
    using assms(1) unfolding reads_fine_def by blast
  then show ?thesis
    using assms(2) by (auto simp: deleteOwned_def client_defs writes_fine_def split: sum.splits)
qed

lemma replicaHold_fine:
  assumes "reads_fine X S app KDeployment"
  shows "\<exists>h. fst (run_state (replicaHold X S app) tr) = Inr h"
proof -
  have "case get_typed S tr CachedClient KDeployment (ObjectKeyFromObject app) of
      Inl err \<Rightarrow> IsNotFound err | Inr obj \<Rightarrow> IsControlledBy X (meta_of obj) (wa_Meta app)"
    using assms unfolding reads_fine_def by blast
  then show ?thesis
    by (auto simp: replicaHold_def client_defs map_sum_def split: sum.splits)
qed

lemma enforceScalePolicy_fine:
  assumes "cap_fine X S (reader r) app"
  shows "fst (run_state (enforceScalePolicy X S r app) tr) = None"
proof -
  obtain ps ns where S: "\<And>tr. srv_ListPolicies S tr (reader r) = Inr ps"
      "\<And>tr. srv_GetNamespace S tr (reader r) (app_Namespace app) = Inr ns"
    and "\<forall>p \<in> set ps. in_force X ns p \<longrightarrow> enforces p \<longrightarrow> replicas_comply app p"
    using assms unfolding cap_fine_def by blast
  then have "re_Violations (EvaluateScale_loop X app ns ps empty_Result) = []"
    by (simp add: scale.loop_accepts_iff replicaViolations_Nil_iff)
  then show ?thesis
    by (simp add: enforceScalePolicy_def client_defs S EvaluateScale_def scale_verdict_def log_all_run)
qed

text \<open>A run of known result that applies nothing passes the log of applies on.\<close>

lemma run_quiet:
  assumes "fst (run_state m tr) = x" "emits m (\<lambda>e. \<not> is_apply e)"
  obtains tr' where "run_state m tr = (x, tr')" "applied tr' = applied tr"
proof -
  have "applied (snd (run_state m tr)) = applied tr"
    using tripleD [OF applied_frame [OF assms(2), of "\<lambda>as. as = applied tr"], of tr] by simp
  with assms(1) show thesis
    using that [of "snd (run_state m tr)"] by (metis prod.collapse)
qed

lemma apply_config_fine:
  "writes_fine S \<Longrightarrow>
     run_state (apply_config S obj) tr = (None, tr @ [ApplyObject obj FieldOwner True None])"
  by (simp add: apply_config_def client_Apply_def writes_fine_def)

lemma sync_prepare_fine:
  assumes X: "codecs_faithful X" and cap: "cap_fine X S (reader r) app"
    and fine: "reads_fine X S app KDeployment" "reads_fine X S app KService"
    and ports: "sv_Ports (Service app) \<noteq> []"
  shows "\<exists>acs. fst (run_state (sync_prepare X S r app) tr) = Inr acs"
proof -
  have codecs: "deployment_codec X d = Inr d" "service_codec X s = Inr s" for d s
    using X by (simp_all add: codecs_faithful_def)
  obtain tr1 where tr1: "run_state (enforceScalePolicy X S r app) tr = (None, tr1)"
    using enforceScalePolicy_fine [OF cap] by (metis prod.collapse)
  obtain d tr2 where tr2: "run_state (sync_replicas X S app (Deployment app)) tr1 = (Inr d, tr2)"
  proof (cases "WantsHPA app")
    case True
    obtain h tr2 where "run_state (replicaHold X S app) tr1 = (Inr h, tr2)"
      using replicaHold_fine [OF fine(1)] by (metis prod.collapse)
    with True that show ?thesis by (simp add: sync_replicas_def)
  next
    case False
    with that show ?thesis by (simp add: sync_replicas_def)
  qed
  obtain tr3 where tr3: "run_state (assertAdoptable X S r app KDeployment ''deployment'') tr2 = (None, tr3)"
    using assertAdoptable_fine [OF fine(1)] by (metis prod.collapse)
  obtain tr4 where tr4: "run_state (assertAdoptable X S r app KService ''service'') tr3 = (None, tr4)"
    using assertAdoptable_fine [OF fine(2)] by (metis prod.collapse)
  from ports show ?thesis
    by (simp add: sync_prepare_def codecs tr1 tr2 tr3 tr4)
qed

text \<open>After the first two applies, whatever the Ingress needs.\<close>

lemma sync_base_fine:
  assumes "codecs_faithful X" "cap_fine X S (reader r) app" "writes_fine S"
    and "reads_fine X S app KDeployment" "reads_fine X S app KService"
    and "sv_Ports (Service app) \<noteq> []"
  obtains tr' where "applied tr' = applied tr @ [(KDeployment, None), (KService, None)]"
    "run_state (sync X S r app) tr =
       run_state (do {
         ingress \<leftarrow> syncIngress X S r app;
         (case ingress of Some err \<Rightarrow> return (Some err) | None \<Rightarrow> syncHPA X S r app)
       }) tr'"
proof -
  obtain acs where "fst (run_state (sync_prepare X S r app) tr) = Inr acs"
    using sync_prepare_fine assms by blast
  then obtain tr1 where tr1: "run_state (sync_prepare X S r app) tr = (Inr acs, tr1)" "applied tr1 = applied tr"
    by (rule run_quiet [OF _ emits_no_apply(1)])
  show thesis
    by (rule that [of "tr1 @ [ApplyObject (ODeployment (fst acs)) FieldOwner True None]
        @ [ApplyObject (OService (snd acs)) FieldOwner True None]"])
      (simp_all add: sync_def tr1 apply_config_fine assms(3))
qed

lemma syncIngress_fine:
  assumes "codecs_faithful X" "writes_fine S" "reads_fine X S app KIngress"
    and "WantsIngress app \<Longrightarrow> \<exists>i. Ingress app = Inr i"
  obtains tr' where "run_state (syncIngress X S r app) tr = (None, tr')"
    "applied tr' = applied tr @ (if WantsIngress app then [(KIngress, None)] else [])"
proof (cases "WantsIngress app")
  case False
  from deleteOwned_fine [OF assms(3,2)] obtain tr'
    where "run_state (deleteOwned X S app KIngress) tr = (None, tr')" "applied tr' = applied tr"
    by (rule run_quiet [OF _ emits_no_apply(3)])
  with False that show thesis by (simp add: syncIngress_def)
next
  case True
  then obtain i where i: "Ingress app = Inr i" using assms(4) by blast
  have codec: "ingress_codec X j = Inr j" for j
    using assms(1) by (simp add: codecs_faithful_def)
  from assertAdoptable_fine [OF assms(3)] obtain tr1
    where tr1: "run_state (assertAdoptable X S r app KIngress ''ingress'') tr = (None, tr1)"
      "applied tr1 = applied tr"
    by (rule run_quiet [OF _ emits_no_apply(2)])
  show thesis
    by (rule that [of "tr1 @ [ApplyObject (OIngress i) FieldOwner True None]"])
      (simp_all add: syncIngress_def True i codec tr1 apply_config_fine assms(2))
qed

lemma syncHPA_fine:
  assumes "codecs_faithful X" "writes_fine S" "reads_fine X S app KHPA"
    and "WantsHPA app \<Longrightarrow> \<exists>h. HPA app = HPA_ok h"
  obtains tr' where "run_state (syncHPA X S r app) tr = (None, tr')"
    "applied tr' = applied tr @ (if WantsHPA app then [(KHPA, None)] else [])"
proof (cases "WantsHPA app")
  case False
  from deleteOwned_fine [OF assms(3,2)] obtain tr'
    where "run_state (deleteOwned X S app KHPA) tr = (None, tr')" "applied tr' = applied tr"
    by (rule run_quiet [OF _ emits_no_apply(3)])
  with False that show thesis by (simp add: syncHPA_def)
next
  case True
  then obtain h where h: "HPA app = HPA_ok h" using assms(4) by blast
  have codec: "hpa_codec X j = Inr j" for j
    using assms(1) by (simp add: codecs_faithful_def)
  from assertAdoptable_fine [OF assms(3)] obtain tr1
    where tr1: "run_state (assertAdoptable X S r app KHPA ''hpa'') tr = (None, tr1)"
      "applied tr1 = applied tr"
    by (rule run_quiet [OF _ emits_no_apply(2)])
  show thesis
    by (rule that [of "tr1 @ [ApplyObject (OHPA h) FieldOwner True None]"])
      (simp_all add: syncHPA_def True h codec tr1 apply_config_fine assms(2))
qed

lemma sync_fine:
  assumes "codecs_faithful X" "cap_fine X S (reader r) app" "writes_fine S"
    and "\<forall>kd. reads_fine X S app kd" "buildable app"
  obtains tr' where "run_state (sync X S r app) tr = (None, tr')"
    "applied tr' = applied tr @ map (\<lambda>kd. (kd, None)) (wanted_kinds app)"
proof -
  have b: "sv_Ports (Service app) \<noteq> []" "WantsIngress app \<Longrightarrow> \<exists>i. Ingress app = Inr i"
    "WantsHPA app \<Longrightarrow> \<exists>h. HPA app = HPA_ok h"
    using assms(5) by (simp_all add: buildable_def)
  obtain tr1 where tr1: "applied tr1 = applied tr @ [(KDeployment, None), (KService, None)]"
      "run_state (sync X S r app) tr = run_state (do {
         ingress \<leftarrow> syncIngress X S r app;
         (case ingress of Some err \<Rightarrow> return (Some err) | None \<Rightarrow> syncHPA X S r app) }) tr1"
    using sync_base_fine [OF assms(1-3) _ _ b(1)] assms(4) by blast
  obtain tr2 where tr2: "run_state (syncIngress X S r app) tr1 = (None, tr2)"
      "applied tr2 = applied tr1 @ (if WantsIngress app then [(KIngress, None)] else [])"
    using syncIngress_fine [OF assms(1,3) _ b(2)] assms(4) by blast
  obtain tr3 where tr3: "run_state (syncHPA X S r app) tr2 = (None, tr3)"
      "applied tr3 = applied tr2 @ (if WantsHPA app then [(KHPA, None)] else [])"
    using syncHPA_fine [OF assms(1,3) _ b(3)] assms(4) by blast
  show thesis
    by (rule that [of tr3]) (simp_all add: tr1 tr2 tr3 wanted_kinds_def)
qed

section \<open>What stops in between\<close>

text \<open>
  The Ingress is looked at only after the Deployment and the Service have been applied: when its name is
  taken, the sync fails with those two in place.
\<close>

lemma sync_half_applied:
  assumes "codecs_faithful X" "cap_fine X S (reader r) app" "writes_fine S"
    and "reads_fine X S app KDeployment" "reads_fine X S app KService"
    and "sv_Ports (Service app) \<noteq> []" "WantsIngress app" "Ingress app = Inr i"
    and taken: "\<And>tr. srv_GetIngress S tr (reader r) (ObjectKeyFromObject app) = Inr other"
      "\<not> IsControlledBy X (in_Meta other) (wa_Meta app)"
  shows "\<exists>err. fst (run_state (sync X S r app) tr) = Some err \<and> As_external err"
    and "applied (snd (run_state (sync X S r app) tr)) = applied tr @ [(KDeployment, None), (KService, None)]"
proof -
  obtain tr1 where tr1: "applied tr1 = applied tr @ [(KDeployment, None), (KService, None)]"
      "run_state (sync X S r app) tr = run_state (do {
         ingress \<leftarrow> syncIngress X S r app;
         (case ingress of Some err \<Rightarrow> return (Some err) | None \<Rightarrow> syncHPA X S r app) }) tr1"
    using sync_base_fine [OF assms(1-6)] by blast
  have codec: "ingress_codec X i = Inr i"
    using assms(1) by (simp add: codecs_faithful_def)
  have "run_state (sync X S r app) tr =
      (Some (external ''%s %q already exists and is not controlled by this WebApp''
               [AStr ''ingress'', AStr (app_Name app)]),
       tr1 @ [GetObject (reader r) KIngress (ObjectKeyFromObject app) (Inr (OIngress other))])"
    unfolding tr1(2) using assms(7,8) taken codec
    by (simp add: syncIngress_def assertAdoptable_def client_Get_def)
  then show "\<exists>err. fst (run_state (sync X S r app) tr) = Some err \<and> As_external err"
    "applied (snd (run_state (sync X S r app) tr)) = applied tr @ [(KDeployment, None), (KService, None)]"
    by (simp_all add: tr1(1) external_def)
qed

section \<open>Terminal errors\<close>

text \<open>
  The errors of the API server are none of the controller's own wrappers.
\<close>

definition plain_replies :: "server \<Rightarrow> bool" where
  "plain_replies S \<longleftrightarrow>
     (\<forall>tr src kd k e. get_typed S tr src kd k = Inl e \<longrightarrow> \<not> As_terminal e) \<and>
     (\<forall>tr src e. srv_ListPolicies S tr src = Inl e \<longrightarrow> \<not> As_terminal e) \<and>
     (\<forall>tr src n e. srv_GetNamespace S tr src n = Inl e \<longrightarrow> \<not> As_terminal e) \<and>
     (\<forall>tr obj owner force e. srv_Apply S tr obj owner force = Some e \<longrightarrow> \<not> As_terminal e) \<and>
     (\<forall>tr obj e. srv_Delete S tr obj = Some e \<longrightarrow> \<not> As_terminal e)"

definition no_terminal :: "go_error option \<Rightarrow> trace \<Rightarrow> bool" where
  "no_terminal x tr \<longleftrightarrow> (\<forall>e. x = Some e \<longrightarrow> \<not> As_terminal e)"

lemma no_terminal_simps [simp]:
  "no_terminal None tr" "no_terminal (Some e) tr \<longleftrightarrow> \<not> As_terminal e"
  by (simp_all add: no_terminal_def)

lemma plain_replies_D:
  assumes "plain_replies S"
  shows "get_typed S tr src kd k = Inl e \<Longrightarrow> \<not> As_terminal e"
    "srv_ListPolicies S tr src = Inl e \<Longrightarrow> \<not> As_terminal e"
    "srv_GetNamespace S tr src n = Inl e \<Longrightarrow> \<not> As_terminal e"
    "srv_Apply S tr obj owner force = Some e \<Longrightarrow> \<not> As_terminal e"
    "srv_Delete S tr obj = Some e \<Longrightarrow> \<not> As_terminal e"
    "srv_GetDeployment S tr src k = Inl e \<Longrightarrow> \<not> As_terminal e"
proof -
  show get: "\<not> As_terminal e" if "get_typed S tr src kd k = Inl e" for tr src kd k e
    using assms that unfolding plain_replies_def by blast
  show "srv_ListPolicies S tr src = Inl e \<Longrightarrow> \<not> As_terminal e"
    "srv_GetNamespace S tr src n = Inl e \<Longrightarrow> \<not> As_terminal e"
    "srv_Apply S tr obj owner force = Some e \<Longrightarrow> \<not> As_terminal e"
    "srv_Delete S tr obj = Some e \<Longrightarrow> \<not> As_terminal e"
    using assms unfolding plain_replies_def by blast+
  show "srv_GetDeployment S tr src k = Inl e \<Longrightarrow> \<not> As_terminal e"
    using get [of tr src KDeployment k e] by simp
qed

lemma assertAdoptable_plain:
  "plain_replies S \<Longrightarrow> triple P (assertAdoptable X S r app kd t) no_terminal"
  by (auto simp: triple_def assertAdoptable_def client_defs external_def
      dest: plain_replies_D split: sum.split)

lemma deleteOwned_plain: "plain_replies S \<Longrightarrow> triple P (deleteOwned X S app kd) no_terminal"
  by (auto simp: triple_def deleteOwned_def client_defs dest: plain_replies_D
      split: sum.split option.split)

lemma replicaHold_plain:
  assumes "plain_replies S"
  shows "triple P (replicaHold X S app) (\<lambda>x tr. \<forall>e. x = Inl e \<longrightarrow> \<not> As_terminal e)"
  using assms
  by (auto simp: triple_def replicaHold_def client_defs dest: plain_replies_D split: sum.splits if_splits)

lemma enforceScalePolicy_plain: "plain_replies S \<Longrightarrow> triple P (enforceScalePolicy X S r app) no_terminal"
  by (auto simp: triple_def enforceScalePolicy_def client_defs EvaluateScale_def
      scale_verdict_def log_all_run dest: plain_replies_D split: sum.split)

lemma apply_config_plain: "plain_replies S \<Longrightarrow> triple P (apply_config S obj) no_terminal"
  by (auto simp: triple_def apply_config_def client_defs no_terminal_def dest: plain_replies_D)

lemma sync_prepare_plain:
  assumes X: "codecs_faithful X" and S: "plain_replies S" and ports: "sv_Ports (Service app) \<noteq> []"
  shows "triple P (sync_prepare X S r app) (\<lambda>x tr. \<forall>e. x = Inl e \<longrightarrow> \<not> As_terminal e)"
proof -
  have codecs: "deployment_codec X d = Inr d" "service_codec X s = Inr s" for d s
    using X by (simp_all add: codecs_faithful_def)
  have replicas: "triple P (sync_replicas X S app d) (\<lambda>x tr. \<forall>e. x = Inl e \<longrightarrow> \<not> As_terminal e)" for P d
    unfolding sync_replicas_def
    by (intro triple_if triple_bind [OF replicaHold_plain [OF S]] triple_return) (auto split: sum.splits)
  show ?thesis
    unfolding sync_prepare_def codecs sum.case if_not_P [OF ports]
    by (intro triple_bind [OF enforceScalePolicy_plain [OF S]] triple_option triple_sum
        triple_bind [OF replicas] triple_bind [OF assertAdoptable_plain [OF S]] triple_return)
      (auto simp: no_terminal_def split: option.splits)
qed

lemma syncIngress_plain:
  assumes X: "codecs_faithful X" and S: "plain_replies S"
    and "WantsIngress app \<Longrightarrow> \<exists>i. Ingress app = Inr i"
  shows "triple P (syncIngress X S r app) no_terminal"
proof (cases "WantsIngress app")
  case False
  then show ?thesis by (simp add: syncIngress_def deleteOwned_plain [OF S])
next
  case True
  then obtain i where i: "Ingress app = Inr i" using assms(3) by blast
  have codec: "toApplyConfig X (OIngress i) = Inr (OIngress i)"
    using X by (simp add: codecs_faithful_def)
  have put: "triple P (do {
        applied \<leftarrow> apply_config S ac;
        (case applied of
          Some err \<Rightarrow>
            do {
              tell (RecordEvent app EventTypeWarning ''IngressApplyFailed'' (ErrorText err));
              return (Some (Errorf ''apply ingress: %w'' [AWrap err]))
            }
        | None \<Rightarrow> return None) }) no_terminal" for P ac
    using tripleD [OF apply_config_plain [OF S, of "\<lambda>_. True"]]
    by (auto simp: triple_def no_terminal_def split: prod.split option.split) (metis fst_conv)
  show ?thesis
    unfolding syncIngress_def i codec sum.case if_not_P [OF True [THEN not_not [THEN iffD2]]]
    by (intro triple_bind [OF assertAdoptable_plain [OF S]] triple_option put triple_return)
      (simp add: no_terminal_def)
qed

lemma syncHPA_plain:
  assumes X: "codecs_faithful X" and S: "plain_replies S"
    and "WantsHPA app \<Longrightarrow> \<exists>h. HPA app = HPA_ok h"
  shows "triple P (syncHPA X S r app) no_terminal"
proof (cases "WantsHPA app")
  case False
  then show ?thesis by (simp add: syncHPA_def deleteOwned_plain [OF S])
next
  case True
  then obtain h where h: "HPA app = HPA_ok h" using assms(3) by blast
  have codec: "toApplyConfig X (OHPA h) = Inr (OHPA h)"
    using X by (simp add: codecs_faithful_def)
  show ?thesis
    unfolding syncHPA_def h codec sum.case hpa_result.case if_not_P [OF True [THEN not_not [THEN iffD2]]]
    by (intro triple_bind [OF assertAdoptable_plain [OF S]] triple_option triple_return
        triple_bind [OF apply_config_plain [OF S]])
      (auto simp: no_terminal_def split: option.splits)
qed

lemma sync_plain:
  assumes X: "codecs_faithful X" and S: "plain_replies S" and b: "buildable app"
  shows "triple P (sync X S r app) no_terminal"
proof -
  have b: "sv_Ports (Service app) \<noteq> []" "WantsIngress app \<Longrightarrow> \<exists>i. Ingress app = Inr i"
    "WantsHPA app \<Longrightarrow> \<exists>h. HPA app = HPA_ok h"
    using b by (simp_all add: buildable_def)
  show ?thesis
    unfolding sync_def
    by (intro triple_bind [OF sync_prepare_plain [OF X S b(1)]] triple_sum triple_option triple_return
        triple_bind [OF apply_config_plain [OF S]] triple_bind [OF syncIngress_plain [OF X S b(2)]]
        syncHPA_plain [OF X S b(3)])
      (auto simp: no_terminal_def)
qed

section \<open>Deletion goes through\<close>

lemma delete_all_fine:
  assumes "\<And>kd. kd \<in> set kds \<Longrightarrow> reads_fine X S app kd" "writes_fine S"
  shows "fst (run_state (delete_all X S app kds) tr) = None"
  using assms(1)
proof (induction kds arbitrary: tr)
  case (Cons kd kds)
  have "fst (run_state (deleteOwned X S app kd) tr) = None"
    by (rule deleteOwned_fine) (simp_all add: Cons.prems assms(2))
  with Cons show ?case by (simp add: split_beta)
qed simp

lemma finalize_fine:
  assumes "\<And>kd. reads_fine X S app kd" "writes_fine S"
    and "ContainsFinalizer X (wa_Meta app) Finalizer" "\<And>tr a. \<exists>a'. srv_Update S tr a = Inr a'"
  shows "\<exists>tr' reply. run_state (finalize X S app) tr =
    (None, tr' @ [UpdateApp (app\<lparr>wa_Meta := RemoveFinalizer X (wa_Meta app) Finalizer\<rparr>) reply])"
proof -
  obtain tr1 where tr1: "run_state (delete_all X S app finalizer_kinds) tr = (None, tr1)"
    using delete_all_fine [OF assms(1,2)] by (metis prod.collapse)
  let ?tr2 = "tr1 @ [RecordEvent app EventTypeNormal ''Deleted'' (Lit ''owned resources removed''),
      Metric (MForget (app_Name app) (app_Namespace app))]"
  let ?a = "app\<lparr>wa_Meta := RemoveFinalizer X (wa_Meta app) Finalizer\<rparr>"
  obtain a' where "srv_Update S ?tr2 ?a = Inr a'" using assms(4) by blast
  with assms(3) have "run_state (finalize X S app) tr = (None, ?tr2 @ [UpdateApp ?a (Inr a')])"
    by (simp add: finalize_def tr1 client_Update_def)
  then show ?thesis by blast
qed

end
