(* ===== verification/Warp_Status.thy ===== *)
theory Warp_Status
  imports Warp_Progress
begin

text \<open>
  What a run leaves behind: the status patch, the published metrics, and the answer to the work queue.
\<close>

section \<open>The status patch\<close>

lemma publish_conditions_run:
  "run_state (publish_conditions app cs) tr =
     ((), tr @ map (\<lambda>c. Metric (MSetCondition (app_Name app) (app_Namespace app) (co_Type c) (co_Status c))) cs)"
  by (induction cs arbitrary: tr) auto

definition status_metrics :: "WebApp \<Rightarrow> effect list" where
  "status_metrics app =
     [Metric (MReplicas (app_Name app) (app_Namespace app) (wt_Replicas (wa_Status app))),
      Metric (MReadyReplicas (app_Name app) (app_Namespace app) (wt_ReadyReplicas (wa_Status app)))]
     @ map (\<lambda>c. Metric (MSetCondition (app_Name app) (app_Namespace app) (co_Type c) (co_Status c)))
         (wt_Conditions (wa_Status app))"

definition scaled_event :: "WebApp \<Rightarrow> WebApp \<Rightarrow> DeploymentObj option \<Rightarrow> effect list" where
  "scaled_event app base dep =
     (case dep of
        None \<Rightarrow> []
      | Some d \<Rightarrow>
          if ds_Replicas (dp_Status d) \<noteq> wt_Replicas (wa_Status base)
          then [RecordEvent app EventTypeNormal ''Scaled''
                  (Sprintf ''replicas %d -> %d''
                     [AInt (wt_Replicas (wa_Status base)), AInt (ds_Replicas (dp_Status d))])]
          else [])"

lemma published_status_frame [simp]:
  "wa_Meta (published_status X app dep) = wa_Meta app"
  "wa_Spec (published_status X app dep) = wa_Spec app"
  "wt_Conditions (wa_Status (published_status X app dep)) = wt_Conditions (wa_Status app)"
  "wt_ObservedGeneration (wa_Status (published_status X app dep)) = wt_ObservedGeneration (wa_Status app)"
  by (simp_all add: published_status_def Let_def split: option.split)

text \<open>All an update of the status does, in order.\<close>

lemma updateStatus_run:
  fixes X S app base dep tr
  defines "app' \<equiv> published_status X app dep"
  obtains tr' reply where
    "tr' = tr @ scaled_event app base dep @ status_metrics app'"
    "reply = srv_Patch S tr' app' base"
    "run_state (updateStatus X S app base dep) tr = (reply, tr' @ [PatchStatus app' base reply])"
proof -
  have scaled: "run_state (record_scaled app base dep) tr = ((), tr @ scaled_event app base dep)"
    by (simp add: record_scaled_def scaled_event_def split: option.split)
  define tr' where "tr' = tr @ scaled_event app base dep @ status_metrics app'"
  have "run_state (updateStatus X S app base dep) tr =
      (srv_Patch S tr' app' base, tr' @ [PatchStatus app' base (srv_Patch S tr' app' base)])"
    by (simp add: updateStatus_def scaled publish_conditions_run client_PatchStatus_def tr'_def
        status_metrics_def app'_def Let_def)
  then show thesis using that tr'_def by blast
qed

lemma condition_of_published [simp]: "condition_of X (published_status Y app dep) t = condition_of X app t"
  by (simp add: condition_of_def)

section \<open>After a failed sync\<close>

text \<open>What the work queue is told: nothing more for a terminal error, one minute for an external one.\<close>

definition failure_answer ::
  "go_error \<Rightarrow> go_error option \<Rightarrow> reconcile_result \<times> go_error option" where
  "failure_answer err patched =
     (case patched of
        Some serr \<Rightarrow> (no_requeue, Some (Errorf ''%w (status update also failed: %v)'' [AWrap err, AErr serr]))
      | None \<Rightarrow>
          if As_terminal err then (no_requeue, None)
          else if As_external err then (\<lparr>ct_RequeueAfter = externalRetry\<rparr>, None)
          else (no_requeue, Some err))"

lemma reconcile_failed_run:
  obtains a reply tr' where
    "run_state (reconcile_failed X S app base err) tr = (failure_answer err reply, tr' @ [PatchStatus a base reply])"
    "a = published_status X (ApplyReconcileFailure X app err) None"
proof -
  let ?app1 = "ApplyReconcileFailure X app err"
  let ?tr = "tr @ [RecordEvent ?app1 EventTypeWarning ReasonReconcileFailed (ErrorText err)]"
  obtain tr' reply where run: "run_state (updateStatus X S ?app1 base None) ?tr =
      (reply, tr' @ [PatchStatus (published_status X ?app1 None) base reply])"
    using updateStatus_run [of ?tr ?app1 base None X S] by metis
  have "run_state (reconcile_failed X S app base err) tr =
      (failure_answer err reply, tr' @ [PatchStatus (published_status X ?app1 None) base reply])"
    using run by (simp add: reconcile_failed_def failure_answer_def Let_def)
  then show thesis using that by blast
qed

lemma failure_answer_cases:
  "snd (failure_answer err patched) = None \<longleftrightarrow> patched = None \<and> (As_terminal err \<or> As_external err)"
  "ct_RequeueAfter (fst (failure_answer err patched)) \<noteq> 0 \<longleftrightarrow>
     patched = None \<and> As_external err \<and> \<not> As_terminal err"
  by (auto simp: failure_answer_def no_requeue_def split: option.split)

section \<open>After a sync that succeeded\<close>

text \<open>
  What the status has to say of a WebApp whose objects were applied, field by field: \<open>dep\<close> is the
  Deployment that was read afterwards, if there was one.
\<close>

definition reports :: "k8s \<Rightarrow> WebApp \<Rightarrow> DeploymentObj option \<Rightarrow> WebApp \<Rightarrow> bool" where
  "reports X app dep a \<longleftrightarrow>
     wa_Meta a = wa_Meta app \<and> wa_Spec a = wa_Spec app \<and>
     wt_ObservedGeneration (wa_Status a) = app_Generation app \<and>
     wt_IngressURL (wa_Status a) = IngressURL app \<and>
     wt_Selector (wa_Status a) = LabelSetString X (SelectorLabels app) \<and>
     (wt_Replicas (wa_Status a), wt_ReadyReplicas (wa_Status a), wt_AvailableReplicas (wa_Status a),
      wt_UpdatedReplicas (wa_Status a)) =
       (case dep of
          Some d \<Rightarrow> (ds_Replicas (dp_Status d), ds_ReadyReplicas (dp_Status d), ds_AvailableReplicas (dp_Status d),
            ds_UpdatedReplicas (dp_Status d))
        | None \<Rightarrow> (wt_Replicas (wa_Status app), wt_ReadyReplicas (wa_Status app),
            wt_AvailableReplicas (wa_Status app), wt_UpdatedReplicas (wa_Status app))) \<and>
     (\<forall>t \<in> set condition_types. \<exists>st re m. condition_of X a t = Some (st, re, m, app_Generation app) \<and>
        (t = ConditionReady \<longrightarrow> (st = ConditionTrue) = (\<exists>d. dep = Some d \<and> fully_rolled_out d \<and>
           \<not> rolloutStalled (DeploymentCondition d DeploymentProgressing))))"

lemma deployed_condition:
  assumes "conditions_documented X" "t \<in> set condition_types"
  shows "\<exists>st re m. condition_of X (ApplyDeploymentConditions X app d) t = Some (st, re, m, app_Generation app) \<and>
    (t = ConditionReady \<longrightarrow> (st = ConditionTrue) = (fully_rolled_out d \<and>
       \<not> rolloutStalled (DeploymentCondition d DeploymentProgressing)))"
  by (rule ApplyDeploymentConditions_writes [of X app d]) (use assms in \<open>auto simp: condition_types_def\<close>)

lemma undeployed_condition:
  assumes "conditions_documented X" "t \<in> set condition_types"
  shows "\<exists>st re m. condition_of X (ApplyNoDeploymentConditions X app) t = Some (st, re, m, app_Generation app) \<and>
    (t = ConditionReady \<longrightarrow> st \<noteq> ConditionTrue)"
  using assms by (auto simp: ApplyNoDeploymentConditions_def Let_def condition_types_def)

text \<open>The conditions a report writes, and the note effects between its read and its patch.\<close>

definition with_conditions :: "k8s \<Rightarrow> WebApp \<Rightarrow> DeploymentObj option \<Rightarrow> WebApp" where
  "with_conditions X app dep =
     (case dep of Some d \<Rightarrow> ApplyDeploymentConditions X app d | None \<Rightarrow> ApplyNoDeploymentConditions X app)"

fun is_note :: "effect \<Rightarrow> bool" where
  "is_note (RecordEvent a t u m) = True"
| "is_note (Metric c) = True"
| "is_note _ = False"

lemma with_conditions_frame:
  "wa_Meta (with_conditions X app dep) = wa_Meta app" "wa_Spec (with_conditions X app dep) = wa_Spec app"
  "wt_ObservedGeneration (wa_Status (with_conditions X app dep)) = wt_ObservedGeneration (wa_Status app)"
  "wt_Replicas (wa_Status (with_conditions X app dep)) = wt_Replicas (wa_Status app)"
  "wt_ReadyReplicas (wa_Status (with_conditions X app dep)) = wt_ReadyReplicas (wa_Status app)"
  "wt_AvailableReplicas (wa_Status (with_conditions X app dep)) = wt_AvailableReplicas (wa_Status app)"
  "wt_UpdatedReplicas (wa_Status (with_conditions X app dep)) = wt_UpdatedReplicas (wa_Status app)"
  using deployed.written_status_fields undeployed.written_status_fields
    deployed.writes_meta undeployed.writes_meta deployed.writes_spec undeployed.writes_spec
  by (simp_all add: with_conditions_def split: option.split)

lemma published_reports:
  assumes "conditions_documented X" "wa_Meta app1 = wa_Meta app" "wa_Spec app1 = wa_Spec app"
    "wa_Status app1 = (wa_Status app)\<lparr>wt_ObservedGeneration := app_Generation app\<rparr>"
  shows "reports X app dep (published_status X (with_conditions X app1 dep) dep)"
proof -
  have built: "IngressURL (with_conditions X app1 dep) = IngressURL app"
    "SelectorLabels (with_conditions X app1 dep) = SelectorLabels app"
    using assms(2,3) with_conditions_frame(1,2) [of X app1 dep]
    by (simp_all add: IngressURL_def WantsIngress_def SelectorLabels_def)
  have cond: "\<exists>st re m. condition_of X (with_conditions X app1 dep) t = Some (st, re, m, app_Generation app) \<and>
      (t = ConditionReady \<longrightarrow> (st = ConditionTrue) = (\<exists>d. dep = Some d \<and> fully_rolled_out d \<and>
         \<not> rolloutStalled (DeploymentCondition d DeploymentProgressing)))"
    if "t \<in> set condition_types" for t
    using deployed_condition [OF assms(1) that, of app1] undeployed_condition [OF assms(1) that, of app1] assms(2)
    by (cases dep) (simp_all add: with_conditions_def)
  have counts: "wt_IngressURL (wa_Status (published_status X a dep)) = IngressURL a"
    "wt_Selector (wa_Status (published_status X a dep)) = LabelSetString X (SelectorLabels a)" for a
    by (simp_all add: published_status_def Let_def split: option.split)
  show ?thesis
    unfolding reports_def condition_of_published published_status_frame counts built
  proof (intro conjI ballI)
    fix t assume "t \<in> set condition_types"
    then show "\<exists>st re m. condition_of X (with_conditions X app1 dep) t = Some (st, re, m, app_Generation app) \<and>
      (t = ConditionReady \<longrightarrow> (st = ConditionTrue) = (\<exists>d. dep = Some d \<and> fully_rolled_out d \<and>
         \<not> rolloutStalled (DeploymentCondition d DeploymentProgressing)))" by (rule cond)
  qed (use assms(2-4) in \<open>simp_all add: with_conditions_frame published_status_def Let_def split: option.split\<close>)
qed

lemma reconcile_report_run:
  fixes X app dep
  defines "a \<equiv> published_status X (with_conditions X
    (app\<lparr>wa_Status := (wa_Status app)\<lparr>wt_ObservedGeneration := app_Generation app\<rparr>\<rparr>) dep) dep"
  obtains ev reply tr' where
    "run_state (reconcile_report X S app base dep) tr = ((no_requeue, reply), tr' @ [PatchStatus a base reply])"
    "tr' = tr @ ev @ status_metrics a" "\<forall>e \<in> set ev. is_note e \<and> (\<forall>c. e \<noteq> Metric c)"
    "reply = srv_Patch S tr' a base"
proof -
  let ?app1 = "app\<lparr>wa_Status := (wa_Status app)\<lparr>wt_ObservedGeneration := app_Generation app\<rparr>\<rparr>"
  let ?app2 = "with_conditions X ?app1 dep"
  let ?ev = "if app_Generation app \<noteq> wt_ObservedGeneration (wa_Status app) then
      [RecordEvent app EventTypeNormal ''Reconciled'' (Sprintf ''applied spec generation %d'' [AInt (app_Generation app)])]
    else []"
  have event: "run_state (record_reconciled app) tr = ((), tr @ ?ev)"
    by (simp add: record_reconciled_def)
  obtain tr' reply where tr': "tr' = (tr @ ?ev) @ scaled_event ?app2 base dep @ status_metrics a"
      "reply = srv_Patch S tr' a base"
    and run: "run_state (updateStatus X S ?app2 base dep) (tr @ ?ev) = (reply, tr' @ [PatchStatus a base reply])"
    unfolding a_def by (rule updateStatus_run)
  show thesis
  proof (rule that)
    show "run_state (reconcile_report X S app base dep) tr = ((no_requeue, reply), tr' @ [PatchStatus a base reply])"
      using run unfolding with_conditions_def
      by (simp only: reconcile_report_def Let_def run_state_bind event prod.case run_state_return)
    show "tr' = tr @ (?ev @ scaled_event ?app2 base dep) @ status_metrics a" using tr'(1) by simp
    show "\<forall>e \<in> set (?ev @ scaled_event ?app2 base dep). is_note e \<and> (\<forall>c. e \<noteq> Metric c)"
      by (auto simp: scaled_event_def split: option.splits if_splits)
  qed (rule tr'(2))
qed

lemma status_metrics_notes: "e \<in> set (status_metrics a) \<Longrightarrow> is_note e"
  by (auto simp: status_metrics_def)

lemma note_kinds: "is_note e \<Longrightarrow> harmless e"
  by (cases e) simp_all

section \<open>A whole run\<close>

lemma Reconcile_run:
  assumes "run_state (reconcile X S r req) tr = (res, tr')"
  shows "run_state (Reconcile X S r req) tr =
    (res, tr' @ [Metric (MReconcileTotal (if snd res \<noteq> None then ResultError else ResultSuccess)),
                 Metric (MReconcileDuration (if snd res \<noteq> None then ResultError else ResultSuccess))])"
  using assms by (simp add: Reconcile_def Let_def)

text \<open>The whole of a run whose sync succeeded: it ends with one status patch, after one more read.\<close>

lemma Reconcile_after_success:
  assumes app: "srv_GetApp S [] req = Inr base" "om_DeletionTimestamp (wa_Meta base) = None"
    and fin: "run_state (ensure_finalizer X S base) [GetApp req (Inr base)] = (Inr app, tr0)"
    and sync: "run_state (sync X S r app) tr0 = (None, tr1)"
    and got: "got = srv_GetDeployment S tr1 CachedClient (ObjectKeyFromObject app)" "\<And>e. got = Inl e \<Longrightarrow> IsNotFound e"
  defines "dep \<equiv> (case got of Inl e \<Rightarrow> None | Inr d \<Rightarrow> Some d)"
  obtains a ev reply outcome mid where
    "run_state (Reconcile X S r req) [] = ((no_requeue, reply),
       tr1 @ GetObject CachedClient KDeployment (ObjectKeyFromObject app) (map_sum id ODeployment got) # mid @
         [PatchStatus a base reply, Metric (MReconcileTotal outcome), Metric (MReconcileDuration outcome)])"
    "mid = ev @ status_metrics a" "\<forall>e \<in> set ev. is_note e \<and> (\<forall>c. e \<noteq> Metric c)"
    "outcome = (if reply = None then ResultSuccess else ResultError)"
    "reply = srv_Patch S (tr1 @ GetObject CachedClient KDeployment (ObjectKeyFromObject app)
       (map_sum id ODeployment got) # mid) a base"
    "conditions_documented X \<Longrightarrow> reports X app dep a"
proof -
  let ?tr2 = "tr1 @ [GetObject CachedClient KDeployment (ObjectKeyFromObject app) (map_sum id ODeployment got)]"
  let ?app1 = "app\<lparr>wa_Status := (wa_Status app)\<lparr>wt_ObservedGeneration := app_Generation app\<rparr>\<rparr>"
  let ?a = "published_status X (with_conditions X ?app1 dep) dep"
  obtain ev reply tr' where report: "run_state (reconcile_report X S app base dep) ?tr2 =
      ((no_requeue, reply), tr' @ [PatchStatus ?a base reply])"
    and tr': "tr' = ?tr2 @ ev @ status_metrics ?a" and ev: "\<forall>e \<in> set ev. is_note e \<and> (\<forall>c. e \<noteq> Metric c)"
    and reply: "reply = srv_Patch S tr' ?a base"
    by (rule reconcile_report_run)
  have run: "run_state (reconcile X S r req) [] = ((no_requeue, reply), tr' @ [PatchStatus ?a base reply])"
    using report got(2)
    by (cases got) (simp_all add: reconcile_def client_GetApp_def client_GetDeployment_def app fin sync
        got(1) [symmetric] dep_def)
  show thesis
  proof (rule that)
    show "run_state (Reconcile X S r req) [] = ((no_requeue, reply),
       tr1 @ GetObject CachedClient KDeployment (ObjectKeyFromObject app) (map_sum id ODeployment got) #
         (ev @ status_metrics ?a) @ [PatchStatus ?a base reply,
           Metric (MReconcileTotal (if reply = None then ResultSuccess else ResultError)),
           Metric (MReconcileDuration (if reply = None then ResultSuccess else ResultError))])"
      using Reconcile_run [OF run] by (cases reply) (simp_all add: tr')
    show "reports X app dep ?a" if "conditions_documented X"
      by (rule published_reports [OF that]) simp_all
  qed (use ev reply in \<open>simp_all add: tr'\<close>)
qed

text \<open>Up to the read that follows a sync the run has patched nothing.\<close>

lemma no_patch_before:
  assumes "run_state (ensure_finalizer X S base) [GetApp req (Inr base)] = (Inr app, tr0)"
    and "run_state (sync X S r app) tr0 = (x, tr1)"
  shows "\<forall>e \<in> set tr1. \<not> is_patch e"
proof -
  have "emits (ensure_finalizer X S base) (\<lambda>e. \<not> is_patch e)" "emits (sync X S r app) (\<lambda>e. \<not> is_patch e)"
    by (rule emits_mono [OF emits_ensure_finalizer] emits_mono [OF emits_sync],
        auto dest: harmless_kinds elim!: is_update.elims is_delete.elims is_apply.elims)+
  then obtain new1 new2 where "tr0 = [GetApp req (Inr base)] @ new1" "\<forall>e \<in> set new1. \<not> is_patch e"
      "tr1 = tr0 @ new2" "\<forall>e \<in> set new2. \<not> is_patch e"
    using assms unfolding emits_def by (metis snd_conv)
  then show ?thesis by auto
qed

lemma notes_patch_nothing: "\<forall>e \<in> set ev. is_note e \<and> (\<forall>c. e \<noteq> Metric c) \<Longrightarrow> mid = ev @ status_metrics a \<Longrightarrow>
  \<forall>e \<in> set mid. is_note e"
  using status_metrics_notes by auto

lemma filter_patches:
  assumes "\<forall>e \<in> set pre. \<not> is_patch e" "\<forall>e \<in> set mid. is_note e"
  shows "filter is_patch (pre @ GetObject src kd k g # mid @ [PatchStatus a b p, Metric c, Metric c']) = [PatchStatus a b p]"
proof -
  have "\<forall>e \<in> set mid. \<not> is_patch e" using assms(2) note_kinds harmless_kinds(4) by blast
  with assms(1) show ?thesis by (simp add: filter_False)
qed

text \<open>
  On a cooperative server a run over a WebApp that has the finalizer and is not being deleted ends well.
\<close>

lemma Reconcile_fine:
  assumes X: "codecs_faithful X" "AddFinalizer X (wa_Meta app) Finalizer = (wa_Meta app, False)"
    and app: "srv_GetApp S [] req = Inr app" "om_DeletionTimestamp (wa_Meta app) = None"
    and S: "cap_fine X S (reader r) app" "writes_fine S" "\<forall>kd. reads_fine X S app kd"
      "\<And>tr a b. srv_Patch S tr a b = None"
    and b: "buildable app"
  obtains pre got ev a where "run_state (Reconcile X S r req) [] =
      ((no_requeue, None), pre @ GetObject CachedClient KDeployment (ObjectKeyFromObject app)
         (map_sum id ODeployment got) # (ev @ status_metrics a) @
         [PatchStatus a app None, Metric (MReconcileTotal ResultSuccess), Metric (MReconcileDuration ResultSuccess)])"
    "applied pre = map (\<lambda>kd. (kd, None)) (wanted_kinds app)" "\<forall>e \<in> set pre. \<not> is_patch e"
    "\<forall>e \<in> set ev. is_note e \<and> (\<forall>c. e \<noteq> Metric c)"
    "conditions_documented X \<Longrightarrow> reports X app (case got of Inl e \<Rightarrow> None | Inr d \<Rightarrow> Some d) a"
proof -
  let ?tr0 = "[GetApp req (Inr app)]"
  have fin: "run_state (ensure_finalizer X S app) ?tr0 = (Inr app, ?tr0)"
    using X(2) by (simp add: ensure_finalizer_def)
  obtain tr1 where sync: "run_state (sync X S r app) ?tr0 = (None, tr1)"
      "applied tr1 = applied ?tr0 @ map (\<lambda>kd. (kd, None)) (wanted_kinds app)"
    using sync_fine [OF X(1) S(1,2,3) b, of ?tr0] by blast
  define got where "got = srv_GetDeployment S tr1 CachedClient (ObjectKeyFromObject app)"
  have missing: "IsNotFound e" if "got = Inl e" for e
  proof -
    have "case get_typed S tr1 CachedClient KDeployment (ObjectKeyFromObject app) of
        Inl err \<Rightarrow> IsNotFound err | Inr obj \<Rightarrow> IsControlledBy X (meta_of obj) (wa_Meta app)"
      using S(3) unfolding reads_fine_def by blast
    with that show ?thesis by (simp add: got_def)
  qed
  show thesis
    by (rule Reconcile_after_success [OF app fin sync(1) got_def missing], assumption,
        rule that [of tr1 got]) (use S(4) sync(2) no_patch_before [OF fin sync(1)] in simp_all)
qed

text \<open>Every failure of the sync ends in a status patch that says so.\<close>

lemma Reconcile_after_failure:
  assumes "srv_GetApp S [] req = Inr base" "om_DeletionTimestamp (wa_Meta base) = None"
    and fin: "run_state (ensure_finalizer X S base) [GetApp req (Inr base)] = (Inr app, tr0)"
    and sync: "run_state (sync X S r app) tr0 = (Some err, tr1)"
  obtains a reply tr' outcome where
    "run_state (Reconcile X S r req) [] = (failure_answer err reply,
       tr' @ [PatchStatus a base reply, Metric (MReconcileTotal outcome), Metric (MReconcileDuration outcome)])"
    "a = published_status X (ApplyReconcileFailure X app err) None"
proof -
  obtain a reply tr' where fail: "run_state (reconcile_failed X S app base err) tr1 =
      (failure_answer err reply, tr' @ [PatchStatus a base reply])"
      "a = published_status X (ApplyReconcileFailure X app err) None"
    by (rule reconcile_failed_run)
  have "run_state (reconcile X S r req) [] = (failure_answer err reply, tr' @ [PatchStatus a base reply])"
    by (simp add: reconcile_def client_GetApp_def assms fail)
  from Reconcile_run [OF this] fail(2) show thesis
    using that by simp
qed

text \<open>A WebApp that is gone leaves no series behind and touches nothing.\<close>

lemma Reconcile_gone:
  assumes "srv_GetApp S [] req = Inl err" "IsNotFound err"
  shows "run_state (Reconcile X S r req) [] =
    ((no_requeue, None),
     [GetApp req (Inl err), Metric (MForget (snd req) (fst req)),
      Metric (MReconcileTotal ResultSuccess), Metric (MReconcileDuration ResultSuccess)])"
  using assms by (simp add: Reconcile_def reconcile_def client_GetApp_def Let_def)

section \<open>The published conditions\<close>

fun metric_calls :: "trace \<Rightarrow> metric_call list" where
  "metric_calls [] = []"
| "metric_calls (Metric c # es) = c # metric_calls es"
| "metric_calls (e # es) = metric_calls es"

lemma metric_calls_append [simp]: "metric_calls (tr @ es) = metric_calls tr @ metric_calls es"
proof (induction tr)
  case (Cons e tr)
  then show ?case by (cases e) simp_all
qed simp

lemma metric_calls_map [simp]: "metric_calls (map (\<lambda>x. Metric (f x)) xs) = map f xs"
  by (induction xs) simp_all

lemma updateStatus_metrics:
  assumes P: "prometheus_documented P" and dist: "distinct (map co_Type (wt_Conditions (wa_Status app)))"
    and c: "c \<in> set (wt_Conditions (wa_Status app))"
  shows "fmlookup (rg_Conditions (apply_metrics P
      (metric_calls (snd (run_state (updateStatus X S app base dep) tr))) rg))
      [app_Name app, app_Namespace app, co_Type c, s] = (if s = co_Status c then Some 1 else None)"
proof -
  let ?tss = "map (\<lambda>c. (co_Type c, co_Status c)) (wt_Conditions (wa_Status app))"
  obtain tr' reply where tr': "tr' = tr @ scaled_event app base dep @ status_metrics (published_status X app dep)"
    and run: "run_state (updateStatus X S app base dep) tr =
      (reply, tr' @ [PatchStatus (published_status X app dep) base reply])"
    by (rule updateStatus_run)
  have calls: "metric_calls (status_metrics (published_status X app dep)) =
      [MReplicas (app_Name app) (app_Namespace app) (wt_Replicas (wa_Status (published_status X app dep))),
       MReadyReplicas (app_Name app) (app_Namespace app) (wt_ReadyReplicas (wa_Status (published_status X app dep)))]
      @ map (\<lambda>(t, s). MSetCondition (app_Name app) (app_Namespace app) t s) ?tss"
    by (simp add: status_metrics_def comp_def)
  have "map_of ?tss (co_Type c) = Some (co_Status c)"
    using dist c by (induction "wt_Conditions (wa_Status app)" arbitrary: app)
      (auto intro!: map_of_is_SomeI simp: comp_def)
  moreover have "distinct (map fst ?tss)"
    using dist by (simp add: comp_def)
  ultimately show ?thesis
    using conditions_published [OF P, of ?tss]
    by (auto simp: run tr' calls simp del: map_map)
qed

section \<open>Who owns the replica count\<close>

lemma ReplicasOwnedByOther_iff:
  "ReplicasOwnedByOther X dep \<longleftrightarrow>
     (\<exists>e \<in> set (om_ManagedFields (dp_Meta dep)). mf_Manager e \<noteq> FieldOwner \<and>
        (\<exists>raw obj spec. mf_FieldsV1 e = Some raw \<and> json_Unmarshal X raw = Some obj \<and>
           fmlookup obj ''f:spec'' = Some (JObject spec) \<and> fmlookup spec ''f:replicas'' \<noteq> None))"
proof -
  have owns: "owns_replicas X raw \<longleftrightarrow> (\<exists>obj spec. json_Unmarshal X raw = Some obj \<and>
      fmlookup obj ''f:spec'' = Some (JObject spec) \<and> fmlookup spec ''f:replicas'' \<noteq> None)" for raw
    by (auto simp: owns_replicas_def split: option.splits json.splits)
  have "ReplicasOwnedByOther_loop X es \<longleftrightarrow>
      (\<exists>e \<in> set es. mf_Manager e \<noteq> FieldOwner \<and> (\<exists>raw. mf_FieldsV1 e = Some raw \<and> owns_replicas X raw))" for es
    by (induction es) (auto split: option.splits)
  then show ?thesis
    unfolding ReplicasOwnedByOther_def owns by blast
qed

section \<open>A WebApp that is being deleted\<close>

lemma reconcile_deleted:
  assumes "srv_GetApp S [] req = Inr app" "om_DeletionTimestamp (wa_Meta app) \<noteq> None"
  shows "run_state (reconcile X S r req) [] =
    (case run_state (finalize X S app) [GetApp req (Inr app)] of (done, tr) \<Rightarrow> ((no_requeue, done), tr))"
  using assms by (simp add: reconcile_def client_GetApp_def split: prod.split)

lemma Reconcile_deleted_applies_nothing:
  assumes "srv_GetApp S [] req = Inr app" "om_DeletionTimestamp (wa_Meta app) \<noteq> None"
  shows "applied (snd (run_state (Reconcile X S r req) [])) = []"
proof -
  obtain fin tr where run: "run_state (finalize X S app) [GetApp req (Inr app)] = (fin, tr)" by fastforce
  have "applied tr = applied [GetApp req (Inr app)]"
    using tripleD [OF applied_frame [OF emits_no_apply(4)],
        of "\<lambda>as. as = applied [GetApp req (Inr app)]" "[GetApp req (Inr app)]" X S app] run by simp
  moreover have "run_state (reconcile X S r req) [] = ((no_requeue, fin), tr)"
    using reconcile_deleted [OF assms, of X r] run by simp
  ultimately show ?thesis by (simp add: Reconcile_run)
qed

section \<open>What answers are possible\<close>

lemma Reconcile_answer:
  "fst (fst (run_state (Reconcile X S r req) tr)) \<in> {no_requeue, \<lparr>ct_RequeueAfter = externalRetry\<rparr>} \<and>
   (ct_RequeueAfter (fst (fst (run_state (Reconcile X S r req) tr))) \<noteq> 0 \<longrightarrow>
      snd (fst (run_state (Reconcile X S r req) tr)) = None)"
proof -
  let ?Q = "\<lambda>res (tr :: trace). fst res \<in> {no_requeue, \<lparr>ct_RequeueAfter = externalRetry\<rparr>} \<and>
    (ct_RequeueAfter (fst res) \<noteq> 0 \<longrightarrow> snd res = None)"
  have any: "triple (\<lambda>_. True) m (\<lambda>_ _. True)" for m :: "'b run" by (simp add: triple_def)
  have zero: "?Q (no_requeue, e) tr" for e tr by (simp add: no_requeue_def)
  have failed: "triple (\<lambda>_. True) (reconcile_failed X S app base err) ?Q" for app base err
    unfolding triple_def
  proof (intro allI impI)
    fix tr
    obtain reply a tr' where "run_state (reconcile_failed X S app base err) tr =
        (failure_answer err reply, tr' @ [PatchStatus a base reply])"
      by (rule reconcile_failed_run) blast
    then show "?Q (fst (run_state (reconcile_failed X S app base err) tr))
        (snd (run_state (reconcile_failed X S app base err) tr))"
      by (simp add: failure_answer_def no_requeue_def split: option.split)
  qed
  have report: "triple (\<lambda>_. True) (reconcile_report X S app base dep) ?Q" for app base dep
    unfolding triple_def
  proof (intro allI impI)
    fix tr
    obtain reply tr' a where "run_state (reconcile_report X S app base dep) tr =
        ((no_requeue, reply), tr' @ [PatchStatus a base reply])"
      by (rule reconcile_report_run) blast
    then show "?Q (fst (run_state (reconcile_report X S app base dep) tr))
        (snd (run_state (reconcile_report X S app base dep) tr))"
      by (simp add: no_requeue_def)
  qed
  have rec: "triple (\<lambda>_. True) (reconcile X S r req) ?Q"
    unfolding reconcile_def
    apply (rule triple_bind [OF any], rule triple_sum)
     apply (rule triple_if)
      apply (rule triple_bind [OF any], rule triple_return, rule zero)
     apply (rule triple_return, rule zero)
    apply (rule triple_if)
     apply (rule triple_bind [OF any], rule triple_return, rule zero)
    apply (rule triple_bind [OF any], rule triple_sum)
     apply (rule triple_return, rule zero)
    apply (rule triple_bind [OF any], rule triple_option)
     apply (rule triple_bind [OF any], rule triple_sum)
      apply (rule triple_if)
       apply (rule triple_return, rule zero)
      apply (rule report)+
    apply (rule failed)
    done
  obtain res tr' where run: "run_state (reconcile X S r req) tr = (res, tr')" by fastforce
  from tripleD [OF rec, of tr] have "?Q res tr'" by (simp add: run)
  with Reconcile_run [OF run] show ?thesis by simp
qed

end
