(* ===== verification/Warp_Pattern.thy ===== *)
theory Warp_Pattern
  imports Warp_Deployment
begin

text \<open>
  The regular expressions of the schema markers and of the CEL rules. A pattern is a value of \<open>regex\<close>,
  written down piece by piece from the marker; \<open>full_match\<close> runs it over a string, and \<open>generates\<close> says
  which strings it stands for. The anchors \<open>^\<close> and \<open>$\<close> around a marker's pattern are the two ends of the
  string, so \<open>full_match\<close> is what the API server checks.

  The lemmas after it read each pattern as a statement about the parts of a string between separators,
  which is how the documentation of Kubernetes' names puts it.
\<close>

section \<open>Patterns\<close>

datatype regex =
    Never
  | Blank
  | OneOf string
  | Chain regex regex
  | Choice regex regex
  | Many regex

abbreviation Optional :: "regex \<Rightarrow> regex" where "Optional r \<equiv> Choice Blank r"
abbreviation AtLeastOne :: "regex \<Rightarrow> regex" where "AtLeastOne r \<equiv> Chain r (Many r)"

text \<open>A word, and more words after a separator: \<open>w(sw)*\<close>.\<close>

abbreviation Separated :: "char \<Rightarrow> regex \<Rightarrow> regex" where
  "Separated c w \<equiv> Chain w (Many (Chain (OneOf [c]) w))"

fun skippable :: "regex \<Rightarrow> bool" where
  "skippable Never = False"
| "skippable Blank = True"
| "skippable (OneOf cs) = False"
| "skippable (Chain r q) = (skippable r \<and> skippable q)"
| "skippable (Choice r q) = (skippable r \<or> skippable q)"
| "skippable (Many r) = True"

text \<open>What a pattern still has to match after a character.\<close>

fun rest_after :: "char \<Rightarrow> regex \<Rightarrow> regex" where
  "rest_after x Never = Never"
| "rest_after x Blank = Never"
| "rest_after x (OneOf cs) = (if x \<in> set cs then Blank else Never)"
| "rest_after x (Chain r q) =
     (if skippable r then Choice (Chain (rest_after x r) q) (rest_after x q)
      else Chain (rest_after x r) q)"
| "rest_after x (Choice r q) = Choice (rest_after x r) (rest_after x q)"
| "rest_after x (Many r) = Chain (rest_after x r) (Many r)"

fun full_match :: "regex \<Rightarrow> string \<Rightarrow> bool" where
  "full_match r [] = skippable r"
| "full_match r (x # s) = full_match (rest_after x r) s"

inductive generates :: "regex \<Rightarrow> string \<Rightarrow> bool" where
  blank: "generates Blank []"
| one: "x \<in> set cs \<Longrightarrow> generates (OneOf cs) [x]"
| chain: "generates r s \<Longrightarrow> generates q t \<Longrightarrow> generates (Chain r q) (s @ t)"
| first: "generates r s \<Longrightarrow> generates (Choice r q) s"
| second: "generates q s \<Longrightarrow> generates (Choice r q) s"
| stop: "generates (Many r) []"
| more: "generates r s \<Longrightarrow> generates (Many r) t \<Longrightarrow> generates (Many r) (s @ t)"

declare generates.intros [intro]

inductive_simps generates_simps [simp]:
  "generates Never s" "generates Blank s" "generates (OneOf cs) s" "generates (Choice r q) s"

inductive_simps generates_Chain: "generates (Chain r q) s"
inductive_cases generates_ManyE: "generates (Many r) s"

lemma skippable_iff: "skippable r \<longleftrightarrow> generates r []"
  by (induction r) (auto simp: generates_Chain)

lemma Many_Cons:
  assumes "generates (Many r) u" "u = x # s"
  shows "\<exists>a b. s = a @ b \<and> generates r (x # a) \<and> generates (Many r) b"
  using assms
proof (induction "Many r" u arbitrary: s rule: generates.induct)
  case (more w t)
  then show ?case by (cases w) auto
qed simp

lemma rest_after_iff: "generates (rest_after x r) s \<longleftrightarrow> generates r (x # s)"
proof (induction r arbitrary: s)
  case (Chain r q)
  have "generates (Chain r q) (x # s) \<longleftrightarrow>
      (\<exists>a b. s = a @ b \<and> generates r (x # a) \<and> generates q b) \<or> generates r [] \<and> generates q (x # s)"
    unfolding generates_Chain by (auto simp: Cons_eq_append_conv)
  then show ?case
    using Chain.IH by (auto simp: generates_Chain skippable_iff)
next
  case (Many r)
  have "generates (rest_after x (Many r)) s \<longleftrightarrow>
      (\<exists>a b. s = a @ b \<and> generates r (x # a) \<and> generates (Many r) b)"
    using Many.IH by (auto simp: generates_Chain)
  also have "\<dots> \<longleftrightarrow> generates (Many r) (x # s)"
    using Many_Cons [of r "x # s" x s] by (auto dest: more)
  finally show ?case .
qed auto

theorem full_match_iff: "full_match r s \<longleftrightarrow> generates r s"
  by (induction s arbitrary: r) (simp_all add: skippable_iff rest_after_iff)

lemma generates_Many_OneOf: "generates (Many (OneOf cs)) s \<longleftrightarrow> set s \<subseteq> set cs"
proof
  show "generates (Many (OneOf cs)) s \<Longrightarrow> set s \<subseteq> set cs"
    by (induction "Many (OneOf cs)" s rule: generates.induct) auto
  show "set s \<subseteq> set cs \<Longrightarrow> generates (Many (OneOf cs)) s"
  proof (induction s)
    case (Cons x s)
    then have "generates (Many (OneOf cs)) ([x] @ s)" by (intro generates.more) auto
    then show ?case by simp
  qed auto
qed

lemma generates_AtLeastOne_OneOf: "generates (AtLeastOne (OneOf cs)) s \<longleftrightarrow> s \<noteq> [] \<and> set s \<subseteq> set cs"
proof
  assume s: "s \<noteq> [] \<and> set s \<subseteq> set cs"
  then have "generates (OneOf cs) [hd s]" "generates (Many (OneOf cs)) (tl s)"
    by (cases s; auto simp: generates_Many_OneOf)+
  then have "generates (AtLeastOne (OneOf cs)) ([hd s] @ tl s)" by (rule generates.chain)
  with s show "generates (AtLeastOne (OneOf cs)) s" by simp
qed (auto simp: generates_Chain generates_Many_OneOf)

section \<open>Parts between separators\<close>

fun split_on :: "char \<Rightarrow> string \<Rightarrow> string list" where
  "split_on c [] = [[]]"
| "split_on c (x # xs) =
     (if x = c then [] # split_on c xs
      else (x # hd (split_on c xs)) # tl (split_on c xs))"

fun join_with :: "char \<Rightarrow> string list \<Rightarrow> string" where
  "join_with c [] = []"
| "join_with c [p] = p"
| "join_with c (p # q # ps) = p @ c # join_with c (q # ps)"

lemma split_on_nonempty [simp]: "split_on c s \<noteq> []"
  by (cases s) auto

lemma join_with_Cons: "join_with c (p # ps) = p @ (if ps = [] then [] else c # join_with c ps)"
  by (cases ps) auto

lemma join_split [simp]: "join_with c (split_on c s) = s"
proof (induction s)
  case (Cons x s)
  have "join_with c ((x # hd (split_on c s)) # tl (split_on c s)) = x # join_with c (split_on c s)"
    by (cases "split_on c s") (simp_all add: join_with_Cons)
  with Cons show ?case by (simp add: join_with_Cons)
qed simp

lemma split_on_word: "c \<notin> set p \<Longrightarrow> split_on c p = [p]"
  by (induction p) auto

lemma split_on_append: "c \<notin> set p \<Longrightarrow> split_on c (p @ c # s) = p # split_on c s"
  by (induction p) auto

lemma split_join: "ps \<noteq> [] \<Longrightarrow> \<forall>p \<in> set ps. c \<notin> set p \<Longrightarrow> split_on c (join_with c ps) = ps"
proof (induction ps)
  case (Cons p ps)
  then show ?case
    by (cases ps) (simp_all add: split_on_word split_on_append)
qed simp

lemma split_on_clean: "p \<in> set (split_on c s) \<Longrightarrow> c \<notin> set p"
proof (induction s arbitrary: p)
  case (Cons x s)
  then show ?case
    using hd_in_set [OF split_on_nonempty, of c s] list.set_sel(2) [OF split_on_nonempty, of _ c s]
    by (auto split: if_splits)
qed simp

lemma split_on_chars: "set s - {c} = \<Union> (set ` set (split_on c s))"
proof (induction s)
  case (Cons x s)
  then show ?case
    by (cases "split_on c s") auto
qed simp

text \<open>A pattern of separated words matches when each part matches the word.\<close>

lemma generates_Separated:
  assumes clean: "\<And>p. generates w p \<Longrightarrow> c \<notin> set p"
  shows "generates (Separated c w) s \<longleftrightarrow> (\<forall>p \<in> set (split_on c s). generates w p)"
proof -
  let ?more = "Many (Chain (OneOf [c]) w)"
  have tail: "t = [] \<or> (\<exists>u. t = c # u \<and> (\<forall>p \<in> set (split_on c u). generates w p))" if "generates ?more t" for t
    using that
  proof (induction ?more t rule: generates.induct)
    case (more s t)
    from more.hyps(1) obtain p where p: "s = c # p" "generates w p"
      by (auto simp: generates_Chain)
    have "c \<notin> set p" using p(2) by (rule clean)
    with p more.hyps(3) show ?case
      by (auto simp: split_on_word split_on_append)
  qed simp
  have join: "generates (Separated c w) (join_with c ps)" if "ps \<noteq> []" "\<forall>p \<in> set ps. generates w p" for ps
    using that
  proof (induction ps rule: join_with.induct)
    case (2 c p)
    then have "generates (Chain w (Many (Chain (OneOf [c]) w))) (p @ [])" by (intro generates.chain) auto
    then show ?case by simp
  next
    case (3 c p q ps)
    from 3 obtain a b where ab: "join_with c (q # ps) = a @ b" "generates w a"
        "generates (Many (Chain (OneOf [c]) w)) b"
      by (auto simp: generates_Chain)
    from ab(2) have "generates (Chain (OneOf [c]) w) ([c] @ a)" by (intro generates.chain) auto
    then have "generates (Many (Chain (OneOf [c]) w)) (([c] @ a) @ b)" using ab(3) by (rule generates.more)
    with 3(3) have "generates (Chain w (Many (Chain (OneOf [c]) w))) (p @ (([c] @ a) @ b))"
      by (intro generates.chain) auto
    then show ?case by (simp add: ab(1))
  qed simp
  show ?thesis
  proof
    assume "generates (Separated c w) s"
    then obtain p t where s: "s = p @ t" "generates w p" "generates ?more t"
      by (auto simp: generates_Chain)
    moreover have "c \<notin> set p" using s(2) by (rule clean)
    ultimately show "\<forall>p \<in> set (split_on c s). generates w p"
      using tail [OF s(3)] by (auto simp: split_on_word split_on_append)
  next
    assume "\<forall>p \<in> set (split_on c s). generates w p"
    from join [OF split_on_nonempty this] show "generates (Separated c w) s" by simp
  qed
qed

section \<open>The patterns of the schema\<close>

definition lower_chars :: string where [simp]: "lower_chars = ''abcdefghijklmnopqrstuvwxyz''"
definition digit_string :: string where [simp]: "digit_string = ''0123456789''"

text \<open>\<open>[a-z0-9]([-a-z0-9]*[a-z0-9])?\<close> and, for the name of a WebApp, \<open>[a-z]([-a-z0-9]*[a-z0-9])?\<close>.\<close>

definition label_from :: "string \<Rightarrow> regex" where
  "label_from start =
     Chain (OneOf start)
       (Optional (Chain (Many (OneOf (''-'' @ lower_chars @ digit_string))) (OneOf (lower_chars @ digit_string))))"

definition label_pattern :: regex where
  "label_pattern = label_from (lower_chars @ digit_string)"

definition app_name_pattern :: regex where
  "app_name_pattern = label_from lower_chars"

text \<open>\<open>[a-z0-9]+(-[a-z0-9]+)*\<close>\<close>

definition port_name_pattern :: regex where
  "port_name_pattern = Separated CHR ''-'' (AtLeastOne (OneOf (lower_chars @ digit_string)))"

text \<open>\<open>[a-z0-9]([-a-z0-9]*[a-z0-9])?(\.[a-z0-9]([-a-z0-9]*[a-z0-9])?)*\<close>\<close>

definition subdomain_pattern :: regex where
  "subdomain_pattern = Separated CHR ''.'' label_pattern"

text \<open>\<open>[0-9.]+\<close>\<close>

definition numeric_pattern :: regex where
  "numeric_pattern = AtLeastOne (OneOf (digit_string @ ''.''))"

lemma alnum_split: "alnum_chars = set (lower_chars @ digit_string)"
  by (simp add: alnum_chars_def)

lemma generates_label_from:
  assumes "set start \<subseteq> alnum_chars"
  shows "generates (label_from start) s \<longleftrightarrow> dns_label s \<and> hd s \<in> set start"
proof
  assume "generates (label_from start) s"
  then obtain x t where s: "s = x # t" "x \<in> set start"
      "t = [] \<or> (\<exists>m y. t = m @ [y] \<and> set m \<subseteq> insert (CHR ''-'') alnum_chars \<and> y \<in> alnum_chars)"
    unfolding label_from_def alnum_split
    by (auto simp del: lower_chars_def digit_string_def simp: generates_Chain generates_Many_OneOf)
  with assms show "dns_label s \<and> hd s \<in> set start"
    by (auto simp: dns_label_def)
next
  assume *: "dns_label s \<and> hd s \<in> set start"
  then obtain x t where s: "s = x # t" by (cases s) (auto simp: dns_label_def)
  have rest: "generates (Optional (Chain (Many (OneOf (''-'' @ lower_chars @ digit_string)))
      (OneOf (lower_chars @ digit_string)))) t"
  proof (cases t rule: rev_cases)
    case (snoc m y)
    with * s have "set m \<subseteq> set (''-'' @ lower_chars @ digit_string)" "y \<in> set (lower_chars @ digit_string)"
      by (auto simp: dns_label_def alnum_split simp del: lower_chars_def digit_string_def)
    then have "generates (Chain (Many (OneOf (''-'' @ lower_chars @ digit_string)))
        (OneOf (lower_chars @ digit_string))) (m @ [y])"
      by (intro generates.chain generates.one) (simp add: generates_Many_OneOf)
    with snoc show ?thesis by (intro generates.second) simp
  qed auto
  have "generates (OneOf start) [x]" using * s by auto
  from generates.chain [OF this rest] s show "generates (label_from start) s"
    by (simp add: label_from_def)
qed

lemma label_pattern_iff: "full_match label_pattern s \<longleftrightarrow> dns_label s"
  unfolding full_match_iff label_pattern_def
  by (subst generates_label_from) (auto simp: alnum_split dns_label_def simp del: lower_chars_def digit_string_def)

lemma app_name_pattern_iff: "full_match app_name_pattern s \<longleftrightarrow> dns_label s \<and> hd s \<in> set lower_chars"
  unfolding full_match_iff app_name_pattern_def
  by (subst generates_label_from) (auto simp: alnum_split simp del: lower_chars_def digit_string_def)

lemma subdomain_pattern_iff: "full_match subdomain_pattern s \<longleftrightarrow> (\<forall>p \<in> set (split_on CHR ''.'' s). dns_label p)"
proof -
  have label: "generates label_pattern p \<longleftrightarrow> dns_label p" for p
    using label_pattern_iff full_match_iff by simp
  have "CHR ''.'' \<notin> insert (CHR ''-'') alnum_chars"
    by (simp add: alnum_chars_def)
  then have "CHR ''.'' \<notin> set p" if "dns_label p" for p
    using that unfolding dns_label_def by blast
  then show ?thesis
    unfolding full_match_iff subdomain_pattern_def
    by (subst generates_Separated) (simp_all add: label)
qed

lemma port_name_pattern_iff:
  "full_match port_name_pattern s \<longleftrightarrow> (\<forall>p \<in> set (split_on CHR ''-'' s). p \<noteq> [] \<and> set p \<subseteq> alnum_chars)"
proof -
  have word: "generates (AtLeastOne (OneOf (lower_chars @ digit_string))) p \<longleftrightarrow> p \<noteq> [] \<and> set p \<subseteq> alnum_chars" for p
    unfolding alnum_split by (rule generates_AtLeastOne_OneOf)
  show ?thesis
    unfolding full_match_iff port_name_pattern_def
    by (subst generates_Separated) (auto simp: word simp del: lower_chars_def digit_string_def)
qed

lemma numeric_pattern_iff: "full_match numeric_pattern s \<longleftrightarrow> s \<noteq> [] \<and> set s \<subseteq> set (digit_string @ ''.'')"
  unfolding full_match_iff numeric_pattern_def by (rule generates_AtLeastOne_OneOf)

text \<open>No empty part: no separator at either end and no two in a row.\<close>

lemma hd_split_on: "hd (split_on c s) = [] \<longleftrightarrow> s = [] \<or> hd s = c"
  by (cases s) auto

lemma later_parts_nonempty_iff:
  "(\<forall>p \<in> set (tl (split_on c s)). p \<noteq> []) \<longleftrightarrow> s = [] \<or> last s \<noteq> c \<and> \<not> sublist [c, c] s"
proof (induction s)
  case (Cons x s)
  have all: "(\<forall>p \<in> set (split_on c s). p \<noteq> []) \<longleftrightarrow> (s \<noteq> [] \<and> hd s \<noteq> c) \<and> (\<forall>p \<in> set (tl (split_on c s)). p \<noteq> [])"
    using hd_split_on [of c s] by (cases "split_on c s") auto
  show ?case
    using Cons.IH all by (cases s) (auto simp: sublist_Cons_right)
qed simp

lemma parts_nonempty_iff:
  "(\<forall>p \<in> set (split_on c s). p \<noteq> []) \<longleftrightarrow>
     s \<noteq> [] \<and> hd s \<noteq> c \<and> last s \<noteq> c \<and> \<not> sublist [c, c] s"
  using hd_split_on [of c s] later_parts_nonempty_iff [of c s] by (cases "split_on c s") auto

text \<open>A word is one of the later parts when it stands between two separators or after the last one.\<close>

lemma hd_part_iff: "c \<notin> set w \<Longrightarrow> hd (split_on c s) = w \<longleftrightarrow> s = w \<or> prefix (w @ [c]) s"
proof (induction s arbitrary: w)
  case Nil
  then show ?case by auto
next
  case (Cons x s)
  then show ?case by (cases w) auto
qed

lemma later_part_iff:
  assumes "c \<notin> set w"
  shows "w \<in> set (tl (split_on c s)) \<longleftrightarrow> sublist (c # w @ [c]) s \<or> suffix (c # w) s"
proof (induction s)
  case (Cons x s)
  have "set (split_on c s) = insert (hd (split_on c s)) (set (tl (split_on c s)))"
    by (cases "split_on c s") auto
  then show ?case
    using Cons.IH hd_part_iff [OF assms, of s] by (auto simp: sublist_Cons_right suffix_Cons)
qed simp

lemma prefix_ended_iff:
  assumes "\<forall>q \<in> set qs. c \<notin> set q" "\<forall>p \<in> set ps. c \<notin> set p"
  shows "prefix (concat (map (\<lambda>q. q @ [c]) qs)) (concat (map (\<lambda>p. p @ [c]) ps)) \<longleftrightarrow> prefix qs ps"
  using assms
proof (induction qs arbitrary: ps)
  case (Cons q qs)
  show ?case
  proof (cases ps)
    case [simp]: (Cons p ps')
    have "p @ c # t = q @ c # s \<longleftrightarrow> p = q \<and> t = s" for s t
      using Cons.prems by (auto simp: append_eq_append_conv2 append_eq_Cons_conv Cons_eq_append_conv)
    then have "prefix (q @ c # s) (p @ c # t) \<longleftrightarrow> q = p \<and> prefix s t" for s t
      by (auto simp: prefix_def)
    with Cons.IH Cons.prems show ?thesis by simp
  qed simp
qed simp

lemma join_ended: "ps \<noteq> [] \<Longrightarrow> join_with c ps @ [c] = concat (map (\<lambda>p. p @ [c]) ps)"
  by (induction ps) (auto simp: join_with_Cons)

lemma prefix_join_iff:
  assumes "qs \<noteq> []" "\<forall>q \<in> set qs. c \<notin> set q" "ps \<noteq> []" "\<forall>p \<in> set ps. c \<notin> set p"
  shows "prefix (join_with c qs @ [c]) (join_with c ps @ [c]) \<longleftrightarrow> prefix qs ps"
  using assms by (simp add: join_ended prefix_ended_iff)

end
