(* ===== verification/Warp_Schema.thy ===== *)
theory Warp_Schema
  imports Warp_Pattern Warp_Admission
begin

text \<open>
  The rules the markers of \<^verbatim>\<open>api/v1alpha1/*_types.go\<close> put into the CRD: bounds, enumerations, patterns,
  list-map keys, CEL rules, and the defaults the API server fills in before it checks them. They hold for
  every stored WebApp, with or without the webhook.

  The rules speak of the JSON object; here they are read on the Go value it decodes to. A field with
  omitempty that has its zero value is absent from the JSON a Go client writes, so \<open>has(self.f)\<close> is that
  the field is not zero, and a pattern or a length applies to a field only when it is there. Lengths
  count Unicode code points.
\<close>

section \<open>Defaults of the schema\<close>

definition schema_scratch :: "ScratchVolume \<Rightarrow> ScratchVolume" where
  "schema_scratch v = (if sw_Medium v = [] then v\<lparr>sw_Medium := ScratchMediumDisk\<rparr> else v)"

definition schema_port :: "ContainerPort \<Rightarrow> ContainerPort" where
  "schema_port p = (if cp_Protocol p = [] then p\<lparr>cp_Protocol := ProtocolTCP\<rparr> else p)"

definition schema_container :: "Container \<Rightarrow> Container" where
  "schema_container c =
     c\<lparr>cn_Ports := map schema_port (cn_Ports c), cn_ScratchVolumes := map schema_scratch (cn_ScratchVolumes c)\<rparr>"

definition schema_autoscaling :: "AutoscalingSpec \<Rightarrow> AutoscalingSpec" where
  "schema_autoscaling a = (if as_MinReplicas a = None then a\<lparr>as_MinReplicas := Some 1\<rparr> else a)"

definition schema_strategy :: "StrategySpec \<Rightarrow> StrategySpec" where
  "schema_strategy s = (if ss_Type s = [] then s\<lparr>ss_Type := RollingUpdateDeploymentStrategyType\<rparr> else s)"

definition schema_defaults :: "WebApp \<Rightarrow> WebApp" where
  "schema_defaults app =
     (let s = wa_Spec app
      in app\<lparr>wa_Spec := s
           \<lparr>ws_Containers := map schema_container (ws_Containers s),
            ws_ServiceType := (if ws_ServiceType s = [] then ServiceTypeClusterIP else ws_ServiceType s),
            ws_Replicas := (case ws_Replicas s of None \<Rightarrow> Some 1 | Some n \<Rightarrow> Some n),
            ws_Autoscaling := map_option schema_autoscaling (ws_Autoscaling s),
            ws_Strategy := map_option schema_strategy (ws_Strategy s),
            ws_AutomountServiceAccountToken :=
              (case ws_AutomountServiceAccountToken s of None \<Rightarrow> Some False | Some b \<Rightarrow> Some b)\<rparr>\<rparr>)"

definition schema_policy_defaults :: "WebAppPolicy \<Rightarrow> WebAppPolicy" where
  "schema_policy_defaults p =
     (let s = wp_Spec p
      in p\<lparr>wp_Spec := s\<lparr>py_Enforcement :=
             (if py_Enforcement s = [] then EnforcementEnforce else py_Enforcement s)\<rparr>\<rparr>)"

section \<open>Rules\<close>

text \<open>The code points of a UTF-8 string: the bytes that do not continue one.\<close>

definition rune_count :: "string \<Rightarrow> nat" where
  "rune_count s = length (filter (\<lambda>c. \<not> (128 \<le> (of_char c :: nat) \<and> (of_char c :: nat) < 192)) s)"

definition positive :: "int option \<Rightarrow> bool" where
  "positive n \<longleftrightarrow> pred_option (\<lambda>i. 1 \<le> i) n"

definition name_schema :: "string \<Rightarrow> bool" where
  "name_schema s \<longleftrightarrow> 1 \<le> rune_count s \<and> rune_count s \<le> 63 \<and> full_match label_pattern s"

subsection \<open>Scratch volumes\<close>

definition reserved_mounts :: "string list" where
  "reserved_mounts = [''/proc/'', ''/sys/'', ''/dev/'', ''/etc/'', ''/var/run/secrets/'', ''/run/secrets/'']"

definition mount_not_reserved :: "string \<Rightarrow> bool" where
  "mount_not_reserved s \<longleftrightarrow>
     s \<noteq> ''/'' \<and> \<not> list_ex (\<lambda>p. HasPrefix (s @ ''/'') p) reserved_mounts"

definition mount_clean :: "string \<Rightarrow> bool" where
  "mount_clean s \<longleftrightarrow>
     \<not> Contains s ''//'' \<and> \<not> Contains s ''/../'' \<and> \<not> HasSuffix s ''/..'' \<and>
     \<not> Contains s ''/./'' \<and> \<not> HasSuffix s ''/.'' \<and> (s = ''/'' \<or> \<not> HasSuffix s ''/'')"

definition mount_path_schema :: "string \<Rightarrow> bool" where
  "mount_path_schema s \<longleftrightarrow>
     1 \<le> rune_count s \<and> rune_count s \<le> 4096 \<and> HasPrefix s ''/'' \<and> mount_not_reserved s \<and> mount_clean s"

definition scratch_schema :: "ScratchVolume \<Rightarrow> bool" where
  "scratch_schema v \<longleftrightarrow>
     name_schema (sw_Name v) \<and> mount_path_schema (sw_MountPath v) \<and>
     sw_Medium v \<in> {ScratchMediumDisk, ScratchMediumMemory} \<and>
     (sw_Medium v \<noteq> ScratchMediumMemory \<or> sw_SizeLimit v \<noteq> None)"

text \<open>\<open>self.all(v, self.exists_one(w, w.mountPath == v.mountPath))\<close>\<close>

definition mounts_unique :: "ScratchVolume list \<Rightarrow> bool" where
  "mounts_unique vs \<longleftrightarrow>
     list_all (\<lambda>v. length (filter (\<lambda>w. sw_MountPath w = sw_MountPath v) vs) = 1) vs"

subsection \<open>Ports, security contexts, containers\<close>

definition port_name_schema :: "string \<Rightarrow> bool" where
  "port_name_schema s \<longleftrightarrow>
     rune_count s \<le> 15 \<and> full_match port_name_pattern s \<and> list_ex (\<lambda>c. c \<in> set lower_chars) s"

definition port_schema :: "ContainerPort \<Rightarrow> bool" where
  "port_schema p \<longleftrightarrow>
     (cp_Name p \<noteq> [] \<longrightarrow> port_name_schema (cp_Name p)) \<and>
     1 \<le> cp_ContainerPort p \<and> cp_ContainerPort p \<le> 65535 \<and>
     cp_Protocol p \<in> {ProtocolTCP, ProtocolUDP}"

definition container_security_schema :: "ContainerSecurityContext \<Rightarrow> bool" where
  "container_security_schema s \<longleftrightarrow> positive (cs_RunAsUser s) \<and> positive (cs_RunAsGroup s)"

definition pod_security_schema :: "PodSecurityContext \<Rightarrow> bool" where
  "pod_security_schema s \<longleftrightarrow>
     positive (px_RunAsUser s) \<and> positive (px_RunAsGroup s) \<and> positive (px_FSGroup s)"

definition container_schema :: "Container \<Rightarrow> bool" where
  "container_schema c \<longleftrightarrow>
     name_schema (cn_Name c) \<and> 1 \<le> rune_count (cn_Image c) \<and>
     length (cn_Ports c) \<le> 32 \<and> distinct (map portKeyOf (cn_Ports c)) \<and> list_all port_schema (cn_Ports c) \<and>
     pred_option container_security_schema (cn_SecurityContext c) \<and>
     length (cn_ScratchVolumes c) \<le> 8 \<and> distinct (map sw_Name (cn_ScratchVolumes c)) \<and>
     mounts_unique (cn_ScratchVolumes c) \<and> list_all scratch_schema (cn_ScratchVolumes c)"

subsection \<open>Autoscaling, strategy, spec\<close>

definition autoscaling_schema :: "AutoscalingSpec \<Rightarrow> bool" where
  "autoscaling_schema a \<longleftrightarrow>
     positive (as_MinReplicas a) \<and> positive (as_MaxReplicas a) \<and>
     positive (as_TargetCPU a) \<and> positive (as_TargetMemory a) \<and>
     (\<not> as_Enabled a \<or> as_MaxReplicas a \<noteq> None) \<and>
     (case (as_MaxReplicas a, as_MinReplicas a) of (Some mx, Some mn) \<Rightarrow> mx \<ge> mn | _ \<Rightarrow> True)"

definition strategy_schema :: "StrategySpec \<Rightarrow> bool" where
  "strategy_schema s \<longleftrightarrow>
     ss_Type s \<in> {RollingUpdateDeploymentStrategyType, RecreateDeploymentStrategyType} \<and>
     (ss_RollingUpdate s = None \<or> ss_Type s = RollingUpdateDeploymentStrategyType)"

definition subdomain_schema :: "string \<Rightarrow> bool" where
  "subdomain_schema s \<longleftrightarrow> rune_count s \<le> 253 \<and> full_match subdomain_pattern s"

definition reserved_label :: "string \<Rightarrow> bool" where
  "reserved_label k \<longleftrightarrow>
     k \<in> set [''app.kubernetes.io/name'', ''app.kubernetes.io/instance'',
             ''app.kubernetes.io/managed-by'', ''pod-template-hash'']
     \<or> HasPrefix k ''webapps.example.com/''"

definition spec_schema :: "WebAppSpec \<Rightarrow> bool" where
  "spec_schema s \<longleftrightarrow>
     1 \<le> length (ws_Containers s) \<and> length (ws_Containers s) \<le> 16 \<and>
     distinct (map cn_Name (ws_Containers s)) \<and> list_all container_schema (ws_Containers s) \<and>
     (ws_Domain s \<noteq> [] \<longrightarrow> subdomain_schema (ws_Domain s) \<and> \<not> full_match numeric_pattern (ws_Domain s)) \<and>
     (ws_IngressClassName s = None \<or> ws_Domain s \<noteq> []) \<and>
     (ws_IngressPortName s = [] \<or> ws_Domain s \<noteq> []) \<and> rune_count (ws_IngressPortName s) \<le> 15 \<and>
     ws_ServiceType s \<in> {''ClusterIP'', ''NodePort'', ''LoadBalancer''} \<and>
     pred_option (\<lambda>n. 0 \<le> n) (ws_Replicas s) \<and>
     pred_option autoscaling_schema (ws_Autoscaling s) \<and> pred_option strategy_schema (ws_Strategy s) \<and>
     (ws_ServiceAccountName s \<noteq> [] \<longrightarrow> subdomain_schema (ws_ServiceAccountName s)) \<and>
     pred_option pod_security_schema (ws_SecurityContext s) \<and>
     fcard (fmdom (ws_PodLabels s)) \<le> 32 \<and> list_all (\<lambda>k. \<not> reserved_label k) (sorted_keys (ws_PodLabels s)) \<and>
     fcard (fmdom (ws_PodAnnotations s)) \<le> 32 \<and>
     list_all (\<lambda>k. \<not> HasPrefix k ''webapps.example.com/'') (sorted_keys (ws_PodAnnotations s))"

definition app_name_schema :: "string \<Rightarrow> bool" where
  "app_name_schema s \<longleftrightarrow> rune_count s \<le> 63 \<and> full_match app_name_pattern s"

definition webapp_schema :: "WebApp \<Rightarrow> bool" where
  "webapp_schema app \<longleftrightarrow> app_name_schema (app_Name app) \<and> spec_schema (wa_Spec app)"

subsection \<open>Policies\<close>

definition constrained_keys :: "ResourceList \<Rightarrow> bool" where
  "constrained_keys m \<longleftrightarrow> list_all (\<lambda>k. k \<in> {''cpu'', ''memory'', ''ephemeral-storage''}) (sorted_keys m)"

definition resource_policy_schema :: "ResourcePolicy \<Rightarrow> bool" where
  "resource_policy_schema r \<longleftrightarrow> constrained_keys (rp_MinRequests r) \<and> constrained_keys (rp_MaxLimits r)"

definition policy_schema :: "WebAppPolicy \<Rightarrow> bool" where
  "policy_schema p \<longleftrightarrow>
     (let s = wp_Spec p
      in pred_option resource_policy_schema (py_Resources s) \<and>
         length (py_AllowedServiceAccounts s) \<le> 32 \<and>
         length (py_ForbiddenPodAnnotationPrefixes s) \<le> 32 \<and>
         positive (py_MaxReplicas s) \<and>
         py_Enforcement s \<in> {EnforcementEnforce, EnforcementWarn, EnforcementAudit})"

section \<open>The rules in terms of names and paths\<close>

lemma rune_count_ascii: "\<forall>c \<in> set s. (of_char c :: nat) < 128 \<Longrightarrow> rune_count s = length s"
  unfolding rune_count_def by (subst filter_True) auto

lemma alnum_ascii: "c \<in> alnum_chars \<Longrightarrow> (of_char c :: nat) < 128"
  by (auto simp: alnum_chars_def)

lemma label_ascii: "set s \<subseteq> insert (CHR ''-'') alnum_chars \<Longrightarrow> rune_count s = length s"
  by (rule rune_count_ascii) (auto dest!: subsetD alnum_ascii)

text \<open>
  What the functions of util/validation document: an RFC 1123 label, an RFC 1123 subdomain, an IANA
  service name.
\<close>

definition service_name :: "string \<Rightarrow> bool" where
  "service_name s \<longleftrightarrow>
     s \<noteq> [] \<and> length s \<le> 15 \<and> set s \<subseteq> insert (CHR ''-'') alnum_chars \<and>
     (\<exists>c \<in> set s. c \<in> set lower_chars) \<and>
     hd s \<noteq> CHR ''-'' \<and> last s \<noteq> CHR ''-'' \<and> \<not> sublist ''--'' s"

definition subdomain :: "string \<Rightarrow> bool" where
  "subdomain s \<longleftrightarrow> length s \<le> 253 \<and> (\<forall>p \<in> set (split_on CHR ''.'' s). dns_label p)"

definition names_documented :: "k8s \<Rightarrow> bool" where
  "names_documented X \<longleftrightarrow>
     (\<forall>s. IsDNS1123Label X s = [] \<longleftrightarrow> dns_label s \<and> length s \<le> 63) \<and>
     (\<forall>s. IsDNS1123Subdomain X s = [] \<longleftrightarrow> subdomain s) \<and>
     (\<forall>s. IsValidPortName X s = [] \<longleftrightarrow> service_name s)"

lemma name_schema_iff: "name_schema s \<longleftrightarrow> dns_label s \<and> length s \<le> 63"
proof -
  have "rune_count s = length s \<and> s \<noteq> []" if "dns_label s"
    using that label_ascii [of s] by (auto simp: dns_label_def)
  then show ?thesis
    unfolding name_schema_def label_pattern_iff by (auto simp: Suc_le_eq)
qed

lemma app_name_schema_iff:
  "app_name_schema s \<longleftrightarrow> dns_label s \<and> hd s \<in> set lower_chars \<and> length s \<le> 63"
  unfolding app_name_schema_def app_name_pattern_iff
  using label_ascii [of s] by (auto simp: dns_label_def simp del: lower_chars_def)

lemma port_name_schema_iff: "port_name_schema s \<longleftrightarrow> service_name s"
proof -
  have parts: "full_match port_name_pattern s \<longleftrightarrow>
      s \<noteq> [] \<and> hd s \<noteq> CHR ''-'' \<and> last s \<noteq> CHR ''-'' \<and> \<not> sublist ''--'' s \<and>
      set s \<subseteq> insert (CHR ''-'') alnum_chars"
  proof -
    have "(\<forall>p \<in> set (split_on CHR ''-'' s). set p \<subseteq> alnum_chars) \<longleftrightarrow> set s - {CHR ''-''} \<subseteq> alnum_chars"
      unfolding split_on_chars by blast
    then show ?thesis
      using parts_nonempty_iff [of "CHR ''-''" s] unfolding port_name_pattern_iff by blast
  qed
  show ?thesis
    unfolding port_name_schema_def parts service_name_def list_ex_iff
    using label_ascii [of s] by auto
qed

lemma subdomain_schema_iff: "subdomain_schema s \<longleftrightarrow> subdomain s"
proof -
  have "rune_count s = length s" if labels: "\<forall>p \<in> set (split_on CHR ''.'' s). dns_label p"
  proof (rule rune_count_ascii, rule ballI)
    fix c
    assume "c \<in> set s"
    then have "c = CHR ''.'' \<or> (\<exists>p \<in> set (split_on CHR ''.'' s). c \<in> set p)"
      using split_on_chars [of s "CHR ''.''"] by blast
    with labels have "c \<in> {CHR ''.'', CHR ''-''} \<union> alnum_chars"
      by (auto simp: dns_label_def)
    then show "(of_char c :: nat) < 128" by (auto dest: alnum_ascii)
  qed
  then show ?thesis
    by (auto simp: subdomain_schema_def subdomain_def subdomain_pattern_iff)
qed

lemma mounts_unique_iff: "mounts_unique vs \<longleftrightarrow> distinct (map sw_MountPath vs)"
proof -
  have "distinct (map f xs) \<longleftrightarrow> (\<forall>x \<in> set xs. length (filter (\<lambda>y. f y = f x) xs) = 1)"
    for f :: "ScratchVolume \<Rightarrow> string" and xs
  proof (induction xs)
    case (Cons x xs)
    have "f x \<notin> f ` set xs \<longleftrightarrow> filter (\<lambda>y. f y = f x) xs = []"
      by (auto simp: filter_empty_conv image_iff)
    moreover have "length (filter (\<lambda>y. f y = f z) (x # xs)) = length (filter (\<lambda>y. f y = f z) xs)"
      if "f x \<notin> f ` set xs" "z \<in> set xs" for z
      using that by auto
    moreover have "filter (\<lambda>y. f y = f x) xs \<noteq> []" if "z \<in> set xs" "f z = f x" for z
      using that by (auto simp: filter_empty_conv)
    ultimately show ?case using Cons.IH by (auto simp: image_iff)
  qed simp
  then show ?thesis by (simp add: mounts_unique_def list_all_iff)
qed

subsection \<open>Mount paths\<close>

text \<open>The directories of an absolute path, and the trees no volume may be mounted in.\<close>

definition path_parts :: "string \<Rightarrow> string list" where
  "path_parts s = tl (split_on CHR ''/'' s)"

definition reserved_trees :: "string list list" where
  "reserved_trees =
     [[''proc''], [''sys''], [''dev''], [''etc''], [''var'', ''run'', ''secrets''], [''run'', ''secrets'']]"

definition mount_path_ok :: "string \<Rightarrow> bool" where
  "mount_path_ok s \<longleftrightarrow>
     HasPrefix s ''/'' \<and> s \<noteq> ''/'' \<and>
     (\<forall>p \<in> set (path_parts s). p \<notin> {[], ''.'', ''..''}) \<and>
     (\<forall>t \<in> set reserved_trees. \<not> prefix t (path_parts s))"

lemma mount_clean_iff:
  assumes "s \<noteq> ''/''"
  shows "mount_clean s \<longleftrightarrow> (\<forall>p \<in> set (path_parts s). p \<notin> {[], ''.'', ''..''})"
proof -
  have part: "w \<in> set (path_parts s) \<longleftrightarrow> sublist (CHR ''/'' # w @ [CHR ''/'']) s \<or> suffix (CHR ''/'' # w) s"
    if "CHR ''/'' \<notin> set w" for w
    unfolding path_parts_def using that by (rule later_part_iff)
  show ?thesis
    using assms part [of "[]"] part [of "''.''"] part [of "''..''"]
    by (auto simp: mount_clean_def Contains_def HasSuffix_def)
qed

lemma mount_not_reserved_iff:
  assumes "HasPrefix s ''/''"
  shows "mount_not_reserved s \<longleftrightarrow> s \<noteq> ''/'' \<and> (\<forall>t \<in> set reserved_trees. \<not> prefix t (path_parts s))"
proof -
  obtain u where u: "s = CHR ''/'' # u"
    using assms by (auto simp: HasPrefix_def prefix_def)
  then have parts: "path_parts s = split_on CHR ''/'' u"
    by (simp add: path_parts_def)
  have tree: "HasPrefix (s @ ''/'') (CHR ''/'' # join_with CHR ''/'' t @ ''/'') \<longleftrightarrow> prefix t (path_parts s)"
    if "t \<noteq> []" "\<forall>q \<in> set t. CHR ''/'' \<notin> set q" for t
  proof -
    have "HasPrefix (s @ ''/'') (CHR ''/'' # join_with CHR ''/'' t @ ''/'') \<longleftrightarrow>
        prefix (join_with CHR ''/'' t @ ''/'') (join_with CHR ''/'' (split_on CHR ''/'' u) @ ''/'')"
      by (simp add: HasPrefix_def u)
    also have "\<dots> \<longleftrightarrow> prefix t (split_on CHR ''/'' u)"
      by (rule prefix_join_iff) (use that split_on_clean in auto)
    finally show ?thesis by (simp add: parts)
  qed
  have "list_ex (HasPrefix (s @ ''/'')) reserved_mounts \<longleftrightarrow>
      (\<exists>t \<in> set reserved_trees. HasPrefix (s @ ''/'') (CHR ''/'' # join_with CHR ''/'' t @ ''/''))"
    by (simp add: reserved_mounts_def reserved_trees_def)
  also have "\<dots> \<longleftrightarrow> (\<exists>t \<in> set reserved_trees. prefix t (path_parts s))"
  proof (rule bex_cong)
    fix t
    assume "t \<in> set reserved_trees"
    then have "t \<noteq> []" "\<forall>q \<in> set t. CHR ''/'' \<notin> set q"
      by (auto simp: reserved_trees_def)
    then show "HasPrefix (s @ ''/'') (CHR ''/'' # join_with CHR ''/'' t @ ''/'') \<longleftrightarrow> prefix t (path_parts s)"
      by (rule tree)
  qed simp
  finally have "list_ex (HasPrefix (s @ ''/'')) reserved_mounts \<longleftrightarrow> (\<exists>t \<in> set reserved_trees. prefix t (path_parts s))" .
  then show ?thesis by (simp add: mount_not_reserved_def)
qed

lemma mount_path_schema_iff:
  "mount_path_schema s \<longleftrightarrow> rune_count s \<le> 4096 \<and> mount_path_ok s"
proof (cases "HasPrefix s ''/''")
  case True
  then obtain u where "s = CHR ''/'' # u"
    by (auto simp: HasPrefix_def prefix_def)
  then have "1 \<le> rune_count s" by (simp add: rune_count_def)
  with True show ?thesis
    using mount_not_reserved_iff [OF True] mount_clean_iff [of s]
    by (auto simp: mount_path_schema_def mount_path_ok_def)
qed (simp add: mount_path_schema_def mount_path_ok_def)

section \<open>What is left to the webhook\<close>

text \<open>
  The rules of \<open>ValidateSpec\<close> that do not follow from the schema: those that look across containers, at
  the sign of a quantity, at requests against autoscaling targets, or at the resolved port names.
\<close>

definition webhook_rules :: "k8s \<Rightarrow> WebApp \<Rightarrow> bool" where
  "webhook_rules X app \<longleftrightarrow>
     (let cs = ws_Containers (wa_Spec app); ps = declared_ports app
      in ps \<noteq> [] \<and> distinct (map portKeyOf ps) \<and> distinct (map portName ps) \<and>
         (\<forall>c \<in> set cs. \<forall>v \<in> set (cn_ScratchVolumes c). \<forall>q. sw_SizeLimit v = Some q \<longrightarrow> q_Sign X q > 0) \<and>
         (\<forall>a. ws_Autoscaling (wa_Spec app) = Some a \<longrightarrow> as_Enabled a \<longrightarrow>
            (\<forall>name \<in> set (TargetedResources a). \<forall>c \<in> set cs. fmlookup (rr_Requests (cn_Resources c)) name \<noteq> None)) \<and>
         (ws_IngressPortName (wa_Spec app) \<noteq> [] \<longrightarrow> ws_IngressPortName (wa_Spec app) \<in> portName ` set ps))"

lemma spec_schemaD:
  assumes "spec_schema s"
  shows "ws_Containers s \<noteq> []" "length (ws_Containers s) \<le> 16" "distinct (map cn_Name (ws_Containers s))"
    "c \<in> set (ws_Containers s) \<Longrightarrow> container_schema c"
    "ws_Domain s \<noteq> [] \<Longrightarrow> subdomain (ws_Domain s)"
    "ws_Autoscaling s = Some a \<Longrightarrow> autoscaling_schema a"
    "ws_Strategy s = Some st \<Longrightarrow> strategy_schema st"
    "ws_SecurityContext s = Some sc \<Longrightarrow> pod_security_schema sc"
    "ws_Replicas s = Some n \<Longrightarrow> 0 \<le> n"
    "ws_ServiceType s \<in> {''ClusterIP'', ''NodePort'', ''LoadBalancer''}"
    "k \<in> fmdom' (ws_PodLabels s) \<Longrightarrow> \<not> reserved_label k"
  using assms by (auto simp: spec_schema_def list_all_iff subdomain_schema_iff)

lemma container_schemaD:
  assumes "container_schema c"
  shows "dns_label (cn_Name c)" "length (cn_Name c) \<le> 63" "cn_Image c \<noteq> []"
    "p \<in> set (cn_Ports c) \<Longrightarrow> port_schema p"
    "distinct (map sw_MountPath (cn_ScratchVolumes c))"
    "v \<in> set (cn_ScratchVolumes c) \<Longrightarrow> scratch_schema v"
    "cn_SecurityContext c = Some sc \<Longrightarrow> container_security_schema sc"
  using assms by (auto simp: container_schema_def list_all_iff name_schema_iff mounts_unique_iff rune_count_def)

lemma schema_container_ok:
  assumes "names_documented X" "container_schema c"
  shows "container_ok X c \<longleftrightarrow>
    (\<forall>v \<in> set (cn_ScratchVolumes c). \<forall>q. sw_SizeLimit v = Some q \<longrightarrow> q_Sign X q > 0)"
proof -
  note c = container_schemaD [OF assms(2)]
  have "port_ok X p" if "p \<in> set (cn_Ports c)" for p
    using c(4) [OF that] assms(1) by (auto simp: port_ok_def port_schema_def port_name_schema_iff names_documented_def)
  moreover have "cn_Name c \<noteq> []" "IsDNS1123Label X (cn_Name c) = []"
    using c(1,2) assms(1) by (auto simp: dns_label_def names_documented_def)
  ultimately show ?thesis
    using c(3,5) by (auto simp: container_ok_def mounts_ok_def)
qed

lemma schema_autoscaling_ok:
  assumes "spec_schema (wa_Spec app)"
  shows "autoscaling_ok app \<longleftrightarrow>
    (\<forall>a. ws_Autoscaling (wa_Spec app) = Some a \<longrightarrow> as_Enabled a \<longrightarrow>
       (\<forall>name \<in> set (TargetedResources a). \<forall>c \<in> set (ws_Containers (wa_Spec app)).
          fmlookup (rr_Requests (cn_Resources c)) name \<noteq> None))"
proof -
  have "\<exists>mx. as_MaxReplicas a = Some mx \<and> (case as_MinReplicas a of Some m \<Rightarrow> m | None \<Rightarrow> 1) \<le> mx"
    if "ws_Autoscaling (wa_Spec app) = Some a" "as_Enabled a" for a
    using spec_schemaD(6) [OF assms that(1)] that(2)
    by (auto simp: autoscaling_schema_def positive_def split: option.splits)
  then show ?thesis
    by (auto simp: autoscaling_ok_def)
qed

lemma schema_valid_spec:
  assumes X: "names_documented X" and schema: "spec_schema (wa_Spec app)"
  shows "valid_spec X app \<longleftrightarrow> webhook_rules X app"
proof -
  note s = spec_schemaD [OF schema]
  have containers: "(\<forall>c \<in> set (ws_Containers (wa_Spec app)). container_ok X c) \<longleftrightarrow>
      (\<forall>c \<in> set (ws_Containers (wa_Spec app)). \<forall>v \<in> set (cn_ScratchVolumes c). \<forall>q.
         sw_SizeLimit v = Some q \<longrightarrow> q_Sign X q > 0)"
    by (rule ball_cong) (simp_all add: schema_container_ok [OF X s(4)])
  have strategy: "\<forall>st. ws_Strategy (wa_Spec app) = Some st \<longrightarrow>
      ss_Type st = RecreateDeploymentStrategyType \<longrightarrow> ss_RollingUpdate st = None"
    using s(7) by (auto simp: strategy_schema_def)
  have domain: "ws_Domain (wa_Spec app) \<noteq> [] \<longrightarrow> IsDNS1123Subdomain X (ws_Domain (wa_Spec app)) = []"
    using s(5) X by (simp add: names_documented_def)
  show ?thesis
    unfolding valid_spec_def webhook_rules_def Let_def containers schema_autoscaling_ok [OF schema]
    by (intro iffI conjI; (elim conjE)?; (assumption | rule s(3) strategy domain))
qed

section \<open>The two defaulters\<close>

text \<open>What is left for the webhook's defaulter once the schema's defaults are in.\<close>

definition left_to_webhook :: "WebAppSpec \<Rightarrow> WebAppSpec" where
  "left_to_webhook s =
     s\<lparr>ws_Strategy := (case ws_Strategy s of
          None \<Rightarrow> Some \<lparr>ss_Type = RollingUpdateDeploymentStrategyType, ss_RollingUpdate = None\<rparr>
        | Some st \<Rightarrow> Some st),
       ws_Autoscaling := map_option
         (\<lambda>a. if as_Enabled a \<and> as_TargetCPU a = None \<and> as_TargetMemory a = None
              then a\<lparr>as_TargetCPU := Some DefaultTargetCPU\<rparr> else a)
         (ws_Autoscaling s)\<rparr>"

lemma default_after_schema:
  "default_port (schema_port p) = schema_port p"
  "default_container (schema_container c) = schema_container c"
  "default_autoscaling (schema_autoscaling a) =
     (if as_Enabled a \<and> as_TargetCPU a = None \<and> as_TargetMemory a = None
      then (schema_autoscaling a)\<lparr>as_TargetCPU := Some DefaultTargetCPU\<rparr> else schema_autoscaling a)"
  "default_strategy (Some (schema_strategy st)) = Some (schema_strategy st)"
proof -
  show port: "default_port (schema_port p) = schema_port p" for p
    by (simp add: default_port_def schema_port_def)
  show "default_container (schema_container c) = schema_container c"
    by (simp add: default_container_def schema_container_def comp_def port)
  show "default_autoscaling (schema_autoscaling a) =
      (if as_Enabled a \<and> as_TargetCPU a = None \<and> as_TargetMemory a = None
       then (schema_autoscaling a)\<lparr>as_TargetCPU := Some DefaultTargetCPU\<rparr> else schema_autoscaling a)"
    by (simp add: default_autoscaling_def schema_autoscaling_def Let_def)
  show "default_strategy (Some (schema_strategy st)) = Some (schema_strategy st)"
    by (simp add: default_strategy_def schema_strategy_def Let_def)
qed

lemma Default_schema_defaults:
  "Default (schema_defaults app) =
     (schema_defaults app)\<lparr>wa_Spec := left_to_webhook (wa_Spec (schema_defaults app))\<rparr>"
proof -
  have containers: "map (default_container \<circ> schema_container) cs = map schema_container cs" for cs
    by (simp add: default_after_schema(2))
  have autoscaling: "map_option default_autoscaling (map_option schema_autoscaling a) =
      map_option (\<lambda>a. if as_Enabled a \<and> as_TargetCPU a = None \<and> as_TargetMemory a = None
        then a\<lparr>as_TargetCPU := Some DefaultTargetCPU\<rparr> else a) (map_option schema_autoscaling a)" for a
    by (cases a) (simp_all add: default_after_schema(3), auto simp: schema_autoscaling_def)
  have strategy: "default_strategy (map_option schema_strategy st) =
      (case map_option schema_strategy st of
         None \<Rightarrow> Some \<lparr>ss_Type = RollingUpdateDeploymentStrategyType, ss_RollingUpdate = None\<rparr>
       | Some st \<Rightarrow> Some st)" for st
    by (cases st) (simp_all add: default_after_schema(4), simp add: default_strategy_def Let_def)
  show ?thesis
    by (simp add: Default_def default_spec_def left_to_webhook_def schema_defaults_def Let_def
        containers autoscaling strategy)
qed

end
