(* ===== verification/Warp_Objects.thy ===== *)
theory Warp_Objects
  imports Warp_Schema
begin

text \<open>
  The types of the built objects: what the Kubernetes API demands of the names, numbers and enumerations
  in a Deployment, a Service, an Ingress and an HPA, and that a WebApp which the schema and the webhook
  let in builds only objects of these types. An object that breaks one of them would be refused by the
  API server on every reconcile.
\<close>

section \<open>Names the program generates\<close>

definition object_name :: "string \<Rightarrow> bool" where
  "object_name s \<longleftrightarrow> dns_label s \<and> hd s \<in> set lower_chars \<and> length s \<le> 63"

definition port_number :: "int \<Rightarrow> bool" where
  "port_number n \<longleftrightarrow> 1 \<le> n \<and> n \<le> 65535"

lemma digit_alnum: "digit_chars \<subseteq> alnum_chars"
  by (simp add: digit_chars_def alnum_chars_def)

lemma int_dec_port:
  assumes "port_number n"
  shows "set (int_dec n) \<subseteq> digit_chars" "length (int_dec n) \<le> 5"
proof -
  have dec: "int_dec n = nat_dec (nat n)"
    using assms by (simp add: int_dec_def port_number_def)
  show "set (int_dec n) \<subseteq> digit_chars"
    by (simp add: dec nat_dec_digits)
  show "length (int_dec n) \<le> 5"
    using assms by (auto simp: dec port_number_def intro!: length_nat_dec)
qed

lemma no_dashes_append:
  assumes "\<not> sublist [c, c] s" "\<not> sublist [c, c] t" "s = [] \<or> t = [] \<or> last s \<noteq> c \<or> hd t \<noteq> c"
  shows "\<not> sublist [c, c] (s @ t)"
  using assms
proof (induction s)
  case (Cons x s)
  then show ?case by (cases s; cases t) (auto simp: sublist_Cons_right)
qed simp

lemma no_dashes_free: "c \<notin> set s \<Longrightarrow> \<not> sublist [c, c] s"
  by (auto simp: sublist_def)

text \<open>A generated port name is a service name: \<open>port-\<close>, at most five digits, and possibly \<open>-udp\<close>.\<close>

lemma generated_service_name:
  assumes "cp_Name p = []" "port_number (cp_ContainerPort p)"
  shows "service_name (portName p)"
proof -
  let ?d = "int_dec (cp_ContainerPort p)"
  let ?proto = "if protocol p = ProtocolUDP then ''-udp'' else []"
  have name: "portName p = ''port-'' @ ?d @ ?proto"
    using assms(1) by (rule generated_name_shape)
  have d: "set ?d \<subseteq> digit_chars" "length ?d \<le> 5" "?d \<noteq> []"
    using int_dec_port [OF assms(2)] by simp_all
  have dash: "CHR ''-'' \<notin> set ?d" using d(1) by auto
  have "hd ?d \<noteq> CHR ''-''" "last ?d \<noteq> CHR ''-''"
    using dash d(3) by (metis hd_in_set, metis last_in_set)
  have "\<not> sublist ''--'' ?proto" by (simp add: sublist_Cons_right)
  then have tail: "\<not> sublist ''--'' (?d @ ?proto)"
    using \<open>last ?d \<noteq> CHR ''-''\<close> no_dashes_append [OF no_dashes_free [OF dash], of ?proto] by simp
  have ends: "hd (?d @ ?proto) \<noteq> CHR ''-''" "last (?d @ ?proto) \<noteq> CHR ''-''"
    using d(3) \<open>hd ?d \<noteq> CHR ''-''\<close> \<open>last ?d \<noteq> CHR ''-''\<close> by auto
  have "\<not> sublist ''--'' ''port-''" by (simp add: sublist_Cons_right)
  then have "\<not> sublist ''--'' (''port-'' @ ?d @ ?proto)"
    by (rule no_dashes_append [OF _ tail disjI2 [OF disjI2 [OF disjI2 [OF ends(1)]]]])
  moreover have "set (''port-'' @ ?d @ ?proto) \<subseteq> insert (CHR ''-'') alnum_chars"
  proof -
    have "set ''port-'' \<subseteq> insert (CHR ''-'') alnum_chars" "set ?proto \<subseteq> insert (CHR ''-'') alnum_chars"
      by (auto simp: alnum_chars_def)
    with d(1) digit_alnum show ?thesis unfolding set_append by blast
  qed
  ultimately show ?thesis
    unfolding name service_name_def
    using d ends(2) by simp
qed

lemma schema_service_name:
  assumes "port_schema p"
  shows "service_name (portName p)"
proof (cases "cp_Name p = []")
  case True
  with assms show ?thesis
    by (intro generated_service_name) (simp_all add: port_schema_def port_number_def)
next
  case False
  with assms show ?thesis
    by (simp add: port_schema_def port_name_schema_iff portName_def)
qed

section \<open>Types\<close>

definition port_typed :: "string \<Rightarrow> int \<Rightarrow> string \<Rightarrow> bool" where
  "port_typed name number proto \<longleftrightarrow>
     service_name name \<and> port_number number \<and> proto \<in> {ProtocolTCP, ProtocolUDP}"

definition container_typed :: "CoreContainer \<Rightarrow> bool" where
  "container_typed c \<longleftrightarrow>
     dns_label (kc_Name c) \<and> length (kc_Name c) \<le> 63 \<and> kc_Image c \<noteq> [] \<and>
     (\<forall>p \<in> set (kc_Ports c). port_typed (kp_Name p) (kp_ContainerPort p) (kp_Protocol p)) \<and>
     distinct (map vm_MountPath (kc_VolumeMounts c)) \<and>
     (\<forall>m \<in> set (kc_VolumeMounts c). mount_path_ok (vm_MountPath m) \<and> dns_label (vm_Name m) \<and> length (vm_Name m) \<le> 63) \<and>
     positive (sc_RunAsUser (kc_SecurityContext c)) \<and> positive (sc_RunAsGroup (kc_SecurityContext c))"

fun spec_typed :: "object \<Rightarrow> bool" where
  "spec_typed (ODeployment d) \<longleftrightarrow>
     (let pod = pt_Spec (de_Template (dp_Spec d)); sc = po_SecurityContext pod
      in po_Containers pod \<noteq> [] \<and> distinct (map kc_Name (po_Containers pod)) \<and>
         (\<forall>c \<in> set (po_Containers pod). container_typed c) \<and>
         (\<forall>v \<in> set (po_Volumes pod). dns_label (vo_Name v) \<and> length (vo_Name v) \<le> 63) \<and>
         positive (ps_RunAsUser sc) \<and> positive (ps_RunAsGroup sc) \<and> positive (ps_FSGroup sc) \<and>
         pred_option (\<lambda>n. 0 \<le> n) (de_Replicas (dp_Spec d)) \<and>
         st_Type (de_Strategy (dp_Spec d)) \<in> {RollingUpdateDeploymentStrategyType, RecreateDeploymentStrategyType} \<and>
         (st_RollingUpdate (de_Strategy (dp_Spec d)) = None \<or>
          st_Type (de_Strategy (dp_Spec d)) = RollingUpdateDeploymentStrategyType))"
| "spec_typed (OService s) \<longleftrightarrow>
     sv_Type s \<in> {''ClusterIP'', ''NodePort'', ''LoadBalancer''} \<and> sv_Ports s \<noteq> [] \<and>
     distinct (map sp_Name (sv_Ports s)) \<and>
     (\<forall>p \<in> set (sv_Ports s). port_typed (sp_Name p) (sp_Port p) (sp_Protocol p))"
| "spec_typed (OIngress i) \<longleftrightarrow>
     (\<forall>r \<in> set (in_Rules i). subdomain (ir_Host r) \<and>
        (\<forall>p \<in> set (ir_Paths r). hp_PathType p = ''Prefix'' \<and> HasPrefix (hp_Path p) ''/'' \<and>
           object_name (hp_ServiceName p) \<and> service_name (hp_PortName p)))"
| "spec_typed (OHPA h) \<longleftrightarrow>
     object_name (xr_Name (hs_ScaleTargetRef h)) \<and> 1 \<le> hs_MaxReplicas h \<and>
     (case hs_MinReplicas h of None \<Rightarrow> True | Some m \<Rightarrow> 1 \<le> m \<and> m \<le> hs_MaxReplicas h) \<and>
     hs_Metrics h \<noteq> [] \<and> (\<forall>m \<in> set (hs_Metrics h). positive (ms_AverageUtilization m))"

definition well_typed :: "object \<Rightarrow> bool" where
  "well_typed obj \<longleftrightarrow> object_name (om_Name (meta_of obj)) \<and> spec_typed obj"

section \<open>Admitted WebApps build well-typed objects\<close>

lemma app_name_typed: "webapp_schema app \<Longrightarrow> object_name (app_Name app)"
  by (simp add: webapp_schema_def app_name_schema_iff object_name_def)

lemma port_typed_schema: "port_schema p \<Longrightarrow> port_typed (portName p) (cp_ContainerPort p) (protocol p)"
  using schema_service_name [of p] by (auto simp: port_typed_def port_schema_def port_number_def protocol_def)

lemma scratch_schemaD:
  assumes "scratch_schema v"
  shows "dns_label (sw_Name v)" "mount_path_ok (sw_MountPath v)"
  using assms by (simp_all add: scratch_schema_def name_schema_iff mount_path_schema_iff)

lemma containers_typed:
  assumes "spec_schema (wa_Spec app)" "kc \<in> set (containers app)"
  shows "container_typed kc"
proof -
  from assms(2) obtain c where c: "c \<in> set (ws_Containers (wa_Spec app))"
    and kc: "kc_Name kc = cn_Name c" "kc_Image kc = cn_Image c" "kc_Ports kc = containerPorts (cn_Ports c)"
      "kc_VolumeMounts kc = volumeMounts c" "kc_SecurityContext kc = containerSecurityContext c"
    by (auto simp: containers_def)
  note s = container_schemaD [OF spec_schemaD(4) [OF assms(1) c]]
  have "port_typed (kp_Name p) (kp_ContainerPort p) (kp_Protocol p)" if "p \<in> set (kc_Ports kc)" for p
    using that s(4) port_typed_schema by (auto simp: kc containerPorts_def)
  moreover have "distinct (map vm_MountPath (kc_VolumeMounts kc))"
    using s(5) by (simp add: kc volumeMounts_def comp_def)
  moreover have "mount_path_ok (vm_MountPath m) \<and> dns_label (vm_Name m) \<and> length (vm_Name m) \<le> 63"
    if "m \<in> set (kc_VolumeMounts kc)" for m
    using that scratch_schemaD [OF s(6)]
    by (auto simp: kc volumeMounts_def ScratchVolumeName_label length_ScratchVolumeName)
  moreover have "positive (sc_RunAsUser (kc_SecurityContext kc))" "positive (sc_RunAsGroup (kc_SecurityContext kc))"
    using s(7) by (auto simp: kc containerSecurityContext_def container_security_schema_def positive_def Let_def split: option.split)
  ultimately show ?thesis
    using s(1-3) by (simp add: container_typed_def kc)
qed

lemma Deployment_typed:
  assumes "spec_schema (wa_Spec app)"
  shows "spec_typed (ODeployment (Deployment app))"
proof -
  note s = spec_schemaD [OF assms]
  have "map kc_Name (containers app) = map cn_Name (ws_Containers (wa_Spec app))" "containers app \<noteq> []"
    using s(1) by (simp_all add: containers_def comp_def)
  moreover have "dns_label (vo_Name v) \<and> length (vo_Name v) \<le> 63" if "v \<in> set (scratchVolumes app)" for v
    using that scratch_schemaD(1) [OF container_schemaD(6) [OF s(4)]]
    by (auto simp: scratchVolumes_def ScratchVolumeName_label length_ScratchVolumeName)
  moreover have "positive (ps_RunAsUser (podSecurityContext app))" "positive (ps_RunAsGroup (podSecurityContext app))"
    "positive (ps_FSGroup (podSecurityContext app))"
    using s(8) by (auto simp: podSecurityContext_def pod_security_schema_def positive_def Let_def split: option.split)
  moreover have "pred_option (\<lambda>n. 0 \<le> n) (DesiredReplicas app)"
    using s(9) by (auto simp: DesiredReplicas_def split: option.split)
  moreover have "st_Type (strategy app) \<in> {RollingUpdateDeploymentStrategyType, RecreateDeploymentStrategyType}"
    "st_RollingUpdate (strategy app) = None \<or> st_Type (strategy app) = RollingUpdateDeploymentStrategyType"
    using s(7) by (auto simp: strategy_def strategy_schema_def split: option.split)
  ultimately show ?thesis
    using s(3) containers_typed [OF assms] by simp
qed

lemma Service_typed:
  assumes "spec_schema (wa_Spec app)" "valid_spec X app"
  shows "spec_typed (OService (Service app))"
proof -
  have ps: "declared_ports app \<noteq> []" "distinct (map portKeyOf (declared_ports app))"
    "distinct (map portName (declared_ports app))"
    using assms(2) by (auto simp: valid_spec_def Let_def)
  have "port_schema p" if "p \<in> set (declared_ports app)" for p
    using that container_schemaD(4) [OF spec_schemaD(4) [OF assms(1)]] by (auto simp: declared_ports_def)
  then have "port_typed (sp_Name p) (sp_Port p) (sp_Protocol p)" if "p \<in> set (servicePorts app)" for p
    using that port_typed_schema by (auto simp: servicePorts_def allPorts_id [OF ps(2)])
  moreover have "sv_Type (Service app) \<in> {''ClusterIP'', ''NodePort'', ''LoadBalancer''}"
    using spec_schemaD(10) [OF assms(1)] by (auto simp: Service_def Let_def)
  moreover have "distinct (map sp_Name (servicePorts app))"
    using ps(3) by (simp add: servicePorts_names PortNames_def allPorts_id [OF ps(2)])
  ultimately show ?thesis
    using ps(1) by (simp add: servicePorts_Nil_iff)
qed

lemma Ingress_typed:
  assumes "webapp_schema app" "WantsIngress app" "Ingress app = Inr i"
  shows "spec_typed (OIngress i)"
proof -
  have schema: "spec_schema (wa_Spec app)" using assms(1) by (simp add: webapp_schema_def)
  obtain n where n: "backendPort app = Inr n" and rules: "in_Rules i = [\<lparr>ir_Host = ws_Domain (wa_Spec app),
       ir_Paths = [\<lparr>hp_Path = ''/'', hp_PathType = ''Prefix'', hp_ServiceName = app_Name app, hp_PortName = n\<rparr>]\<rparr>]"
    using Ingress_Inr [OF assms(3)] by metis
  from ports.backend_named [OF n] obtain p where "p \<in> set (declared_ports app)" "n = portName p"
    using allPorts_subset [of app] by (auto simp: PortNames_def)
  then have "service_name n"
    using container_schemaD(4) [OF spec_schemaD(4) [OF schema]] schema_service_name
    by (auto simp: declared_ports_def)
  then show ?thesis
    using spec_schemaD(5) [OF schema] assms(2) app_name_typed [OF assms(1)]
    by (simp add: rules WantsIngress_def HasPrefix_def)
qed

lemma HPA_typed:
  assumes "webapp_schema app" "WantsHPA app" "HPA app = HPA_ok h"
  shows "spec_typed (OHPA h)"
proof -
  have schema: "spec_schema (wa_Spec app)" using assms(1) by (simp add: webapp_schema_def)
  obtain a where a: "ws_Autoscaling (wa_Spec app) = Some a" using WantsHPA_D [OF assms(2)] by blast
  note s = spec_schemaD(6) [OF schema a]
  have "positive (ms_AverageUtilization m)" if "m \<in> set (hpaMetrics a)" for m
    using that s by (auto simp: hpaMetrics_def Let_def autoscaling_schema_def positive_def split: option.splits if_splits)
  moreover have "hpaMetrics a \<noteq> []"
    using hpaMetrics_names [of a] TargetedResources_nonempty [of a] by auto
  ultimately show ?thesis
    using assms(3) s app_name_typed [OF assms(1)] a
    by (auto simp: HPA_def Let_def autoscaling_schema_def positive_def split: option.splits)
qed

text \<open>Everything a WebApp stands for, as the list of the objects that can be built.\<close>

definition built_objects :: "WebApp \<Rightarrow> object list" where
  "built_objects app =
     [ODeployment (Deployment app), OService (Service app)]
     @ (if WantsIngress app then (case Ingress app of Inl _ \<Rightarrow> [] | Inr i \<Rightarrow> [OIngress i]) else [])
     @ (if WantsHPA app then (case HPA app of HPA_ok h \<Rightarrow> [OHPA h] | _ \<Rightarrow> []) else [])"

lemma built_objects_typed:
  assumes "webapp_schema app" "valid_spec X app" "obj \<in> set (built_objects app)"
  shows "well_typed obj"
proof -
  have schema: "spec_schema (wa_Spec app)" using assms(1) by (simp add: webapp_schema_def)
  have obj: "obj = ODeployment (Deployment app) \<or> obj = OService (Service app) \<or>
    (\<exists>i. WantsIngress app \<and> Ingress app = Inr i \<and> obj = OIngress i) \<or>
    (\<exists>h. WantsHPA app \<and> HPA app = HPA_ok h \<and> obj = OHPA h)"
    using assms(3) unfolding built_objects_def
    by (cases "WantsIngress app"; cases "WantsHPA app"; cases "Ingress app"; cases "HPA app") auto
  then have "spec_typed obj"
    using Deployment_typed [OF schema] Service_typed [OF schema assms(2)]
      Ingress_typed [OF assms(1)] HPA_typed [OF assms(1)] by blast
  moreover have "om_Name (meta_of obj) = app_Name app"
    using obj by (auto simp: Ingress_def HPA_def Let_def split: sum.splits option.splits)
  ultimately show ?thesis
    using app_name_typed [OF assms(1)] by (simp add: well_typed_def)
qed

end
