(* ===== verification/Warp_Samples.thy ===== *)
theory Warp_Samples
  imports Warp_Status Warp_Objects
begin

text \<open>
  Concrete inputs: one instance of each parameter of the model (the library functions, the Prometheus
  client, an API server) that meets its documented behaviour, and small WebApps and policies. They show
  that the hypotheses of the theorems can hold together.
\<close>

section \<open>The library\<close>

text \<open>Quantities in unary: the value of a quantity is the length of its text.\<close>

fun quantity_value :: "quantity \<Rightarrow> nat" where
  "quantity_value (Quantity s) = length s"

fun set_condition :: "Condition list \<Rightarrow> Condition \<Rightarrow> Condition list" where
  "set_condition [] c = [c\<lparr>co_LastTransitionTime := ''now''\<rparr>]"
| "set_condition (d # ds) c =
     (if co_Type d = co_Type c
      then c\<lparr>co_LastTransitionTime := (if co_Status d = co_Status c then co_LastTransitionTime d else ''now'')\<rparr> # ds
      else d # set_condition ds c)"

definition std_k8s :: k8s where
  "std_k8s =
     \<lparr>q_Cmp = (\<lambda>a b. if quantity_value a < quantity_value b then -1
                   else if quantity_value a = quantity_value b then 0 else 1),
      q_Sign = (\<lambda>a. if quantity_value a = 0 then 0 else 1),
      q_String = (\<lambda>q. case q of Quantity s \<Rightarrow> s),
      IsDNS1123Label = (\<lambda>s. if dns_label s \<and> length s \<le> 63 then [] else [''not a label'']),
      IsDNS1123Subdomain = (\<lambda>s. if subdomain s then [] else [''not a subdomain'']),
      IsValidPortName = (\<lambda>s. if service_name s then [] else [''not a service name'']),
      LabelSelectorAsSelector = (\<lambda>sel.
        if ls_MatchExpressions sel = []
        then Inr (\<lambda>m. fmpred (\<lambda>k v. fmlookup m k = Some v) (ls_MatchLabels sel))
        else Inl (LibError ''unknown operator'')),
      SemanticDeepEqual = (=),
      SetStatusCondition = set_condition,
      FindStatusCondition = (\<lambda>cs t. find (\<lambda>c. co_Type c = t) cs),
      IsControlledBy = (\<lambda>obj owner.
        case find (\<lambda>r. or_Controller r = Some True) (om_OwnerReferences obj) of
          None \<Rightarrow> False | Some r \<Rightarrow> or_UID r = om_UID owner),
      ContainsFinalizer = (\<lambda>m f. f \<in> set (om_Finalizers m)),
      AddFinalizer = (\<lambda>m f. if f \<in> set (om_Finalizers m) then (m, False)
        else (m\<lparr>om_Finalizers := om_Finalizers m @ [f]\<rparr>, True)),
      RemoveFinalizer = (\<lambda>m f. m\<lparr>om_Finalizers := filter (\<lambda>g. g \<noteq> f) (om_Finalizers m)\<rparr>),
      LabelSetString = (\<lambda>m. concat (map (\<lambda>k. k @ ''='' @ the (fmlookup m k) @ '','') (sorted_keys m))),
      SelectorFromSet = (\<lambda>sel ls. fmpred (\<lambda>k v. fmlookup ls k = Some v) sel),
      deployment_codec = Inr, service_codec = Inr, ingress_codec = Inr, hpa_codec = Inr,
      json_Unmarshal = (\<lambda>raw.
        if raw = ''scale'' then
          Some (fmap_of_list [(''f:spec'', JObject (fmap_of_list [(''f:replicas'', JObject fmempty)]))])
        else None)\<rparr>"

lemma std_quantities: "quantities_documented std_k8s"
  unfolding quantities_documented_def
  by (rule exI [of _ "\<lambda>q. of_nat (quantity_value q)"]) (simp add: std_k8s_def)

lemma std_conditions: "conditions_documented std_k8s"
proof -
  have set: "\<exists>t. find (\<lambda>d. co_Type d = co_Type c) (set_condition cs c) = Some (c\<lparr>co_LastTransitionTime := t\<rparr>)"
    for cs c by (induction cs) auto
  have keep: "find (\<lambda>d. co_Type d = ty) (set_condition cs c) = find (\<lambda>d. co_Type d = ty) cs"
    if "ty \<noteq> co_Type c" for cs c ty
    using that by (induction cs) auto
  show ?thesis
    unfolding conditions_documented_def using set keep by (simp add: std_k8s_def)
qed

lemma std_control: "control_documented std_k8s"
  by (simp add: control_documented_def std_k8s_def)

lemma std_finalizers: "finalizers_documented std_k8s"
  by (simp add: finalizers_documented_def std_k8s_def)

lemma std_selectors: "selectors_documented std_k8s"
  by (auto simp: selectors_documented_def std_k8s_def fmpred_iff)

lemma std_names: "names_documented std_k8s"
  by (simp add: names_documented_def std_k8s_def)

lemma std_codecs: "codecs_faithful std_k8s"
  by (simp add: codecs_faithful_def std_k8s_def)

definition std_prometheus :: prometheus where
  "std_prometheus =
     \<lparr>DeletePartialMatch = (\<lambda>names ls s. fmfilter (\<lambda>vs. \<not> set ls \<subseteq> set (zip names vs)) s),
      WithLabelValuesSet = (\<lambda>vs n s. fmupd vs n s),
      DeleteLabelValues = (\<lambda>vs s. fmdrop vs s)\<rparr>"

lemma std_metrics: "prometheus_documented std_prometheus"
  by (simp add: prometheus_documented_def std_prometheus_def)

section \<open>WebApps\<close>

definition sample_port :: ContainerPort where
  "sample_port = \<lparr>cp_Name = ''http'', cp_ContainerPort = 8080, cp_Protocol = []\<rparr>"

definition sample_container :: Container where
  "sample_container =
     \<lparr>cn_Name = ''web'', cn_Image = ''shop:1.2'', cn_Ports = [sample_port], cn_Env = [], cn_EnvFrom = [],
      cn_Resources = \<lparr>rr_Limits = fmempty, rr_Requests = fmap_of_list [(ResourceCPU, Quantity ''11'')],
                      rr_Claims = []\<rparr>,
      cn_Command = [], cn_Args = [], cn_LivenessProbe = None, cn_ReadinessProbe = None,
      cn_StartupProbe = None, cn_SecurityContext = None,
      cn_ScratchVolumes = [\<lparr>sw_Name = ''cache'', sw_MountPath = ''/cache'', sw_Medium = [],
                             sw_SizeLimit = Some (Quantity ''1'')\<rparr>]\<rparr>"

definition sample_spec :: WebAppSpec where
  "sample_spec =
     \<lparr>ws_Containers = [sample_container], ws_Domain = ''shop.example.com'', ws_IngressClassName = None,
      ws_IngressPortName = [], ws_ServiceType = [], ws_Replicas = Some 2,
      ws_Autoscaling = Some \<lparr>as_Enabled = True, as_MinReplicas = None, as_MaxReplicas = Some 4,
                             as_TargetCPU = None, as_TargetMemory = None, as_Behavior = None\<rparr>,
      ws_Strategy = None, ws_ImagePullSecrets = [], ws_NodeSelector = fmempty, ws_Tolerations = [],
      ws_Affinity = None, ws_ServiceAccountName = [], ws_AutomountServiceAccountToken = None,
      ws_SecurityContext = None, ws_PodLabels = fmempty, ws_PodAnnotations = fmempty\<rparr>"

definition sample_meta :: ObjectMeta where
  "sample_meta = zero_ObjectMeta
     \<lparr>om_Name := ''shop'', om_Namespace := ''prod'', om_UID := ''u1'', om_Generation := 3,
      om_Finalizers := [Finalizer]\<rparr>"

definition sample_status :: WebAppStatus where
  "sample_status =
     \<lparr>wt_ObservedGeneration = 2, wt_Replicas = 2, wt_ReadyReplicas = 2, wt_AvailableReplicas = 2,
      wt_UpdatedReplicas = 2, wt_Selector = [], wt_IngressURL = [],
      wt_Conditions = [\<lparr>co_Type = ConditionReady, co_Status = ConditionTrue, co_Reason = ReasonAllReplicas,
        co_Message = Lit [], co_ObservedGeneration = 2, co_LastTransitionTime = ''then''\<rparr>]\<rparr>"

definition sample_app :: WebApp where
  "sample_app = \<lparr>wa_Meta = sample_meta, wa_Spec = sample_spec, wa_Status = sample_status\<rparr>"

lemma sample_simps [simp]:
  "wa_Meta sample_app = sample_meta" "wa_Spec sample_app = sample_spec" "wa_Status sample_app = sample_status"
  "om_Name sample_meta = ''shop''" "om_Namespace sample_meta = ''prod''" "om_UID sample_meta = ''u1''"
  "om_DeletionTimestamp sample_meta = None" "om_Finalizers sample_meta = [Finalizer]"
  "ws_Containers sample_spec = [sample_container]"
  by (simp_all add: sample_app_def sample_meta_def sample_spec_def zero_ObjectMeta_def del: Finalizer_def)

lemma sample_names:
  "dns_label ''web''" "dns_label ''cache''" "dns_label ''shop''" "service_name ''http''"
  "subdomain ''shop.example.com''"
  by (simp_all add: dns_label_def service_name_def subdomain_def alnum_chars_def sublist_code)

lemma sample_valid: "valid_spec std_k8s sample_app"
  by (simp add: valid_spec_def declared_ports_def container_ok_def port_ok_def mounts_ok_def
      autoscaling_ok_def TargetedResources_def sample_container_def sample_port_def sample_spec_def
      std_k8s_def portName_def fmlookup_of_list sample_names)

lemma sample_wants: "WantsIngress sample_app" "WantsHPA sample_app"
  by (simp_all add: WantsIngress_def WantsHPA_def sample_spec_def)

text \<open>The same WebApp while it is being deleted, and without an Ingress or an HPA.\<close>

definition deleted_app :: WebApp where
  "deleted_app = sample_app\<lparr>wa_Meta := sample_meta\<lparr>om_DeletionTimestamp := Some ''now''\<rparr>\<rparr>"

definition plain_app :: WebApp where
  "plain_app = sample_app\<lparr>wa_Spec := sample_spec\<lparr>ws_Domain := [], ws_Autoscaling := None\<rparr>\<rparr>"

section \<open>Policies\<close>

definition sample_policy :: WebAppPolicy where
  "sample_policy =
     \<lparr>wp_Meta = zero_ObjectMeta\<lparr>om_Name := ''cap''\<rparr>,
      wp_Spec = \<lparr>py_NamespaceSelector = None, py_Resources = None, py_AllowedServiceAccounts = [],
                 py_ForbiddenPodAnnotationPrefixes = [], py_MaxScratchSize = None,
                 py_MaxReplicas = Some 5, py_Enforcement = EnforcementEnforce\<rparr>,
      wp_Status = \<lparr>pu_ObservedGeneration = 0, pu_Conditions = []\<rparr>\<rparr>"

section \<open>Servers\<close>

text \<open>
  A namespace in which the WebApp's objects do not exist yet, under one policy the WebApp meets. Every
  write succeeds.
\<close>

definition calm_server :: "WebApp \<Rightarrow> server" where
  "calm_server app =
     \<lparr>srv_GetApp = (\<lambda>tr k. Inr app),
      srv_GetDeployment = (\<lambda>tr src k. Inl (ApiNotFound ''deployment'')),
      srv_GetService = (\<lambda>tr src k. Inl (ApiNotFound ''service'')),
      srv_GetIngress = (\<lambda>tr src k. Inl (ApiNotFound ''ingress'')),
      srv_GetHPA = (\<lambda>tr src k. Inl (ApiNotFound ''hpa'')),
      srv_ListPolicies = (\<lambda>tr src. Inr [sample_policy]),
      srv_GetNamespace = (\<lambda>tr src n. Inr fmempty),
      srv_Update = (\<lambda>tr a. Inr a),
      srv_Apply = (\<lambda>tr obj owner force. None),
      srv_Delete = (\<lambda>tr obj. None),
      srv_Patch = (\<lambda>tr a b. None)\<rparr>"

text \<open>The same, but the name of the Ingress is taken by an object without a controller.\<close>

definition foreign_ingress :: IngressObj where
  "foreign_ingress = \<lparr>in_Meta = zero_ObjectMeta\<lparr>om_Name := ''shop''\<rparr>, in_IngressClassName = None, in_Rules = []\<rparr>"

definition taken_server :: "WebApp \<Rightarrow> server" where
  "taken_server app = (calm_server app)\<lparr>srv_GetIngress := (\<lambda>tr src k. Inr foreign_ingress)\<rparr>"

definition live_reconciler :: WebAppReconciler where
  "live_reconciler = \<lparr>rc_APIReader = Some LiveReader\<rparr>"

lemma reader_live [simp]: "reader live_reconciler = LiveReader"
  by (simp add: reader_def live_reconciler_def)

lemma calm_reads: "reads_fine X (calm_server a) app kd"
  by (cases kd) (simp_all add: reads_fine_def calm_server_def)

lemma calm_writes: "writes_fine (calm_server a)" "srv_Patch (calm_server a) tr b c = None"
  by (simp_all add: writes_fine_def calm_server_def)

lemma policy_met: "replicas_comply sample_app sample_policy" "replicas_comply plain_app sample_policy"
  by (simp_all add: replicas_comply_def scale_field_def sample_policy_def sample_spec_def plain_app_def)

lemma calm_cap: "cap_fine X (calm_server a) src sample_app" "cap_fine X (calm_server a) src plain_app"
  using policy_met by (auto simp: cap_fine_def calm_server_def)

lemma calm_plain: "plain_replies (calm_server a)"
proof -
  have "\<not> As_terminal e" if "get_typed (calm_server a) tr src kd k = Inl e" for tr src kd k e
    using that by (cases kd) (auto simp: calm_server_def)
  then show ?thesis by (auto simp: plain_replies_def calm_server_def)
qed

lemma taken_fine:
  "kd \<noteq> KIngress \<Longrightarrow> reads_fine X (taken_server a) app kd" "writes_fine (taken_server a)"
  "cap_fine X (taken_server a) src sample_app"
  using calm_cap(1) [of X a src]
  by (cases kd, simp_all add: reads_fine_def taken_server_def calm_server_def writes_fine_def cap_fine_def)

section \<open>Runs\<close>

abbreviation sample_key :: object_key where "sample_key \<equiv> (''prod'', ''shop'')"

lemma sample_finalizer: "AddFinalizer std_k8s (wa_Meta sample_app) Finalizer = (wa_Meta sample_app, False)"
  by (simp add: std_k8s_def)

lemma sample_run:
  assumes "kd \<in> {KDeployment, KService, KIngress, KHPA}"
  obtains pre obj owner force post
  where "run_trace std_k8s (calm_server sample_app) live_reconciler sample_key =
      pre @ ApplyObject obj owner force None # post" "kind_of obj = kd"
proof -
  have got: "srv_GetApp (calm_server sample_app) [] sample_key = Inr sample_app"
    by (simp add: calm_server_def)
  obtain pre got ev a where run: "run_state (Reconcile std_k8s (calm_server sample_app) live_reconciler sample_key) [] =
      ((no_requeue, None), pre @ GetObject CachedClient KDeployment (ObjectKeyFromObject sample_app)
         (map_sum id ODeployment got) # (ev @ status_metrics a) @
         [PatchStatus a sample_app None, Metric (MReconcileTotal ResultSuccess), Metric (MReconcileDuration ResultSuccess)])"
    and pre: "applied pre = map (\<lambda>kd. (kd, None)) (wanted_kinds sample_app)"
    by (rule Reconcile_fine [OF std_codecs sample_finalizer got])
      (simp_all add: calm_cap calm_writes calm_reads valid_spec_buildable [OF sample_valid])
  have "(kd, None) \<in> set (applied (run_trace std_k8s (calm_server sample_app) live_reconciler sample_key))"
    using assms pre by (auto simp: run wanted_kinds_def sample_wants)
  with that show thesis by (elim applied_split) blast
qed

text \<open>The WebApp is being deleted and its Ingress is still there.\<close>

definition owned_ingress :: IngressObj where
  "owned_ingress =
     \<lparr>in_Meta = zero_ObjectMeta\<lparr>om_Name := ''shop'', om_OwnerReferences := OwnerRefs sample_app\<rparr>,
      in_IngressClassName = None, in_Rules = []\<rparr>"

definition closing_server :: server where
  "closing_server = (calm_server deleted_app)\<lparr>srv_GetIngress := (\<lambda>tr src k. Inr owned_ingress)\<rparr>"

definition released_app :: WebApp where
  "released_app = deleted_app\<lparr>wa_Meta := (wa_Meta deleted_app)\<lparr>om_Finalizers := []\<rparr>\<rparr>"

lemma closing_run:
  "run_trace std_k8s closing_server live_reconciler sample_key =
    [GetApp sample_key (Inr deleted_app),
     GetObject CachedClient KIngress sample_key (Inr (OIngress owned_ingress)),
     DeleteObject (OIngress owned_ingress) None,
     GetObject CachedClient KHPA sample_key (Inl (ApiNotFound ''hpa'')),
     GetObject CachedClient KService sample_key (Inl (ApiNotFound ''service'')),
     GetObject CachedClient KDeployment sample_key (Inl (ApiNotFound ''deployment'')),
     RecordEvent deleted_app EventTypeNormal ''Deleted'' (Lit ''owned resources removed''),
     Metric (MForget ''shop'' ''prod''),
     UpdateApp released_app (Inr released_app),
     Metric (MReconcileTotal ResultSuccess), Metric (MReconcileDuration ResultSuccess)]"
proof -
  have k8s: "ContainsFinalizer std_k8s (wa_Meta deleted_app) Finalizer"
    "deleted_app\<lparr>wa_Meta := RemoveFinalizer std_k8s (wa_Meta deleted_app) Finalizer\<rparr> = released_app"
    "IsControlledBy std_k8s (in_Meta owned_ingress) (wa_Meta deleted_app)"
    by (simp_all add: std_k8s_def deleted_app_def released_app_def owned_ingress_def OwnerRefs_def)
  have meta: "ObjectKeyFromObject deleted_app = sample_key" "app_Name deleted_app = ''shop''"
    "app_Namespace deleted_app = ''prod''" "om_DeletionTimestamp (wa_Meta deleted_app) = Some ''now''"
    by (simp_all add: deleted_app_def ObjectKeyFromObject_def)
  have del: "run_state (deleteOwned std_k8s closing_server deleted_app KIngress) tr = (None,
      tr @ [GetObject CachedClient KIngress sample_key (Inr (OIngress owned_ingress)),
            DeleteObject (OIngress owned_ingress) None])" for tr
    by (simp add: deleteOwned_def client_defs closing_server_def calm_server_def meta k8s)
  have none: "run_state (deleteOwned std_k8s closing_server deleted_app kd) tr = (None,
      tr @ [GetObject CachedClient kd sample_key (get_typed closing_server tr CachedClient kd sample_key)])"
    if "kd \<noteq> KIngress" for kd tr
    using that by (cases kd) (simp_all add: deleteOwned_def client_defs closing_server_def calm_server_def meta)
  have fin: "run_state (finalize std_k8s closing_server deleted_app) tr = (None,
      tr @ [GetObject CachedClient KIngress sample_key (Inr (OIngress owned_ingress)),
        DeleteObject (OIngress owned_ingress) None,
        GetObject CachedClient KHPA sample_key (Inl (ApiNotFound ''hpa'')),
        GetObject CachedClient KService sample_key (Inl (ApiNotFound ''service'')),
        GetObject CachedClient KDeployment sample_key (Inl (ApiNotFound ''deployment'')),
        RecordEvent deleted_app EventTypeNormal ''Deleted'' (Lit ''owned resources removed''),
        Metric (MForget ''shop'' ''prod''),
        UpdateApp released_app (Inr released_app)])" for tr
    unfolding finalize_def finalizer_kinds_def
    by (simp add: del none k8s meta client_Update_def del: Finalizer_def)
      (simp add: closing_server_def calm_server_def)
  have "srv_GetApp closing_server [] sample_key = Inr deleted_app"
    by (simp add: closing_server_def calm_server_def)
  then have "run_state (reconcile std_k8s closing_server live_reconciler sample_key) [] =
      ((no_requeue, None), [GetApp sample_key (Inr deleted_app),
        GetObject CachedClient KIngress sample_key (Inr (OIngress owned_ingress)),
        DeleteObject (OIngress owned_ingress) None,
        GetObject CachedClient KHPA sample_key (Inl (ApiNotFound ''hpa'')),
        GetObject CachedClient KService sample_key (Inl (ApiNotFound ''service'')),
        GetObject CachedClient KDeployment sample_key (Inl (ApiNotFound ''deployment'')),
        RecordEvent deleted_app EventTypeNormal ''Deleted'' (Lit ''owned resources removed''),
        Metric (MForget ''shop'' ''prod''),
        UpdateApp released_app (Inr released_app)])"
    using meta(4) by (simp add: reconcile_deleted fin)
  from Reconcile_run [OF this] show ?thesis by simp
qed

lemma taken_sync:
  "\<exists>err. fst (run_state (sync std_k8s (taken_server sample_app) live_reconciler sample_app) tr) = Some err"
proof -
  obtain i where i: "Ingress sample_app = Inr i"
    using valid_spec_builds(2) [OF sample_valid] by blast
  have "srv_GetIngress (taken_server sample_app) tr src k = Inr foreign_ingress" for tr src k
    by (simp add: taken_server_def)
  moreover have "\<not> IsControlledBy std_k8s (in_Meta foreign_ingress) (wa_Meta sample_app)"
    by (simp add: std_k8s_def foreign_ingress_def zero_ObjectMeta_def)
  ultimately show ?thesis
    using sync_half_applied(1) [OF std_codecs taken_fine(3) taken_fine(2) taken_fine(1) taken_fine(1)
        valid_spec_builds(1) [OF sample_valid] sample_wants(1) i]
    by (metis kind.distinct(3) kind.distinct(7))
qed

lemma taken_plain: "plain_replies (taken_server a)"
proof -
  have "\<not> As_terminal e" if "get_typed (taken_server a) tr src kd k = Inl e" for tr src kd k e
    using that by (cases kd) (auto simp: taken_server_def calm_server_def)
  then show ?thesis by (auto simp: plain_replies_def taken_server_def calm_server_def)
qed

end
