(* ===== verification/Warp_Manager.thy ===== *)
theory Warp_Manager
  imports Warp_Runs
begin

text \<open>
  The start of the operator, \<^verbatim>\<open>cmd/main.go\<close>, with what it hands to controller-runtime: the scheme, the
  options of the manager (among them the label selector that scopes the informer caches), the registration
  of the controller and of the two webhooks, and the health checks.

  The calls into controller-runtime are values of \<open>setup_call\<close>. Their replies are a parameter, a function
  of the calls made before, so every order of failures is covered. Parsing the command line is the flag
  package's; a setting is a pair of a flag's name and its value, and \<open>zap\<close> says which settings the flags
  bound by zap accept.
\<close>

section \<open>Flags\<close>

record flags =
  fl_MetricsAddr :: string
  fl_ProbeAddr :: string
  fl_WebhookCertDir :: string
  fl_MetricsCertDir :: string
  fl_LeaderElect :: bool
  fl_EnableWebhooks :: bool
  fl_MetricsSecure :: bool

definition default_flags :: flags where
  "default_flags =
     \<lparr>fl_MetricsAddr = '':8443'', fl_ProbeAddr = '':8081'',
      fl_WebhookCertDir = ''/tmp/k8s-webhook-server/serving-certs'', fl_MetricsCertDir = [],
      fl_LeaderElect = False, fl_EnableWebhooks = True, fl_MetricsSecure = True\<rparr>"

text \<open>strconv.ParseBool, which flag.BoolVar uses.\<close>

definition ParseBool :: "string \<Rightarrow> bool option" where
  "ParseBool s =
     (if s \<in> set [''1'', ''t'', ''T'', ''true'', ''TRUE'', ''True''] then Some True
      else if s \<in> set [''0'', ''f'', ''F'', ''false'', ''FALSE'', ''False''] then Some False
      else None)"

definition set_flag :: "(string \<Rightarrow> string \<Rightarrow> bool) \<Rightarrow> string \<times> string \<Rightarrow> flags \<Rightarrow> flags option" where
  "set_flag zap setting fl =
     (case setting of (name, v) \<Rightarrow>
        if name = ''metrics-bind-address'' then Some (fl\<lparr>fl_MetricsAddr := v\<rparr>)
        else if name = ''health-probe-bind-address'' then Some (fl\<lparr>fl_ProbeAddr := v\<rparr>)
        else if name = ''webhook-cert-dir'' then Some (fl\<lparr>fl_WebhookCertDir := v\<rparr>)
        else if name = ''metrics-cert-dir'' then Some (fl\<lparr>fl_MetricsCertDir := v\<rparr>)
        else if name = ''leader-elect'' then map_option (\<lambda>b. fl\<lparr>fl_LeaderElect := b\<rparr>) (ParseBool v)
        else if name = ''enable-webhooks'' then map_option (\<lambda>b. fl\<lparr>fl_EnableWebhooks := b\<rparr>) (ParseBool v)
        else if name = ''metrics-secure'' then map_option (\<lambda>b. fl\<lparr>fl_MetricsSecure := b\<rparr>) (ParseBool v)
        else if zap name v then Some fl else None)"

text \<open>flag.Parse stops the process at the first setting that is not understood; later settings win.\<close>

fun parse_flags :: "(string \<Rightarrow> string \<Rightarrow> bool) \<Rightarrow> (string \<times> string) list \<Rightarrow> flags \<Rightarrow> flags option" where
  "parse_flags zap [] fl = Some fl"
| "parse_flags zap (s # ss) fl =
     (case set_flag zap s fl of None \<Rightarrow> None | Some fl' \<Rightarrow> parse_flags zap ss fl')"

section \<open>What controller-runtime is given\<close>

record metrics_options =
  mo_BindAddress :: string
  mo_SecureServing :: bool
  mo_FilterProvider :: "string option"
  mo_CertDir :: string

definition metrics_options_of :: "flags \<Rightarrow> metrics_options" where
  "metrics_options_of fl =
     (let opts = \<lparr>mo_BindAddress = fl_MetricsAddr fl, mo_SecureServing = fl_MetricsSecure fl,
                  mo_FilterProvider = None, mo_CertDir = []\<rparr>
      in if fl_MetricsSecure fl
         then opts\<lparr>mo_FilterProvider := Some ''WithAuthenticationAndAuthorization'',
                   mo_CertDir := fl_MetricsCertDir fl\<rparr>
         else opts)"

text \<open>The label set whose selector scopes the caches, and the kinds it is set for.\<close>

definition managed :: string_map where
  "managed = fmap_of_list [(ManagedByLabel, ManagedByValue)]"

definition cache_by_object :: "(kind \<times> string_map) list" where
  "cache_by_object = [(KDeployment, managed), (KService, managed), (KIngress, managed), (KHPA, managed)]"

record manager_options =
  mg_Metrics :: metrics_options
  mg_Cache :: "(kind \<times> string_map) list"
  mg_WebhookCertDir :: string
  mg_MinTLSVersion :: string
  mg_ProbeAddr :: string
  mg_LeaderElection :: bool
  mg_LeaderElectionID :: string

definition known_types :: "string list" where
  "known_types = [''WebApp'', ''WebAppList'', ''WebAppPolicy'', ''WebAppPolicyList'']"

definition manager_options_of :: "flags \<Rightarrow> manager_options" where
  "manager_options_of fl =
     \<lparr>mg_Metrics = metrics_options_of fl, mg_Cache = cache_by_object,
      mg_WebhookCertDir = fl_WebhookCertDir fl, mg_MinTLSVersion = ''TLS12'',
      mg_ProbeAddr = fl_ProbeAddr fl, mg_LeaderElection = fl_LeaderElect fl,
      mg_LeaderElectionID = ''webapp-operator.webapps.example.com''\<rparr>"

text \<open>The reconciler of the manager: its client reads the cache, its APIReader the API server.\<close>

definition manager_reconciler :: WebAppReconciler where
  "manager_reconciler = \<lparr>rc_APIReader = Some LiveReader\<rparr>"

record registration =
  rn_For :: string
  rn_Owns :: "kind list"
  rn_Named :: string

definition SetupWithManager :: registration where
  "SetupWithManager =
     \<lparr>rn_For = ''WebApp'', rn_Owns = [KDeployment, KService, KIngress, KHPA], rn_Named = ''webapp''\<rparr>"

record webhook_registration =
  wr_For :: string
  wr_Defaulter :: bool
  wr_Validator :: bool
  wr_Reader :: "source option"

definition SetupWebAppWebhook :: webhook_registration where
  "SetupWebAppWebhook =
     \<lparr>wr_For = ''WebApp'', wr_Defaulter = True, wr_Validator = True, wr_Reader = Some LiveReader\<rparr>"

definition SetupWebAppPolicyWebhook :: webhook_registration where
  "SetupWebAppPolicyWebhook =
     \<lparr>wr_For = ''WebAppPolicy'', wr_Defaulter = False, wr_Validator = True, wr_Reader = None\<rparr>"

section \<open>Start-up\<close>

datatype checker = Ping | StartedChecker

datatype setup_call =
    MustRegister "(string \<times> string list) list"
  | AddToScheme string "string list"
  | GetConfigOrDie
  | NewManager manager_options
  | SetupController WebAppReconciler registration
  | SetupWebhook webhook_registration
  | AddHealthzCheck string checker
  | AddReadyzCheck string checker
  | StartManager

text \<open>
  The init functions run first, that of the metrics package before that of main. MustRegister panics
  when the registry refuses a collector.

  How main ends: by a panic of an init function, by the exit of flag.Parse or of the library, by
  os.Exit(1) after a line on setupLog, or by returning once the manager has stopped.
\<close>

datatype ending =
    PanicWith go_error
  | FlagExit
  | LibraryExit
  | ExitOne string "(string \<times> string) list" go_error
  | Returned

type_synonym environment = "setup_call list \<Rightarrow> setup_call \<Rightarrow> go_error option"

fun perform ::
  "environment \<Rightarrow> setup_call list \<Rightarrow> (setup_call \<times> (go_error \<Rightarrow> ending)) list \<Rightarrow> ending \<times> setup_call list" where
  "perform env made [] = (Returned, made)"
| "perform env made ((c, fail) # cs) =
     (case env made c of
        Some err \<Rightarrow> (fail err, made @ [c])
      | None \<Rightarrow> perform env (made @ [c]) cs)"

definition init_steps :: "(setup_call \<times> (go_error \<Rightarrow> ending)) list" where
  "init_steps =
     [(MustRegister collectors, PanicWith), (AddToScheme ''client-go'' [], PanicWith),
      (AddToScheme GroupVersionString known_types, PanicWith)]"

definition webhook_steps :: "flags \<Rightarrow> (setup_call \<times> (go_error \<Rightarrow> ending)) list" where
  "webhook_steps fl =
     (if fl_EnableWebhooks fl then
        [(SetupWebhook SetupWebAppWebhook, ExitOne ''unable to create webhook'' [(''webhook'', ''WebApp'')]),
         (SetupWebhook SetupWebAppPolicyWebhook,
          ExitOne ''unable to create webhook'' [(''webhook'', ''WebAppPolicy'')])]
      else [])"

definition readyz :: "flags \<Rightarrow> checker" where
  "readyz fl = (if fl_EnableWebhooks fl then StartedChecker else Ping)"

definition main_steps :: "flags \<Rightarrow> (setup_call \<times> (go_error \<Rightarrow> ending)) list" where
  "main_steps fl =
     [(GetConfigOrDie, \<lambda>_. LibraryExit),
      (NewManager (manager_options_of fl), ExitOne ''unable to start manager'' []),
      (SetupController manager_reconciler SetupWithManager,
       ExitOne ''unable to create controller'' [(''controller'', ''WebApp'')])]
     @ webhook_steps fl
     @ [(AddHealthzCheck ''healthz'' Ping, ExitOne ''unable to set up health check'' []),
        (AddReadyzCheck ''readyz'' (readyz fl), ExitOne ''unable to set up ready check'' []),
        (StartManager, ExitOne ''problem running manager'' [])]"

definition main ::
  "(string \<Rightarrow> string \<Rightarrow> bool) \<Rightarrow> environment \<Rightarrow> (string \<times> string) list \<Rightarrow> ending \<times> setup_call list" where
  "main zap env args =
     (case perform env [] init_steps of
        (Returned, made) \<Rightarrow>
          (case parse_flags zap args default_flags of
             None \<Rightarrow> (FlagExit, made)
           | Some fl \<Rightarrow> perform env made (main_steps fl))
      | failed \<Rightarrow> failed)"

section \<open>What the start-up guarantees\<close>

lemma perform_prefix: "\<exists>n. snd (perform env made steps) = made @ map fst (take n steps)"
proof (induction steps arbitrary: made)
  case (Cons s steps)
  obtain c fail where s: "s = (c, fail)" by fastforce
  show ?case
  proof (cases "env made c")
    case None
    obtain n where "snd (perform env (made @ [c]) steps) = (made @ [c]) @ map fst (take n steps)"
      using Cons.IH by blast
    with None s show ?thesis by (intro exI [of _ "Suc n"]) simp
  next
    case (Some err)
    with s show ?thesis by (intro exI [of _ 1]) simp
  qed
qed simp

text \<open>Only the last call made can have failed.\<close>

lemma perform_answered:
  "snd (perform env made steps) = made @ pre @ c # post \<Longrightarrow> post \<noteq> [] \<Longrightarrow> env (made @ pre) c = None"
proof (induction steps arbitrary: made pre)
  case (Cons s steps)
  obtain d fail where s: "s = (d, fail)" by fastforce
  show ?case
  proof (cases "env made d")
    case None
    with Cons.prems(1) s
    have run: "snd (perform env (made @ [d]) steps) = made @ pre @ c # post" by simp
    obtain n where "snd (perform env (made @ [d]) steps) = (made @ [d]) @ map fst (take n steps)"
      using perform_prefix by blast
    with run have split: "pre @ c # post = d # map fst (take n steps)" by simp
    show ?thesis
    proof (cases pre)
      case Nil
      with split None show ?thesis by simp
    next
      case (Cons x pre')
      with split run have "snd (perform env (made @ [d]) steps) = (made @ [d]) @ pre' @ c # post"
        by simp
      from Cons.IH [OF this Cons.prems(2)] Cons split show ?thesis by simp
    qed
  next
    case (Some err)
    with Cons.prems s show ?thesis by (cases pre) simp_all
  qed
qed simp

text \<open>A start-up in which no failure is turned into a return ends by returning only when all went well.\<close>

definition loud :: "(setup_call \<times> (go_error \<Rightarrow> ending)) list \<Rightarrow> bool" where
  "loud steps \<longleftrightarrow> (\<forall>s \<in> set steps. \<forall>err. snd s err \<noteq> Returned)"

lemma perform_Returned:
  "loud steps \<Longrightarrow> fst (perform env made steps) = Returned \<Longrightarrow>
     snd (perform env made steps) = made @ map fst steps"
proof (induction steps arbitrary: made)
  case (Cons s steps)
  then show ?case by (cases s) (auto simp: loud_def split: option.splits)
qed simp

lemma perform_Returned_answered:
  "loud steps \<Longrightarrow> fst (perform env made steps) = Returned \<Longrightarrow> i < length steps \<Longrightarrow>
     env (made @ take i (map fst steps)) (map fst steps ! i) = None"
proof (induction steps arbitrary: made i)
  case (Cons s steps)
  obtain c fail where s: "s = (c, fail)" by fastforce
  with Cons.prems(1,2) have none: "env made c = None" and loud: "loud steps"
    and ret: "fst (perform env (made @ [c]) steps) = Returned"
    by (auto simp: loud_def split: option.splits)
  show ?case
  proof (cases i)
    case 0
    with none s show ?thesis by simp
  next
    case (Suc j)
    with Cons.IH [OF loud ret] Cons.prems(3) s show ?thesis by simp
  qed
qed simp

lemma init_loud: "loud init_steps" and main_loud: "loud (main_steps fl)"
  by (auto simp: loud_def init_steps_def main_steps_def webhook_steps_def)

lemma perform_last:
  assumes "last_call \<in> set (snd (perform env made steps))"
    and "last_call \<notin> set made" "steps = front @ [(last_call, fail)]" "last_call \<notin> fst ` set front"
  shows "snd (perform env made steps) = made @ map fst steps"
proof -
  obtain n where n: "snd (perform env made steps) = made @ map fst (take n steps)"
    using perform_prefix by blast
  have "n \<ge> length steps"
  proof (rule ccontr)
    assume "\<not> n \<ge> length steps"
    then have "take n steps = take n front" using assms(3) by simp
    with n assms(1,2,4) show False
      by (auto dest: in_set_takeD)
  qed
  with n show ?thesis by simp
qed

lemma main_started:
  assumes "StartManager \<in> set (snd (main zap env args))"
  obtains fl where "parse_flags zap args default_flags = Some fl"
    "snd (main zap env args) = map fst init_steps @ map fst (main_steps fl)"
    "perform env [] init_steps = (Returned, map fst init_steps)"
    "main zap env args = perform env (map fst init_steps) (main_steps fl)"
proof -
  obtain e made where init: "perform env [] init_steps = (e, made)" by fastforce
  obtain n where "made = map fst (take n init_steps)"
    using perform_prefix [of env "[]" init_steps] init by auto
  then have fresh: "StartManager \<notin> set made"
    by (auto simp: init_steps_def dest: in_set_takeD)
  have e: "e = Returned"
    using assms init fresh by (cases e) (simp_all add: main_def)
  with init have made: "made = map fst init_steps"
    using perform_Returned [OF init_loud, of env "[]"] by simp
  from assms init e fresh obtain fl where fl: "parse_flags zap args default_flags = Some fl"
    and run: "main zap env args = perform env made (main_steps fl)"
    by (auto simp: main_def split: option.splits)
  have "snd (perform env made (main_steps fl)) = made @ map fst (main_steps fl)"
  proof (rule perform_last)
    show "StartManager \<in> set (snd (perform env made (main_steps fl)))" using assms run by simp
    show "main_steps fl = butlast (main_steps fl) @ [(StartManager, ExitOne ''problem running manager'' [])]"
      by (simp add: main_steps_def butlast_append)
    show "StartManager \<notin> fst ` set (butlast (main_steps fl))"
      by (auto simp: main_steps_def webhook_steps_def butlast_append)
  qed (rule fresh)
  with that [OF fl] made e init run show thesis by simp
qed

lemma started_answered:
  assumes "StartManager \<in> set (snd (main zap env args))"
    and "snd (main zap env args) = pre @ c # post" "post \<noteq> []"
  shows "env pre c = None"
proof -
  from assms(1) obtain fl where fl: "snd (main zap env args) = map fst init_steps @ map fst (main_steps fl)"
    and init: "perform env [] init_steps = (Returned, map fst init_steps)"
    and run: "main zap env args = perform env (map fst init_steps) (main_steps fl)"
    by (rule main_started)
  let ?made = "map fst init_steps"
  show ?thesis
  proof (cases "length pre < length ?made")
    case True
    from assms(2) fl have split: "pre @ c # post = ?made @ map fst (main_steps fl)" by simp
    have "pre = take (length pre) (pre @ c # post)" "c = (pre @ c # post) ! length pre" by simp_all
    with True have at: "pre = take (length pre) ?made" "c = ?made ! length pre"
      unfolding split by (simp_all add: nth_append)
    have "env (take i ?made) (?made ! i) = None" if "i < length ?made" for i
      using perform_Returned_answered [where env = env and made = "[]" and steps = init_steps and i = i] init init_loud that by simp
    with True at show ?thesis by metis
  next
    case False
    from assms(2) fl have "pre @ c # post = ?made @ map fst (main_steps fl)" by simp
    then have "take (length ?made) (pre @ c # post) = ?made" by simp
    with False have "take (length ?made) pre = ?made" by simp
    then obtain pre' where pre: "pre = ?made @ pre'"
      by (metis append_take_drop_id)
    with assms(2) run have "snd (perform env ?made (main_steps fl)) = ?made @ pre' @ c # post" by simp
    from perform_answered [OF this assms(3)] pre show ?thesis by simp
  qed
qed

section \<open>What the caches hold\<close>

text \<open>An object of the kind with these labels is in the informer cache of the manager.\<close>

definition in_cache :: "k8s \<Rightarrow> object \<Rightarrow> bool" where
  "in_cache X obj \<longleftrightarrow>
     (case map_of cache_by_object (kind_of obj) of
        None \<Rightarrow> True
      | Some sel \<Rightarrow> SelectorFromSet X sel (om_Labels (meta_of obj)))"

lemma in_cache_iff:
  assumes "selectors_documented X"
  shows "in_cache X obj \<longleftrightarrow> fmlookup (om_Labels (meta_of obj)) ManagedByLabel = Some ManagedByValue"
proof -
  have "map_of cache_by_object (kind_of obj) = Some managed"
    by (cases "kind_of obj") (simp_all add: cache_by_object_def)
  with assms show ?thesis
    by (auto simp: in_cache_def selectors_documented_def managed_def fmlookup_of_list)
qed

lemma desired_meta:
  assumes "desired X app tr obj"
  shows "om_Labels (meta_of obj) = Labels app"
    "(om_Namespace (meta_of obj), om_Name (meta_of obj)) = ObjectKeyFromObject app"
    "om_OwnerReferences (meta_of obj) = OwnerRefs app"
proof -
  have "om_Labels (meta_of obj) = Labels app \<and>
    (om_Namespace (meta_of obj), om_Name (meta_of obj)) = ObjectKeyFromObject app \<and>
    om_OwnerReferences (meta_of obj) = OwnerRefs app"
  proof (cases obj)
    case (ODeployment d)
    with assms show ?thesis
      by (auto simp: with_replicas_def ObjectKeyFromObject_def split: if_splits)
  next
    case (OService s)
    with assms show ?thesis
      using service_builder.built_key service_builder.build_labels service_builder.build_owners
      by (auto simp: ObjectKeyFromObject_def)
  next
    case (OIngress i)
    with assms have "ingress_object app = Some (OIngress i)"
      by (simp add: ingress_object_def)
    from ingress_builder.build_labels [OF this] ingress_builder.built_key [OF this]
      ingress_builder.build_owners [OF this] OIngress
    show ?thesis by (simp add: ObjectKeyFromObject_def)
  next
    case (OHPA h)
    with assms have "hpa_object app = Some (OHPA h)"
      by (simp add: hpa_object_def)
    from hpa_builder.build_labels [OF this] hpa_builder.built_key [OF this]
      hpa_builder.build_owners [OF this] OHPA
    show ?thesis by (simp add: ObjectKeyFromObject_def)
  qed
  then show "om_Labels (meta_of obj) = Labels app"
    "(om_Namespace (meta_of obj), om_Name (meta_of obj)) = ObjectKeyFromObject app"
    "om_OwnerReferences (meta_of obj) = OwnerRefs app"
    by simp_all
qed

lemma desired_cached: "selectors_documented X \<Longrightarrow> desired X app tr obj \<Longrightarrow> in_cache X obj"
  by (simp add: in_cache_iff desired_meta(1) Labels_def SelectorLabels_lookup)

lemma desired_controlled:
  "control_documented X \<Longrightarrow> desired X app tr obj \<Longrightarrow>
     IsControlledBy X (meta_of obj) owner \<longleftrightarrow> om_UID owner = app_UID app"
  by (auto simp: control_documented_def desired_meta(3) OwnerRefs_def)

lemma reader_manager [simp]: "reader manager_reconciler = LiveReader"
  by (simp add: reader_def manager_reconciler_def)

end
