(* ===== verification/Warp_Cluster.thy ===== *)
theory Warp_Cluster
  imports Warp_Manager Warp_Status
begin

text \<open>
  The cluster the operator works on: a store of WebApps and of the objects of the four kinds, the effect
  of each call of a run on it, and what many runs, for many WebApps, between the edits of users, keep of
  it.

  What the API server makes of a write is a parameter, the record \<open>api\<close>: how server-side apply merges a
  configuration into the stored object, what a deletion leaves (an object with finalizers stays), what an
  update of a WebApp stores, and how a status patch changes the stored WebApp. \<open>api_documented\<close> states
  what the documentation promises of them. A server \<^emph>\<open>serves\<close> a cluster when its replies are about that
  cluster: a read is answered with what is stored at that moment, or fails with an error other than
  NotFound; a read through the cache sees only what the cache selector of \<^verbatim>\<open>cmd/main.go\<close> lets in. Any call
  may still fail at any time; a call that fails changes nothing.
\<close>

section \<open>Clusters\<close>

record cluster =
  cl_App :: "object_key \<Rightarrow> WebApp option"
  cl_Obj :: "kind \<Rightarrow> object_key \<Rightarrow> object option"

record api =
  api_Apply :: "object option \<Rightarrow> object \<Rightarrow> object"
  api_Delete :: "object \<Rightarrow> object option"
  api_Store :: "WebApp \<Rightarrow> WebApp option"
  api_Patch :: "WebApp \<Rightarrow> WebApp \<Rightarrow> WebApp \<Rightarrow> WebApp"

definition key_of :: "object \<Rightarrow> object_key" where
  "key_of obj = (om_Namespace (meta_of obj), om_Name (meta_of obj))"

definition put_obj :: "kind \<Rightarrow> object_key \<Rightarrow> object option \<Rightarrow> cluster \<Rightarrow> cluster" where
  "put_obj kd k x C = C\<lparr>cl_Obj := (cl_Obj C)(kd := (cl_Obj C kd)(k := x))\<rparr>"

definition put_app :: "object_key \<Rightarrow> WebApp option \<Rightarrow> cluster \<Rightarrow> cluster" where
  "put_app k x C = C\<lparr>cl_App := (cl_App C)(k := x)\<rparr>"

lemma put_simps [simp]:
  "cl_Obj (put_obj kd k x C) kd' k' = (if kd' = kd \<and> k' = k then x else cl_Obj C kd' k')"
  "cl_App (put_obj kd k x C) = cl_App C"
  "cl_App (put_app k a C) k' = (if k' = k then a else cl_App C k')"
  "cl_Obj (put_app k a C) = cl_Obj C"
  by (simp_all add: put_obj_def put_app_def)

fun effect_on :: "api \<Rightarrow> effect \<Rightarrow> cluster \<Rightarrow> cluster" where
  "effect_on A (ApplyObject obj owner force None) C =
     put_obj (kind_of obj) (key_of obj) (Some (api_Apply A (cl_Obj C (kind_of obj) (key_of obj)) obj)) C"
| "effect_on A (DeleteObject obj None) C =
     put_obj (kind_of obj) (key_of obj) (Option.bind (cl_Obj C (kind_of obj) (key_of obj)) (api_Delete A)) C"
| "effect_on A (UpdateApp a (Inr a')) C = put_app (ObjectKeyFromObject a) (api_Store A a') C"
| "effect_on A (PatchStatus a b None) C =
     put_app (ObjectKeyFromObject a) (map_option (\<lambda>s. api_Patch A s a b) (cl_App C (ObjectKeyFromObject a))) C"
| "effect_on A _ C = C"

definition after :: "api \<Rightarrow> cluster \<Rightarrow> trace \<Rightarrow> cluster" where
  "after A C tr = fold (effect_on A) tr C"

lemma after_simps [simp]:
  "after A C [] = C"
  "after A C (tr @ es) = after A (after A C tr) es"
  "after A C (e # es) = after A (effect_on A e C) es"
  by (simp_all add: after_def)

text \<open>What a write that concerns the status or the managed fields only leaves alone.\<close>

definition same_identity :: "ObjectMeta \<Rightarrow> ObjectMeta \<Rightarrow> bool" where
  "same_identity m n \<longleftrightarrow>
     om_Name m = om_Name n \<and> om_Namespace m = om_Namespace n \<and> om_UID m = om_UID n \<and>
     om_DeletionTimestamp m = om_DeletionTimestamp n \<and> om_Finalizers m = om_Finalizers n"

definition api_documented :: "k8s \<Rightarrow> api \<Rightarrow> bool" where
  "api_documented X A \<longleftrightarrow>
     (\<forall>old obj. kind_of (api_Apply A old obj) = kind_of obj \<and> key_of (api_Apply A old obj) = key_of obj \<and>
        api_Apply A (Some (api_Apply A old obj)) obj = api_Apply A old obj \<and>
        (\<forall>k v. fmlookup (om_Labels (meta_of obj)) k = Some v \<longrightarrow>
           fmlookup (om_Labels (meta_of (api_Apply A old obj))) k = Some v) \<and>
        (\<forall>owner. (\<forall>o'. old = Some o' \<longrightarrow> IsControlledBy X (meta_of o') owner) \<longrightarrow>
           IsControlledBy X (meta_of obj) owner \<longrightarrow> IsControlledBy X (meta_of (api_Apply A old obj)) owner)) \<and>
     (\<forall>o1 o2. api_Delete A o1 = Some o2 \<longrightarrow>
        kind_of o2 = kind_of o1 \<and> key_of o2 = key_of o1 \<and> api_Delete A o2 = Some o2) \<and>
     (\<forall>a. api_Store A a =
        (if om_DeletionTimestamp (wa_Meta a) \<noteq> None \<and> om_Finalizers (wa_Meta a) = [] then None else Some a)) \<and>
     (\<forall>s a b. same_identity (wa_Meta (api_Patch A s a b)) (wa_Meta s) \<and>
        wa_Spec (api_Patch A s a b) = wa_Spec s)"

lemma api_documentedD:
  assumes "api_documented X A"
  shows "kind_of (api_Apply A old obj) = kind_of obj" "key_of (api_Apply A old obj) = key_of obj"
    "api_Apply A (Some (api_Apply A old obj)) obj = api_Apply A old obj"
    "fmlookup (om_Labels (meta_of obj)) k = Some v \<Longrightarrow>
       fmlookup (om_Labels (meta_of (api_Apply A old obj))) k = Some v"
    "(\<And>o'. old = Some o' \<Longrightarrow> IsControlledBy X (meta_of o') owner) \<Longrightarrow>
       IsControlledBy X (meta_of obj) owner \<Longrightarrow> IsControlledBy X (meta_of (api_Apply A old obj)) owner"
    "api_Delete A o1 = Some o2 \<Longrightarrow> kind_of o2 = kind_of o1 \<and> key_of o2 = key_of o1 \<and> api_Delete A o2 = Some o2"
    "api_Store A a =
       (if om_DeletionTimestamp (wa_Meta a) \<noteq> None \<and> om_Finalizers (wa_Meta a) = [] then None else Some a)"
    "same_identity (wa_Meta (api_Patch A s a b)) (wa_Meta s)" "wa_Spec (api_Patch A s a b) = wa_Spec s"
  using assms unfolding api_documented_def by blast+

definition serves :: "k8s \<Rightarrow> api \<Rightarrow> server \<Rightarrow> cluster \<Rightarrow> bool" where
  "serves X A S C \<longleftrightarrow>
     (\<forall>tr k kd.
        (case srv_GetApp S tr k of Inr a \<Rightarrow> cl_App (after A C tr) k = Some a
         | Inl e \<Rightarrow> IsNotFound e \<longrightarrow> cl_App (after A C tr) k = None) \<and>
        (case get_typed S tr LiveReader kd k of Inr obj \<Rightarrow> cl_Obj (after A C tr) kd k = Some obj
         | Inl e \<Rightarrow> IsNotFound e \<longrightarrow> cl_Obj (after A C tr) kd k = None) \<and>
        (case get_typed S tr CachedClient kd k of
           Inr obj \<Rightarrow> cl_Obj (after A C tr) kd k = Some obj \<and> in_cache X obj
         | Inl e \<Rightarrow> IsNotFound e \<longrightarrow> (\<forall>obj. cl_Obj (after A C tr) kd k = Some obj \<longrightarrow> \<not> in_cache X obj))) \<and>
     (\<forall>tr obj e. srv_Delete S tr obj = Some e \<longrightarrow> IsNotFound e \<longrightarrow>
        cl_Obj (after A C tr) (kind_of obj) (key_of obj) = None) \<and>
     (\<forall>tr a a'. srv_Update S tr a = Inr a' \<longrightarrow>
        same_identity (wa_Meta a') (wa_Meta a) \<and> wa_Spec a' = wa_Spec a)"

lemma servesD:
  assumes "serves X A S C"
  shows "srv_GetApp S tr k = Inr a \<Longrightarrow> cl_App (after A C tr) k = Some a"
    "srv_GetApp S tr k = Inl e \<Longrightarrow> IsNotFound e \<Longrightarrow> cl_App (after A C tr) k = None"
    "get_typed S tr LiveReader kd k = Inr obj \<Longrightarrow> cl_Obj (after A C tr) kd k = Some obj"
    "get_typed S tr LiveReader kd k = Inl e \<Longrightarrow> IsNotFound e \<Longrightarrow> cl_Obj (after A C tr) kd k = None"
    "get_typed S tr CachedClient kd k = Inr obj \<Longrightarrow> cl_Obj (after A C tr) kd k = Some obj \<and> in_cache X obj"
    "get_typed S tr CachedClient kd k = Inl e \<Longrightarrow> IsNotFound e \<Longrightarrow>
       cl_Obj (after A C tr) kd k = Some obj \<Longrightarrow> \<not> in_cache X obj"
    "srv_Delete S tr obj = Some e \<Longrightarrow> IsNotFound e \<Longrightarrow> cl_Obj (after A C tr) (kind_of obj) (key_of obj) = None"
    "srv_Update S tr a = Inr a' \<Longrightarrow> same_identity (wa_Meta a') (wa_Meta a)"
    "srv_Update S tr a = Inr a' \<Longrightarrow> wa_Spec a' = wa_Spec a"
proof -
  have read: "case srv_GetApp S tr k of Inr a \<Rightarrow> cl_App (after A C tr) k = Some a
      | Inl e \<Rightarrow> IsNotFound e \<longrightarrow> cl_App (after A C tr) k = None"
    "case get_typed S tr LiveReader kd k of Inr obj \<Rightarrow> cl_Obj (after A C tr) kd k = Some obj
      | Inl e \<Rightarrow> IsNotFound e \<longrightarrow> cl_Obj (after A C tr) kd k = None"
    "case get_typed S tr CachedClient kd k of
        Inr obj \<Rightarrow> cl_Obj (after A C tr) kd k = Some obj \<and> in_cache X obj
      | Inl e \<Rightarrow> IsNotFound e \<longrightarrow> (\<forall>obj. cl_Obj (after A C tr) kd k = Some obj \<longrightarrow> \<not> in_cache X obj)"
    using assms unfolding serves_def by blast+
  show "srv_GetApp S tr k = Inr a \<Longrightarrow> cl_App (after A C tr) k = Some a"
    "srv_GetApp S tr k = Inl e \<Longrightarrow> IsNotFound e \<Longrightarrow> cl_App (after A C tr) k = None"
    using read(1) by simp_all
  show "get_typed S tr LiveReader kd k = Inr obj \<Longrightarrow> cl_Obj (after A C tr) kd k = Some obj"
    "get_typed S tr LiveReader kd k = Inl e \<Longrightarrow> IsNotFound e \<Longrightarrow> cl_Obj (after A C tr) kd k = None"
    using read(2) by simp_all
  show "get_typed S tr CachedClient kd k = Inr obj \<Longrightarrow> cl_Obj (after A C tr) kd k = Some obj \<and> in_cache X obj"
    "get_typed S tr CachedClient kd k = Inl e \<Longrightarrow> IsNotFound e \<Longrightarrow>
       cl_Obj (after A C tr) kd k = Some obj \<Longrightarrow> \<not> in_cache X obj"
    using read(3) by simp_all
  show "srv_Delete S tr obj = Some e \<Longrightarrow> IsNotFound e \<Longrightarrow> cl_Obj (after A C tr) (kind_of obj) (key_of obj) = None"
    "srv_Update S tr a = Inr a' \<Longrightarrow> same_identity (wa_Meta a') (wa_Meta a)"
    "srv_Update S tr a = Inr a' \<Longrightarrow> wa_Spec a' = wa_Spec a"
    using assms unfolding serves_def by blast+
qed

text \<open>The store is well typed: every object is filed under its own kind, namespace and name.\<close>

definition cluster_ok :: "cluster \<Rightarrow> bool" where
  "cluster_ok C \<longleftrightarrow>
     (\<forall>kd k obj. cl_Obj C kd k = Some obj \<longrightarrow> kind_of obj = kd \<and> key_of obj = k) \<and>
     (\<forall>k a. cl_App C k = Some a \<longrightarrow> ObjectKeyFromObject a = k)"

lemma same_identity_key:
  "same_identity (wa_Meta a) (wa_Meta b) \<Longrightarrow> ObjectKeyFromObject a = ObjectKeyFromObject b"
  by (simp add: same_identity_def ObjectKeyFromObject_def)

lemma harmless_effect: "harmless e \<Longrightarrow> effect_on A e C = C"
  by (cases e) simp_all

lemma after_harmless: "\<forall>e \<in> set tr. harmless e \<Longrightarrow> after A C tr = C"
  by (induction tr arbitrary: C) (simp_all add: harmless_effect)

lemma effect_objects:
  "cl_Obj (effect_on A (UpdateApp a r) C) = cl_Obj C" "cl_Obj (effect_on A (PatchStatus a b p) C) = cl_Obj C"
  "cl_App (effect_on A (ApplyObject obj owner force p) C) = cl_App C"
  "cl_App (effect_on A (DeleteObject obj p) C) = cl_App C"
  by (cases r; simp) (cases p; simp)+

section \<open>The replies in a run are the server's\<close>

text \<open>Each reply in the trace is what the server answered then, and only the requested WebApp is read.\<close>

fun answers :: "server \<Rightarrow> object_key \<Rightarrow> trace \<Rightarrow> effect \<Rightarrow> bool" where
  "answers S req pre (GetApp k r) \<longleftrightarrow> k = req \<and> r = srv_GetApp S pre k"
| "answers S req pre (GetObject src kd k r) \<longleftrightarrow> r = get_typed S pre src kd k"
| "answers S req pre (UpdateApp a r) \<longleftrightarrow> r = srv_Update S pre a"
| "answers S req pre (ApplyObject obj owner force r) \<longleftrightarrow> r = srv_Apply S pre obj owner force"
| "answers S req pre (DeleteObject obj r) \<longleftrightarrow> r = srv_Delete S pre obj"
| "answers S req pre (PatchStatus a b r) \<longleftrightarrow> r = srv_Patch S pre a b"
| "answers S req pre _ \<longleftrightarrow> True"

definition honest :: "server \<Rightarrow> object_key \<Rightarrow> 'a run \<Rightarrow> bool" where
  "honest S req m \<longleftrightarrow> triple (keeps (answers S req)) m (\<lambda>_. keeps (answers S req))"

lemma honest_return [simp]: "honest S req (return x)"
  by (simp add: honest_def triple_return)

lemma honest_bind: "honest S req m \<Longrightarrow> (\<And>x. honest S req (f x)) \<Longrightarrow> honest S req (State_Monad.bind m f)"
  unfolding honest_def by (rule triple_bind)

lemma honest_call: "(\<And>tr. answers S req tr (eff (reply tr))) \<Longrightarrow> honest S req (call reply eff)"
  by (simp add: honest_def triple_call)

lemma honest_tell: "(\<And>tr. answers S req tr e) \<Longrightarrow> honest S req (tell e)"
  by (simp add: honest_def triple_tell)

lemma honest_client [simp]:
  "honest S req (client_GetApp S req)" "honest S req (client_Get S src kd k)"
  "honest S req (client_GetDeployment S src k)" "honest S req (client_ListPolicies S src)"
  "honest S req (client_GetNamespace S src n)" "honest S req (client_Update S a)"
  "honest S req (client_Apply S obj owner force)" "honest S req (client_Delete S obj)"
  "honest S req (client_PatchStatus S a b)"
  unfolding client_defs by (rule honest_call; simp)+

lemma honest_say [simp]:
  "honest S req (tell (RecordEvent a t u m))" "honest S req (tell (LogInfo u m))"
  "honest S req (tell (Metric c))" "honest S req (tell Panicked)"
  by (rule honest_tell; simp)+

lemma honest_cases:
  "(\<And>a. honest S req (f a)) \<Longrightarrow> (\<And>b. honest S req (g b)) \<Longrightarrow> honest S req (case s of Inl a \<Rightarrow> f a | Inr b \<Rightarrow> g b)"
  "honest S req m \<Longrightarrow> (\<And>b. honest S req (h b)) \<Longrightarrow> honest S req (case p of None \<Rightarrow> m | Some b \<Rightarrow> h b)"
  "honest S req m \<Longrightarrow> honest S req n \<Longrightarrow> honest S req (if b then m else n)"
  by (simp_all split: sum.split option.split)

lemmas honest_rules = honest_bind honest_cases honest_return honest_client honest_say

lemma honest_sync: "honest S req (sync X S r app)"
proof -
  have logs: "honest S req (log_all m ws)" for m ws
    by (induction ws) (simp_all add: honest_bind)
  have adopt: "honest S req (assertAdoptable X S r app kd t)" for kd t
    unfolding assertAdoptable_def by (intro honest_rules)
  have del: "honest S req (deleteOwned X S app kd)" for kd
    unfolding deleteOwned_def by (intro honest_rules)
  have cap: "honest S req (enforceScalePolicy X S r app)"
    unfolding enforceScalePolicy_def scale_verdict_def by (intro honest_rules logs)
  have prep: "honest S req (sync_prepare X S r app)"
    unfolding sync_prepare_def sync_replicas_def replicaHold_def by (intro honest_rules cap adopt)
  have ing: "honest S req (syncIngress X S r app)"
    unfolding syncIngress_def apply_config_def by (intro honest_rules adopt del)
  have hpa: "honest S req (syncHPA X S r app)"
    unfolding syncHPA_def apply_config_def
    by (cases "HPA app") (auto intro!: honest_rules adopt del)
  show ?thesis
    unfolding sync_def apply_config_def by (intro honest_rules prep ing hpa)
qed

lemma honest_finalize: "honest S req (finalize X S app)"
proof -
  have del: "honest S req (deleteOwned X S app kd)" for kd
    unfolding deleteOwned_def by (intro honest_rules)
  have "honest S req (delete_all X S app kds)" for kds
    by (induction kds) (auto intro!: honest_rules del)
  then show ?thesis
    unfolding finalize_def by (intro honest_rules)
qed

lemma honest_updateStatus: "honest S req (updateStatus X S app base dep)"
proof -
  have "honest S req (publish_conditions app cs)" for cs
    by (induction cs) (auto intro!: honest_rules)
  then show ?thesis
    unfolding updateStatus_def record_scaled_def Let_def by (intro honest_rules)
qed

lemma honest_reconcile: "honest S req (reconcile X S r req)"
proof -
  have failed: "honest S req (reconcile_failed X S app base err)" for app base err
    unfolding reconcile_failed_def Let_def by (intro honest_rules honest_updateStatus)
  have report: "honest S req (reconcile_report X S app base dep)" for app base dep
    unfolding reconcile_report_def record_reconciled_def Let_def by (intro honest_rules honest_updateStatus)
  have ens: "honest S req (ensure_finalizer X S app)" for app
    unfolding ensure_finalizer_def by (cases "AddFinalizer X (wa_Meta app) Finalizer") (auto intro!: honest_rules)
  show ?thesis
    unfolding reconcile_def by (intro honest_rules honest_finalize ens honest_sync failed report)
qed

lemma run_answers: "keeps (answers S req) (run_trace X S r req)"
proof -
  have "honest S req (Reconcile X S r req)"
    unfolding Reconcile_def Let_def by (intro honest_rules honest_reconcile)
  then show ?thesis
    unfolding honest_def by (drule_tac tripleD [where tr = "[]"]) simp_all
qed

section \<open>What a run keeps of the cluster\<close>

lemma effect_cluster_ok:
  assumes A: "api_documented X A" and S: "serves X A S C0" and ans: "answers S req pre e"
    and ok: "cluster_ok (after A C0 pre)"
  shows "cluster_ok (effect_on A e (after A C0 pre))"
proof -
  let ?C = "after A C0 pre"
  have obj: "kind_of obj = kd \<and> key_of obj = k" if "cl_Obj ?C kd k = Some obj" for kd k obj
    using ok that unfolding cluster_ok_def by blast
  have app: "ObjectKeyFromObject a = k" if "cl_App ?C k = Some a" for k a
    using ok that unfolding cluster_ok_def by blast
  have put: "cluster_ok (put_obj kd k x ?C)"
    if "\<And>o1. x = Some o1 \<Longrightarrow> kind_of o1 = kd \<and> key_of o1 = k" for kd k x
    using that ok by (auto simp: cluster_ok_def)
  have puta: "cluster_ok (put_app k x ?C)" if "\<And>a. x = Some a \<Longrightarrow> ObjectKeyFromObject a = k" for k x
    using that ok by (auto simp: cluster_ok_def)
  show ?thesis
  proof (cases e)
    case (ApplyObject cfg owner force reply)
    have "cluster_ok (put_obj (kind_of cfg) (key_of cfg)
        (Some (api_Apply A (cl_Obj ?C (kind_of cfg) (key_of cfg)) cfg)) ?C)"
      by (rule put) (use api_documentedD(1,2) [OF A] in auto)
    with ok ApplyObject show ?thesis by (cases reply) simp_all
  next
    case (DeleteObject o1 reply)
    have "cluster_ok (put_obj (kind_of o1) (key_of o1)
        (Option.bind (cl_Obj ?C (kind_of o1) (key_of o1)) (api_Delete A)) ?C)"
    proof (rule put)
      fix o2 assume "Option.bind (cl_Obj ?C (kind_of o1) (key_of o1)) (api_Delete A) = Some o2"
      then obtain o' where "cl_Obj ?C (kind_of o1) (key_of o1) = Some o'" "api_Delete A o' = Some o2"
        by (auto simp: bind_eq_Some_conv)
      with obj api_documentedD(6) [OF A] show "kind_of o2 = kind_of o1 \<and> key_of o2 = key_of o1"
        by metis
    qed
    with ok DeleteObject show ?thesis by (cases reply) simp_all
  next
    case (UpdateApp a reply)
    show ?thesis
    proof (cases reply)
      case (Inr a')
      have "ObjectKeyFromObject a' = ObjectKeyFromObject a"
        using ans UpdateApp Inr servesD(8) [OF S, of pre a a'] by (simp add: same_identity_key)
      then have "cluster_ok (put_app (ObjectKeyFromObject a) (api_Store A a') ?C)"
        by (intro puta) (simp add: api_documentedD(7) [OF A] split: if_splits)
      with UpdateApp Inr show ?thesis by simp
    qed (use ok UpdateApp in simp)
  next
    case (PatchStatus a b reply)
    have "cluster_ok (put_app (ObjectKeyFromObject a)
        (map_option (\<lambda>s. api_Patch A s a b) (cl_App ?C (ObjectKeyFromObject a))) ?C)"
    proof (rule puta)
      fix s' assume "map_option (\<lambda>s. api_Patch A s a b) (cl_App ?C (ObjectKeyFromObject a)) = Some s'"
      then obtain s where "cl_App ?C (ObjectKeyFromObject a) = Some s" "s' = api_Patch A s a b" by blast
      with same_identity_key [OF api_documentedD(8) [OF A, of s a b]] app
      show "ObjectKeyFromObject s' = ObjectKeyFromObject a" by simp
    qed
    with ok PatchStatus show ?thesis by (cases reply) simp_all
  qed (use ok in simp_all)
qed

lemma run_cluster_ok:
  assumes "api_documented X A" "serves X A S C" "cluster_ok C" "keeps (answers S req) tr"
  shows "cluster_ok (after A C tr)"
  using assms(4)
proof (induction tr rule: rev_induct)
  case (snoc e tr)
  then show ?case using effect_cluster_ok [OF assms(1,2), of req tr e] by simp
qed (simp add: assms(3))

text \<open>The WebApps of the cluster keep their UIDs, and none appears.\<close>

definition same_uids :: "cluster \<Rightarrow> cluster \<Rightarrow> bool" where
  "same_uids C0 C \<longleftrightarrow>
     (\<forall>k a. cl_App C k = Some a \<longrightarrow> (\<exists>a0. cl_App C0 k = Some a0 \<and> app_UID a0 = app_UID a))"

lemma same_uidsD:
  "same_uids C0 C \<Longrightarrow> cl_App C k = Some a \<Longrightarrow> \<exists>a0. cl_App C0 k = Some a0 \<and> app_UID a0 = app_UID a"
  unfolding same_uids_def by blast

lemma same_uids_put:
  assumes "same_uids C0 C" "\<And>a. x = Some a \<Longrightarrow> \<exists>a0. cl_App C0 k = Some a0 \<and> app_UID a0 = app_UID a"
  shows "same_uids C0 (put_app k x C)"
  unfolding same_uids_def put_simps
proof (intro allI impI)
  fix k' a
  assume "(if k' = k then x else cl_App C k') = Some a"
  then show "\<exists>a0. cl_App C0 k' = Some a0 \<and> app_UID a0 = app_UID a"
    using assms(2) same_uidsD [OF assms(1)] by (cases "k' = k") simp_all
qed

definition known_app :: "cluster \<Rightarrow> object_key \<Rightarrow> WebApp \<Rightarrow> bool" where
  "known_app C0 req app \<longleftrightarrow>
     ObjectKeyFromObject app = req \<and> (\<exists>a0. cl_App C0 req = Some a0 \<and> app_UID a0 = app_UID app)"

definition operates :: "k8s \<Rightarrow> api \<Rightarrow> server \<Rightarrow> WebAppReconciler \<Rightarrow> cluster \<Rightarrow> bool" where
  "operates X A S r C \<longleftrightarrow>
     codecs_faithful X \<and> control_documented X \<and> finalizers_documented X \<and> api_documented X A \<and>
     serves X A S C \<and> reader r = LiveReader \<and> cluster_ok C"

lemma known_same_identity:
  "known_app C0 req b \<Longrightarrow> same_identity (wa_Meta a) (wa_Meta b) \<Longrightarrow> known_app C0 req a"
  by (auto simp: known_app_def same_identity_def ObjectKeyFromObject_def)

lemma finalizer_identity:
  assumes "finalizers_documented X"
  shows "known_app C0 req (app\<lparr>wa_Meta := fst (AddFinalizer X (wa_Meta app) f)\<rparr>) \<longleftrightarrow> known_app C0 req app"
    "known_app C0 req (app\<lparr>wa_Meta := RemoveFinalizer X (wa_Meta app) f\<rparr>) \<longleftrightarrow> known_app C0 req app"
  using assms by (auto simp: finalizers_documented_def known_app_def ObjectKeyFromObject_def)

lemma updated_known:
  assumes "finalizers_documented X" "update_ok X base pre (UpdateApp a reply)" "known_app C0 req base"
  shows "known_app C0 req a"
proof -
  have "a = base\<lparr>wa_Meta := fst (AddFinalizer X (wa_Meta base) Finalizer)\<rparr> \<or>
      a = base\<lparr>wa_Meta := RemoveFinalizer X (wa_Meta base) Finalizer\<rparr>"
    using assms(2) by (auto simp del: Finalizer_def split: if_splits)
  then show ?thesis
    using finalizer_identity [OF assms(1), of C0 req base Finalizer] assms(3)
    by (elim disjE) (simp_all del: Finalizer_def)
qed


text \<open>A WebApp a run has read or stored is the one of the request, while UIDs have been kept so far.\<close>

lemma seen_known:
  assumes op: "operates X A S r C0" and run: "run_trace X S r req = pre @ post"
    and uids: "\<And>q. prefix q pre \<Longrightarrow> same_uids C0 (after A C0 q)"
    and seen: "read_or_synced X app pre"
  shows "known_app C0 req app"
proof -
  have S: "serves X A S C0" and X: "finalizers_documented X" and A: "api_documented X A" and C0: "cluster_ok C0"
    using op by (simp_all add: operates_def)
  have ans: "answers S req q e" if "pre = q @ e # q'" for q e q'
    using run_answers [of S req X r] run that unfolding keeps_iff by (metis append.assoc append_Cons)
  have read: "known_app C0 req a" if read: "read_app a p" and p: "prefix p pre" for a p
  proof -
    obtain k where "GetApp k (Inr a) \<in> set p" using read by (auto simp: read_app_def)
    then obtain q q' where split: "pre = q @ GetApp k (Inr a) # q'"
      using p by (auto simp: prefix_def dest!: split_list)
    from ans [OF split] have get: "k = req" "srv_GetApp S q req = Inr a" by auto
    then have stored: "cl_App (after A C0 q) req = Some a" by (intro servesD(1) [OF S]) simp
    have "keeps (answers S req) q"
      using run_answers [of S req X r] run split by (simp add: keeps_append)
    then have "cluster_ok (after A C0 q)" by (rule run_cluster_ok [OF A S C0])
    with stored have "ObjectKeyFromObject a = req" unfolding cluster_ok_def by blast
    moreover have "same_uids C0 (after A C0 q)" by (rule uids) (simp add: split)
    ultimately show ?thesis using stored unfolding known_app_def same_uids_def by blast
  qed
  have upd: "known_app C0 req a'" if "UpdateApp a (Inr a') \<in> set pre" for a a'
  proof -
    from that obtain q q' where split: "pre = q @ UpdateApp a (Inr a') # q'" by (auto dest!: split_list)
    obtain base where base: "read_app base q" "update_ok X base q (UpdateApp a (Inr a'))"
      using run_updates [of X S r req q a "Inr a'" "q' @ post"] run split first_read_app
      by (metis append.assoc append_Cons)
    have "known_app C0 req base" by (rule read [OF base(1)]) (simp add: split)
    then have "known_app C0 req a" by (rule updated_known [OF X base(2)])
    moreover have "same_identity (wa_Meta a') (wa_Meta a)"
      using ans [OF split] servesD(8) [OF S, of q a a'] by simp
    ultimately show ?thesis by (rule known_same_identity)
  qed
  from seen show ?thesis
    unfolding read_or_synced_def synced_app_def
    using read upd finalizer_identity(1) [OF X, of C0 req _ Finalizer]
    by (auto simp del: Finalizer_def)
qed

lemma run_uids:
  assumes op: "operates X A S r C0" and run: "run_trace X S r req = pre @ post"
  shows "same_uids C0 (after A C0 pre)"
proof -
  have S: "serves X A S C0" and X: "finalizers_documented X" and A: "api_documented X A"
    using op by (simp_all add: operates_def)
  have "\<forall>q. prefix q pre \<longrightarrow> same_uids C0 (after A C0 q)"
    using run
  proof (induction pre arbitrary: post rule: rev_induct)
    case Nil
    then show ?case by (simp add: same_uids_def)
  next
    case (snoc e p)
    from snoc.prems have split: "run_trace X S r req = p @ e # post" by simp
    have IH: "\<And>q. prefix q p \<Longrightarrow> same_uids C0 (after A C0 q)"
      using snoc.IH [of "e # post"] split by blast
    have ans: "answers S req p e"
      using run_answers [of S req X r] split unfolding keeps_iff by blast
    have now: "same_uids C0 (after A C0 p)" by (rule IH) simp
    have "same_uids C0 (effect_on A e (after A C0 p))"
    proof (cases e)
      case (UpdateApp a reply)
      obtain base where base: "read_app base p" "update_ok X base p (UpdateApp a reply)"
        using run_updates split UpdateApp first_read_app by metis
      have "known_app C0 req base"
        by (rule seen_known [OF op split IH]) (simp_all add: read_or_synced_def base(1))
      then have known: "known_app C0 req a" by (rule updated_known [OF X base(2)])
      show ?thesis
      proof (cases reply)
        case (Inr a')
        then have "same_identity (wa_Meta a') (wa_Meta a)"
          using ans UpdateApp servesD(8) [OF S, of p a a'] by simp
        with known_same_identity [OF known] have "known_app C0 req a'" by blast
        with known now Inr UpdateApp show ?thesis
          by (auto simp: same_uids_def known_app_def api_documentedD(7) [OF A] split: if_splits)
      qed (use now UpdateApp in simp)
    next
      case (PatchStatus a b reply)
      have "app_UID (api_Patch A s a b) = app_UID s" for s
        using api_documentedD(8) [OF A, of s a b] by (simp add: same_identity_def)
      then have "same_uids C0 (put_app k (map_option (\<lambda>s. api_Patch A s a b) (cl_App (after A C0 p) k)) (after A C0 p))"
        for k
        using same_uidsD [OF now, of k] by (intro same_uids_put [OF now]) auto
      with now PatchStatus show ?thesis by (cases reply) simp_all
    qed (use now in \<open>simp_all add: same_uids_def effect_objects\<close>)
    then show ?case using IH by (auto simp: prefix_snoc)
  qed
  then show ?thesis by simp
qed

end
