(* ===== verification/Warp_Histories.thy ===== *)
theory Warp_Histories
  imports Warp_Cluster Warp_Lifecycle
begin

text \<open>
  Many runs: what the operator's runs, for whatever WebApps and in whatever order, leave alone while users
  edit WebApps and other clients work in the cluster. The steps of a history are whole runs and single
  changes by others, so nobody interferes within a run; what a run does then is covered by the theorems on
  all servers.
\<close>

section \<open>Objects of others\<close>

text \<open>
  An object is foreign to the WebApps of a cluster when the WebApp of its name, if there is one, does not
  control it.
\<close>

definition foreign :: "k8s \<Rightarrow> cluster \<Rightarrow> kind \<Rightarrow> object_key \<Rightarrow> object \<Rightarrow> bool" where
  "foreign X C kd k obj \<longleftrightarrow>
     cl_Obj C kd k = Some obj \<and>
     (\<forall>app. cl_App C k = Some app \<longrightarrow> \<not> IsControlledBy X (meta_of obj) (wa_Meta app))"

lemma controlled_by_uid:
  "control_documented X \<Longrightarrow> om_UID m = om_UID n \<Longrightarrow> IsControlledBy X obj m \<longleftrightarrow> IsControlledBy X obj n"
  by (simp add: control_documented_def cong: option.case_cong)

lemma foreign_uncontrolled:
  assumes "control_documented X" "foreign X C kd k obj" "known_app C k app"
  shows "\<not> IsControlledBy X (meta_of obj) (wa_Meta app)"
proof -
  obtain a0 where "cl_App C k = Some a0" "app_UID a0 = app_UID app"
    using assms(3) by (auto simp: known_app_def)
  with assms(1,2) show ?thesis
    using controlled_by_uid [of X "wa_Meta a0" "wa_Meta app"] by (auto simp: foreign_def)
qed

lemma run_app_known:
  assumes "operates X A S r C" "run_trace X S r req = pre @ post" "read_or_synced X app pre"
  shows "known_app C req app"
proof (rule seen_known [OF assms(1,2) _ assms(3)])
  fix q assume "prefix q pre"
  then obtain q' where "pre = q @ q'" by (auto simp: prefix_def)
  with assms(2) show "same_uids C (after A C q)"
    by (intro run_uids [OF assms(1), where post = "q' @ post"]) simp
qed

lemma run_place_ok:
  assumes "operates X A S r C" "run_trace X S r req = pre @ post"
  shows "cluster_ok (after A C pre)"
proof -
  have "keeps (answers S req) pre"
    using run_answers [of S req X r] assms(2) by (simp add: keeps_append)
  then show ?thesis
    using assms(1) by (auto simp: operates_def intro: run_cluster_ok)
qed

text \<open>A run overwrites an object only after reading it live, and deletes it only after reading it.\<close>

lemma run_before:
  assumes "run_trace X S r req = p @ post" "p = q @ e # q'"
  shows "answers S req q e"
  using run_answers [of S req X r] assms unfolding keeps_iff by (metis append.assoc append_Cons)

lemma first_read_served:
  assumes "run_trace X S r req = pre @ post" "first_read app pre"
  shows "srv_GetApp S [] req = Inr app"
proof -
  obtain k es where "pre = [] @ GetApp k (Inr app) # es" using assms(2) by (auto simp: first_read_def)
  from run_before [OF assms(1) this] show ?thesis by simp
qed

lemma foreign_not_applied:
  assumes op: "operates X A S r C" and theirs: "foreign X C kd k obj"
    and split: "run_trace X S r req = p @ ApplyObject cfg owner force reply0 # post"
    and here: "\<And>q. prefix q p \<Longrightarrow> cl_Obj (after A C q) kd k = Some obj"
  shows "\<not> (kind_of cfg = kd \<and> key_of cfg = k)"
proof
  assume at: "kind_of cfg = kd \<and> key_of cfg = k"
  have X: "codecs_faithful X" "control_documented X" and S: "serves X A S C" and reader: "reader r = LiveReader"
    using op by (simp_all add: operates_def)
  obtain app where app: "synced_app X app p" "apply_justified X LiveReader app p cfg"
    using run_applies [OF X(1) split] reader by metis
  have key: "ObjectKeyFromObject app = k"
    using desired_meta(2) app(2) at by (metis apply_justified_def key_of_def)
  have known: "known_app C k app"
    using run_app_known [OF op split] app(1) key by (metis known_app_def read_or_synced_def)
  obtain reply where get: "GetObject LiveReader kd k reply \<in> set p"
    and got: "case reply of Inl err \<Rightarrow> IsNotFound err | Inr o1 \<Rightarrow> IsControlledBy X (meta_of o1) (wa_Meta app)"
    using app(2) at key by (auto simp: apply_justified_def adopted_def simp del: desired.simps)
  then obtain q q' where q: "p = q @ GetObject LiveReader kd k reply # q'"
    by (auto dest: split_list)
  have reply: "reply = get_typed S q LiveReader kd k"
    using run_before [OF split q] by simp
  have at: "cl_Obj (after A C q) kd k = Some obj" by (rule here) (simp add: q)
  show False
  proof (cases reply)
    case (Inl err)
    with got have nf: "IsNotFound err" by simp
    from servesD(4) [OF S _ nf, of q kd k] reply at Inl show False by simp
  next
    case (Inr o1)
    with reply at servesD(3) [OF S, of q kd k o1] have "o1 = obj" by simp
    with got Inr foreign_uncontrolled [OF X(2) theirs known] show False by simp
  qed
qed

lemma foreign_not_deleted:
  assumes op: "operates X A S r C" and theirs: "foreign X C kd k obj"
    and split: "run_trace X S r req = p @ DeleteObject o1 reply0 # post"
    and here: "\<And>q. prefix q p \<Longrightarrow> cl_Obj (after A C q) kd k = Some obj"
  shows "\<not> (kind_of o1 = kd \<and> key_of o1 = k)"
proof
  assume at: "kind_of o1 = kd \<and> key_of o1 = k"
  have X: "control_documented X" and S: "serves X A S C" using op by (simp_all add: operates_def)
  obtain app where app: "read_or_synced X app p" "IsControlledBy X (meta_of o1) (wa_Meta app)"
    and last: "p \<noteq> []" "last p = GetObject CachedClient kd (ObjectKeyFromObject app) (Inr o1)"
    using run_deletes [OF split] at by auto
  define q where "q = butlast p"
  have q: "p = q @ [GetObject CachedClient kd (ObjectKeyFromObject app) (Inr o1)]"
    using last by (metis append_butlast_last_id q_def)
  have "get_typed S q CachedClient kd (ObjectKeyFromObject app) = Inr o1"
    using run_before [OF split q] by simp
  then have stored: "cl_Obj (after A C q) kd (ObjectKeyFromObject app) = Some o1"
    using servesD(5) [OF S] by blast
  have "run_trace X S r req =
      q @ GetObject CachedClient kd (ObjectKeyFromObject app) (Inr o1) # DeleteObject o1 reply0 # post"
    using split by (simp add: q)
  from run_place_ok [OF op this] stored have "key_of o1 = ObjectKeyFromObject app"
    unfolding cluster_ok_def by blast
  with at stored here [of q] have "o1 = obj" "ObjectKeyFromObject app = k" by (simp_all add: q)
  moreover have "known_app C req app" by (rule run_app_known [OF op split app(1)])
  ultimately show False
    using foreign_uncontrolled [OF X theirs] app(2) by (metis known_app_def)
qed

text \<open>A place no successful apply or delete of the run hits stays as it is.\<close>

lemma run_keeps_place:
  assumes run: "run_trace X S r req = pre @ post" and start: "cl_Obj C kd k = Some obj"
    and quiet: "\<And>p e post. run_trace X S r req = p @ e # post \<Longrightarrow>
      (\<And>q. prefix q p \<Longrightarrow> cl_Obj (after A C q) kd k = Some obj) \<Longrightarrow>
      (\<forall>cfg owner force. e = ApplyObject cfg owner force None \<longrightarrow> \<not> (kind_of cfg = kd \<and> key_of cfg = k)) \<and>
      (\<forall>o1. e = DeleteObject o1 None \<longrightarrow> \<not> (kind_of o1 = kd \<and> key_of o1 = k))"
  shows "cl_Obj (after A C pre) kd k = Some obj"
proof -
  have "\<forall>q. prefix q pre \<longrightarrow> cl_Obj (after A C q) kd k = Some obj"
    using run
  proof (induction pre arbitrary: post rule: rev_induct)
    case Nil
    then show ?case using start by simp
  next
    case (snoc e p)
    from snoc.prems have split: "run_trace X S r req = p @ e # post" by simp
    have here: "cl_Obj (after A C q) kd k = Some obj" if "prefix q p" for q
      using snoc.IH [of "e # post"] split that by blast
    have now: "cl_Obj (after A C p) kd k = Some obj" by (rule here) simp
    have "cl_Obj (effect_on A e (after A C p)) kd k = Some obj"
      using now quiet [OF split here]
      by (cases "(A, e, after A C p)" rule: effect_on.cases) (auto simp: effect_objects)
    then show ?case using here by (auto simp: prefix_snoc)
  qed
  then show ?thesis by simp
qed

lemma run_foreign:
  assumes op: "operates X A S r C" and run: "run_trace X S r req = pre @ post"
    and theirs: "foreign X C kd k obj"
  shows "cl_Obj (after A C pre) kd k = Some obj"
proof (rule run_keeps_place [OF run])
  show "cl_Obj C kd k = Some obj" using theirs by (simp add: foreign_def)
  fix p e post
  assume split: "run_trace X S r req = p @ e # post"
    and here: "\<And>q. prefix q p \<Longrightarrow> cl_Obj (after A C q) kd k = Some obj"
  show "(\<forall>cfg owner force. e = ApplyObject cfg owner force None \<longrightarrow> \<not> (kind_of cfg = kd \<and> key_of cfg = k)) \<and>
      (\<forall>o1. e = DeleteObject o1 None \<longrightarrow> \<not> (kind_of o1 = kd \<and> key_of o1 = k))"
    using foreign_not_applied [OF op theirs _ here] foreign_not_deleted [OF op theirs _ here] split by metis
qed

section \<open>Histories\<close>

text \<open>
  A user may write a WebApp: an edit keeps the UID, a new WebApp gets one that no object names as its
  controller. Any object other than the watched one may change in any way.
\<close>

inductive history :: "k8s \<Rightarrow> api \<Rightarrow> kind \<Rightarrow> object_key \<Rightarrow> cluster \<Rightarrow> cluster \<Rightarrow> bool"
  for X :: k8s and A :: api and kd :: kind and k :: object_key and C0 :: cluster where
  history_start: "history X A kd k C0 C0"
| history_run: "history X A kd k C0 C \<Longrightarrow> serves X A S C \<Longrightarrow>
    history X A kd k C0 (after A C (run_trace X S manager_reconciler req))"
| history_edit: "history X A kd k C0 C \<Longrightarrow> cl_App C (ObjectKeyFromObject app) = Some old \<Longrightarrow>
    app_UID app = app_UID old \<Longrightarrow> history X A kd k C0 (put_app (ObjectKeyFromObject app) (Some app) C)"
| history_create: "history X A kd k C0 C \<Longrightarrow>
    (\<And>kd' k' obj. cl_Obj C kd' k' = Some obj \<Longrightarrow> \<not> IsControlledBy X (meta_of obj) (wa_Meta app)) \<Longrightarrow>
    history X A kd k C0 (put_app (ObjectKeyFromObject app) (Some app) C)"
| history_drop: "history X A kd k C0 C \<Longrightarrow> history X A kd k C0 (put_app k' None C)"
| history_other: "history X A kd k C0 C \<Longrightarrow> (kd', k') \<noteq> (kd, k) \<Longrightarrow>
    (\<And>obj. x = Some obj \<Longrightarrow> kind_of obj = kd' \<and> key_of obj = k') \<Longrightarrow>
    history X A kd k C0 (put_obj kd' k' x C)"

lemma cluster_ok_put:
  assumes "cluster_ok C"
  shows "(\<And>obj. x = Some obj \<Longrightarrow> kind_of obj = kd \<and> key_of obj = k) \<Longrightarrow> cluster_ok (put_obj kd k x C)"
    and "(\<And>a. y = Some a \<Longrightarrow> ObjectKeyFromObject a = k) \<Longrightarrow> cluster_ok (put_app k y C)"
  using assms by (auto simp: cluster_ok_def)

definition documented :: "k8s \<Rightarrow> api \<Rightarrow> bool" where
  "documented X A \<longleftrightarrow>
     codecs_faithful X \<and> control_documented X \<and> finalizers_documented X \<and> api_documented X A"

lemma manager_operates:
  "documented X A \<Longrightarrow> serves X A S C \<Longrightarrow> cluster_ok C \<Longrightarrow> operates X A S manager_reconciler C"
  by (simp add: operates_def documented_def)

lemma history_invariant:
  assumes "history X A kd k C0 C" "documented X A" "cluster_ok C0" "foreign X C0 kd k obj"
  shows "cluster_ok C \<and> foreign X C kd k obj"
  using assms
proof (induction rule: history.induct)
  case history_start
  then show ?case by simp
next
  case (history_run C S req)
  then have ok: "cluster_ok C" and theirs: "foreign X C kd k obj" and op: "operates X A S manager_reconciler C"
    by (simp_all add: manager_operates)
  let ?C' = "after A C (run_trace X S manager_reconciler req)"
  have "run_trace X S manager_reconciler req = run_trace X S manager_reconciler req @ []" by simp
  note whole = run_place_ok [OF op this] run_foreign [OF op this theirs] run_uids [OF op this]
  have "\<not> IsControlledBy X (meta_of obj) (wa_Meta app)" if "cl_App ?C' k = Some app" for app
  proof -
    have "ObjectKeyFromObject app = k" using whole(1) that unfolding cluster_ok_def by blast
    with same_uidsD [OF whole(3) that] have "known_app C k app" by (simp add: known_app_def)
    then show ?thesis
      using foreign_uncontrolled [OF _ theirs] history_run.prems(1) by (simp add: documented_def)
  qed
  with whole(1,2) show ?case by (simp add: foreign_def)
next
  case (history_edit C app old)
  then have ok: "cluster_ok C" and theirs: "foreign X C kd k obj" and doc: "control_documented X"
    by (simp_all add: documented_def)
  have "\<not> IsControlledBy X (meta_of obj) (wa_Meta app)" if "ObjectKeyFromObject app = k"
    using controlled_by_uid [OF doc history_edit.hyps(3)] theirs history_edit.hyps(2) that by (simp add: foreign_def)
  with theirs have "foreign X (put_app (ObjectKeyFromObject app) (Some app) C) kd k obj"
    by (auto simp: foreign_def)
  with cluster_ok_put(2) [OF ok] show ?case by blast
next
  case (history_create C app)
  then have ok: "cluster_ok C" and theirs: "foreign X C kd k obj" by simp_all
  have "\<not> IsControlledBy X (meta_of obj) (wa_Meta app)"
    using theirs by (intro history_create.hyps(2) [of kd k]) (simp add: foreign_def)
  with theirs have "foreign X (put_app (ObjectKeyFromObject app) (Some app) C) kd k obj"
    by (auto simp: foreign_def)
  with cluster_ok_put(2) [OF ok] show ?case by blast
next
  case (history_drop C k')
  then have ok: "cluster_ok C" and theirs: "foreign X C kd k obj" by simp_all
  from theirs have "foreign X (put_app k' None C) kd k obj" by (auto simp: foreign_def)
  with cluster_ok_put(2) [OF ok, of None] show ?case by simp
next
  case (history_other C kd' k' x)
  then have ok: "cluster_ok C" and theirs: "foreign X C kd k obj" by simp_all
  from theirs history_other.hyps(2) have "foreign X (put_obj kd' k' x C) kd k obj" by (auto simp: foreign_def)
  moreover have "cluster_ok (put_obj kd' k' x C)" by (rule cluster_ok_put(1) [OF ok]) (rule history_other.hyps(3))
  ultimately show ?case by simp
qed

end
