(* ===== verification/Warp_Convergence.thy ===== *)
theory Warp_Convergence
  imports Warp_Histories Warp_Status
begin

text \<open>
  What one undisturbed run makes of the cluster. On a server that serves the cluster and fails no call, a
  run of the reconciler computes the function \<open>converged\<close>: at the WebApp's name each wanted object is the
  apply of its configuration to what was there, each unwanted one is deleted when the operator sees and
  owns it, and nothing else changes. A second run changes the held replica count at most, and a third
  changes no object any more.
\<close>

section \<open>The state a run aims at\<close>

text \<open>What the cached client sees of a place.\<close>

definition visible :: "k8s \<Rightarrow> cluster \<Rightarrow> kind \<Rightarrow> object_key \<Rightarrow> object option" where
  "visible X C kd k =
     (case cl_Obj C kd k of None \<Rightarrow> None | Some obj \<Rightarrow> if in_cache X obj then Some obj else None)"

definition hold_of :: "k8s \<Rightarrow> cluster \<Rightarrow> WebApp \<Rightarrow> int32 option" where
  "hold_of X C app =
     (case visible X C KDeployment (ObjectKeyFromObject app) of
        Some (ODeployment d) \<Rightarrow> if ReplicasOwnedByOther X d then None else de_Replicas (dp_Spec d)
      | _ \<Rightarrow> None)"

fun config :: "k8s \<Rightarrow> cluster \<Rightarrow> WebApp \<Rightarrow> kind \<Rightarrow> object option" where
  "config X C app KDeployment =
     Some (ODeployment (if WantsHPA app then with_replicas (hold_of X C app) (Deployment app) else Deployment app))"
| "config X C app KService = Some (OService (Service app))"
| "config X C app KIngress = (if WantsIngress app then ingress_object app else None)"
| "config X C app KHPA = (if WantsHPA app then hpa_object app else None)"

definition withdrawn :: "k8s \<Rightarrow> api \<Rightarrow> cluster \<Rightarrow> WebApp \<Rightarrow> kind \<Rightarrow> object option" where
  "withdrawn X A C app kd =
     (case visible X C kd (ObjectKeyFromObject app) of
        None \<Rightarrow> cl_Obj C kd (ObjectKeyFromObject app)
      | Some obj \<Rightarrow> if IsControlledBy X (meta_of obj) (wa_Meta app) then api_Delete A obj else Some obj)"

definition target :: "k8s \<Rightarrow> api \<Rightarrow> cluster \<Rightarrow> WebApp \<Rightarrow> kind \<Rightarrow> object option" where
  "target X A C app kd =
     (case config X C app kd of
        Some cfg \<Rightarrow> Some (api_Apply A (cl_Obj C kd (ObjectKeyFromObject app)) cfg)
      | None \<Rightarrow> withdrawn X A C app kd)"

definition settle :: "k8s \<Rightarrow> api \<Rightarrow> WebApp \<Rightarrow> kind \<Rightarrow> cluster \<Rightarrow> cluster" where
  "settle X A app kd C = put_obj kd (ObjectKeyFromObject app) (target X A C app kd) C"

definition converged :: "k8s \<Rightarrow> api \<Rightarrow> WebApp \<Rightarrow> cluster \<Rightarrow> cluster" where
  "converged X A app C =
     settle X A app KHPA (settle X A app KIngress (settle X A app KService (settle X A app KDeployment C)))"

text \<open>An object to be applied may be taken: there is none yet, or the WebApp controls it.\<close>

definition claimed :: "k8s \<Rightarrow> cluster \<Rightarrow> WebApp \<Rightarrow> kind \<Rightarrow> bool" where
  "claimed X C app kd \<longleftrightarrow>
     (\<forall>obj. cl_Obj C kd (ObjectKeyFromObject app) = Some obj \<longrightarrow> IsControlledBy X (meta_of obj) (wa_Meta app))"

definition faultless :: "server \<Rightarrow> bool" where
  "faultless S \<longleftrightarrow>
     (\<forall>tr k e. srv_GetApp S tr k = Inl e \<longrightarrow> IsNotFound e) \<and>
     (\<forall>tr src kd k e. get_typed S tr src kd k = Inl e \<longrightarrow> IsNotFound e) \<and>
     writes_fine S \<and> (\<forall>tr a b. srv_Patch S tr a b = None) \<and> (\<forall>tr a. \<exists>a'. srv_Update S tr a = Inr a')"

lemma faultlessD:
  assumes "faultless S"
  shows "srv_GetApp S tr k = Inl e \<Longrightarrow> IsNotFound e" "get_typed S tr src kd k = Inl e \<Longrightarrow> IsNotFound e"
    "writes_fine S" "srv_Patch S tr a b = None" "\<exists>a'. srv_Update S tr a = Inr a'"
  using assms unfolding faultless_def by blast+

text \<open>What is configured for a kind is built like the objects it comes from.\<close>

interpretation configured: object_builder "\<lambda>app. config X C app kd" kd for X C kd
proof
  fix app obj
  assume cfg: "config X C app kd = Some obj"
  have "kind_of obj = kd \<and> om_Name (meta_of obj) = app_Name app \<and> om_Namespace (meta_of obj) = app_Namespace app \<and>
    om_Labels (meta_of obj) = Labels app \<and> om_OwnerReferences (meta_of obj) = OwnerRefs app"
  proof (cases kd)
    case KDeployment
    with cfg show ?thesis by (auto simp: with_replicas_def)
  next
    case KService
    with cfg have "Some obj = Some (OService (Service app))" by simp
    then show ?thesis
      using service_builder.build_kind service_builder.build_name service_builder.build_namespace
        service_builder.build_labels service_builder.build_owners KService by simp
  next
    case KIngress
    with cfg have "ingress_object app = Some obj" by (simp split: if_splits)
    then show ?thesis
      using ingress_builder.build_kind ingress_builder.build_name ingress_builder.build_namespace
        ingress_builder.build_labels ingress_builder.build_owners KIngress by blast
  next
    case KHPA
    with cfg have "hpa_object app = Some obj" by (simp split: if_splits)
    then show ?thesis
      using hpa_builder.build_kind hpa_builder.build_name hpa_builder.build_namespace
        hpa_builder.build_labels hpa_builder.build_owners KHPA by blast
  qed
  then show "kind_of obj = kd" "om_Name (meta_of obj) = app_Name app" "om_Namespace (meta_of obj) = app_Namespace app"
    "om_Labels (meta_of obj) = Labels app" "om_OwnerReferences (meta_of obj) = OwnerRefs app" by simp_all
qed

lemma config_key: "config X C app kd = Some cfg \<Longrightarrow> key_of cfg = ObjectKeyFromObject app"
  using configured.built_key [of X C app kd cfg] by (simp add: key_of_def ObjectKeyFromObject_def)

section \<open>What the builders look at\<close>

text \<open>Two WebApps with the same name, namespace, UID and spec stand for the same objects.\<close>

definition same_request :: "WebApp \<Rightarrow> WebApp \<Rightarrow> bool" where
  "same_request a b \<longleftrightarrow>
     app_Name a = app_Name b \<and> app_Namespace a = app_Namespace b \<and> app_UID a = app_UID b \<and> wa_Spec a = wa_Spec b"

lemma same_request_built:
  assumes "same_request a b"
  shows "ObjectKeyFromObject a = ObjectKeyFromObject b" "WantsHPA a = WantsHPA b" "WantsIngress a = WantsIngress b"
    "Deployment a = Deployment b" "Service a = Service b" "Ingress a = Ingress b" "HPA a = HPA b"
proof -
  note same = assms [unfolded same_request_def]
  show key: "ObjectKeyFromObject a = ObjectKeyFromObject b" "WantsHPA a = WantsHPA b" "WantsIngress a = WantsIngress b"
    using same by (simp_all add: ObjectKeyFromObject_def WantsHPA_def WantsIngress_def)
  have meta: "Labels a = Labels b" "SelectorLabels a = SelectorLabels b" "OwnerRefs a = OwnerRefs b"
    using same by (simp_all add: Labels_def SelectorLabels_def OwnerRefs_def)
  have ports: "declared_ports a = declared_ports b" using same by (simp add: declared_ports_def)
  then have all: "allPorts a = allPorts b" by (simp add: allPorts_def)
  then have backend: "backendPort a = backendPort b" using same by (simp add: backendPort_def)
  show "Service a = Service b"
    using same meta all by (simp add: Service_def servicePorts_def)
  show "Ingress a = Ingress b"
    using same meta backend by (simp add: Ingress_def split: sum.split)
  show "HPA a = HPA b"
    using same meta by (simp add: HPA_def Let_def split: option.split)
  have pod: "podLabels a = podLabels b" "strategy a = strategy b" "automountToken a = automountToken b"
    "podSecurityContext a = podSecurityContext b" "DesiredReplicas a = DesiredReplicas b"
    "containers a = containers b" "scratchVolumes a = scratchVolumes b"
    using same meta
    by (simp_all add: podLabels_def strategy_def automountToken_def podSecurityContext_def DesiredReplicas_def
        containers_def scratchVolumes_def split: option.split)
  show "Deployment a = Deployment b"
    using same meta pod by (simp add: Deployment_def)
qed

lemma same_request_config:
  assumes "same_request a b"
  shows "config X C a kd = config X C b kd" "hold_of X C a = hold_of X C b"
proof -
  show hold: "hold_of X C a = hold_of X C b"
    by (simp add: hold_of_def same_request_built(1) [OF assms])
  show "config X C a kd = config X C b kd"
    by (cases kd) (simp_all add: same_request_built [OF assms] hold ingress_object_def hpa_object_def)
qed

lemma same_request_target:
  assumes "same_request a b" "control_documented X"
  shows "target X A C a kd = target X A C b kd" "claimed X C a kd = claimed X C b kd"
proof -
  have uid: "om_UID (wa_Meta a) = om_UID (wa_Meta b)" using assms(1) by (simp add: same_request_def)
  note control = controlled_by_uid [OF assms(2) uid]
  have "withdrawn X A C a kd = withdrawn X A C b kd"
    by (simp add: withdrawn_def same_request_built(1) [OF assms(1)] control split: option.split)
  then show "target X A C a kd = target X A C b kd"
    by (simp add: target_def same_request_built(1) [OF assms(1)] same_request_config(1) [OF assms(1)]
        split: option.split)
  show "claimed X C a kd = claimed X C b kd"
    by (simp add: claimed_def same_request_built(1) [OF assms(1)] control)
qed

lemma same_request_gates:
  assumes "same_request a b"
  shows "cap_fine X S src a = cap_fine X S src b" "buildable a = buildable b"
proof -
  have "replicas_comply a p = replicas_comply b p" for p
    using assms by (simp add: replicas_comply_def scale_field_def same_request_def split: option.split)
  then show "cap_fine X S src a = cap_fine X S src b"
    using assms by (simp add: cap_fine_def same_request_def)
  show "buildable a = buildable b" by (simp add: buildable_def same_request_built [OF assms])
qed

section \<open>Operations as functions on the cluster\<close>

text \<open>Run when the cluster is in state \<open>C\<close>, the operation returns \<open>x\<close> and leaves the cluster in state \<open>C'\<close>.\<close>

definition takes :: "api \<Rightarrow> cluster \<Rightarrow> 'a run \<Rightarrow> cluster \<Rightarrow> 'a \<Rightarrow> cluster \<Rightarrow> bool" where
  "takes A C0 m C x C' \<longleftrightarrow>
     (\<forall>tr. after A C0 tr = C \<longrightarrow> fst (run_state m tr) = x \<and> after A C0 (snd (run_state m tr)) = C')"

lemma takesE:
  assumes "takes A C0 m C x C'" "after A C0 tr = C"
  obtains tr' where "run_state m tr = (x, tr')" "after A C0 tr' = C'"
  using assms unfolding takes_def by (metis prod.collapse)

lemma takes_return [simp]: "takes A C0 (return x) C x C"
  by (simp add: takes_def)

lemma takes_bind:
  "takes A C0 m C x C1 \<Longrightarrow> takes A C0 (f x) C1 y C2 \<Longrightarrow> takes A C0 (State_Monad.bind m f) C y C2"
  unfolding takes_def by (simp add: split_beta)

lemma takes_harmless:
  assumes "emits m harmless" "\<And>tr. after A C0 tr = C \<Longrightarrow> fst (run_state m tr) = x"
  shows "takes A C0 m C x C"
  unfolding takes_def
proof (intro allI impI)
  fix tr assume tr: "after A C0 tr = C"
  obtain new where new: "snd (run_state m tr) = tr @ new" "\<forall>e \<in> set new. harmless e"
    using assms(1) unfolding emits_def by blast
  with tr assms(2) show "fst (run_state m tr) = x \<and> after A C0 (snd (run_state m tr)) = C"
    by (simp add: after_harmless)
qed

lemma put_obj_same [simp]: "put_obj kd k (cl_Obj C kd k) C = C"
  by (simp add: put_obj_def)

lemma served_read:
  assumes "serves X A S C0" "faultless S" "after A C0 tr = C"
  shows "case get_typed S tr LiveReader kd k of
      Inl e \<Rightarrow> IsNotFound e \<and> cl_Obj C kd k = None | Inr obj \<Rightarrow> cl_Obj C kd k = Some obj"
    and "case get_typed S tr CachedClient kd k of
      Inl e \<Rightarrow> IsNotFound e \<and> visible X C kd k = None | Inr obj \<Rightarrow> visible X C kd k = Some obj"
proof -
  show "case get_typed S tr LiveReader kd k of
      Inl e \<Rightarrow> IsNotFound e \<and> cl_Obj C kd k = None | Inr obj \<Rightarrow> cl_Obj C kd k = Some obj"
    using servesD(3,4) [OF assms(1), of tr kd k] faultlessD(2) [OF assms(2), of tr LiveReader kd k] assms(3)
    by (cases "get_typed S tr LiveReader kd k") simp_all
  show "case get_typed S tr CachedClient kd k of
      Inl e \<Rightarrow> IsNotFound e \<and> visible X C kd k = None | Inr obj \<Rightarrow> visible X C kd k = Some obj"
    using servesD(5,6) [OF assms(1), of tr kd k] faultlessD(2) [OF assms(2), of tr CachedClient kd k] assms(3)
    by (cases "get_typed S tr CachedClient kd k") (auto simp: visible_def split: option.split)
qed

lemma takes_adopt:
  assumes "serves X A S C0" "faultless S" "reader r = LiveReader" "claimed X C app kd"
  shows "takes A C0 (assertAdoptable X S r app kd t) C None C"
proof (rule takes_harmless [OF emits_assertAdoptable])
  fix tr assume "after A C0 tr = C"
  from served_read(1) [OF assms(1,2) this, of kd "ObjectKeyFromObject app"] assms(3,4)
  show "fst (run_state (assertAdoptable X S r app kd t) tr) = None"
    by (auto simp: assertAdoptable_def client_defs claimed_def split: sum.splits)
qed

lemma takes_apply:
  assumes "faultless S" "kind_of cfg = kd" "key_of cfg = k"
  shows "takes A C0 (apply_config S cfg) C None (put_obj kd k (Some (api_Apply A (cl_Obj C kd k) cfg)) C)"
  using apply_config_fine [OF faultlessD(3) [OF assms(1)], of cfg] assms(2,3) by (simp add: takes_def)

lemma takes_delete:
  assumes S: "serves X A S C0" "faultless S" and ok: "cluster_ok C"
  shows "takes A C0 (deleteOwned X S app kd) C None (put_obj kd (ObjectKeyFromObject app) (withdrawn X A C app kd) C)"
  unfolding takes_def
proof (intro allI impI)
  fix tr assume tr: "after A C0 tr = C"
  let ?k = "ObjectKeyFromObject app"
  show "fst (run_state (deleteOwned X S app kd) tr) = None \<and>
      after A C0 (snd (run_state (deleteOwned X S app kd) tr)) = put_obj kd ?k (withdrawn X A C app kd) C"
  proof (cases "get_typed S tr CachedClient kd ?k")
    case (Inl e)
    with served_read(2) [OF S tr, of kd ?k] show ?thesis
      by (simp add: deleteOwned_def client_defs withdrawn_def tr)
  next
    case (Inr obj)
    with served_read(2) [OF S tr, of kd ?k] have vis: "visible X C kd ?k = Some obj" by simp
    then have stored: "cl_Obj C kd ?k = Some obj" by (simp add: visible_def split: option.splits if_splits)
    with ok have at: "kind_of obj = kd" "key_of obj = ?k" unfolding cluster_ok_def by blast+
    have "srv_Delete S tr' obj = None" for tr'
      using faultlessD(3) [OF S(2)] by (simp add: writes_fine_def)
    moreover have "put_obj kd ?k (Some obj) C = C" using stored put_obj_same by metis
    ultimately show ?thesis
      using Inr vis at stored by (simp add: deleteOwned_def client_defs withdrawn_def tr)
  qed
qed

section \<open>One run\<close>

lemma settle_simps:
  "cl_Obj (settle X A app kd C) kd' k =
     (if kd' = kd \<and> k = ObjectKeyFromObject app then target X A C app kd else cl_Obj C kd' k)"
  "cl_App (settle X A app kd C) = cl_App C"
  by (simp_all add: settle_def)

lemma settle_ok:
  assumes "api_documented X A" "cluster_ok C"
  shows "cluster_ok (settle X A app kd C)"
  unfolding settle_def
proof (rule cluster_ok_put(1) [OF assms(2)])
  fix obj assume t: "target X A C app kd = Some obj"
  have stored: "kind_of o1 = kd \<and> key_of o1 = ObjectKeyFromObject app"
    if "cl_Obj C kd (ObjectKeyFromObject app) = Some o1" for o1
    using assms(2) that unfolding cluster_ok_def by blast
  show "kind_of obj = kd \<and> key_of obj = ObjectKeyFromObject app"
  proof (cases "config X C app kd")
    case (Some cfg)
    with t have "obj = api_Apply A (cl_Obj C kd (ObjectKeyFromObject app)) cfg" by (simp add: target_def)
    then show ?thesis
      using api_documentedD(1,2) [OF assms(1)] configured.build_kind [OF Some] config_key [OF Some] by simp
  next
    case None
    with t have "cl_Obj C kd (ObjectKeyFromObject app) = Some obj \<or>
        (\<exists>o1. cl_Obj C kd (ObjectKeyFromObject app) = Some o1 \<and> api_Delete A o1 = Some obj)"
      by (auto simp: target_def withdrawn_def visible_def split: option.splits if_splits)
    with stored api_documentedD(6) [OF assms(1)] show ?thesis by metis
  qed
qed

text \<open>The steps of the four kinds do not disturb each other.\<close>

lemma settle_frame:
  assumes "kd' \<noteq> kd"
  shows "cl_Obj (settle X A app kd C) kd' = cl_Obj C kd'"
  using assms by (auto simp: settle_simps)

lemma target_frame:
  assumes "cl_Obj C' kd = cl_Obj C kd"
  shows "target X A C' app kd = target X A C app kd"
proof -
  have "config X C' app kd = config X C app kd"
    using assms by (cases kd) (auto simp: hold_of_def visible_def)
  then show ?thesis using assms by (simp add: target_def withdrawn_def visible_def split: option.split)
qed

lemma converged_simps:
  "cl_Obj (converged X A app C) kd k =
     (if k = ObjectKeyFromObject app then target X A C app kd else cl_Obj C kd k)"
  "cl_App (converged X A app C) = cl_App C"
proof -
  let ?C1 = "settle X A app KDeployment C"
  let ?C2 = "settle X A app KService ?C1"
  let ?C3 = "settle X A app KIngress ?C2"
  have "target X A ?C1 app KService = target X A C app KService"
    "target X A ?C2 app KIngress = target X A C app KIngress"
    "target X A ?C3 app KHPA = target X A C app KHPA"
    by (rule target_frame; simp add: settle_frame)+
  then show "cl_Obj (converged X A app C) kd k =
     (if k = ObjectKeyFromObject app then target X A C app kd else cl_Obj C kd k)"
    by (cases kd) (simp_all add: converged_def settle_simps)
  show "cl_App (converged X A app C) = cl_App C"
    by (simp add: converged_def settle_simps)
qed

lemma takes_hold:
  assumes "serves X A S C0" "faultless S"
  shows "takes A C0 (replicaHold X S app) C (Inr (hold_of X C app)) C"
proof (rule takes_harmless [OF emits_replicaHold])
  fix tr assume "after A C0 tr = C"
  from served_read(2) [OF assms this, of KDeployment "ObjectKeyFromObject app"]
  show "fst (run_state (replicaHold X S app) tr) = Inr (hold_of X C app)"
    by (auto simp: replicaHold_def client_defs hold_of_def map_sum_def split: sum.splits)
qed

lemma takes_prepare:
  assumes X: "codecs_faithful X" and S: "serves X A S C0" "faultless S" and r: "reader r = LiveReader"
    and cap: "cap_fine X S (reader r) app" and ports: "sv_Ports (Service app) \<noteq> []"
    and claim: "claimed X C app KDeployment" "claimed X C app KService"
  shows "\<exists>d s. takes A C0 (sync_prepare X S r app) C (Inr (d, s)) C \<and>
    config X C app KDeployment = Some (ODeployment d) \<and> config X C app KService = Some (OService s)"
proof -
  have codecs: "deployment_codec X d = Inr d" "service_codec X s = Inr s" for d s
    using X by (simp_all add: codecs_faithful_def)
  let ?d = "if WantsHPA app then with_replicas (hold_of X C app) (Deployment app) else Deployment app"
  have enf: "takes A C0 (enforceScalePolicy X S r app) C None C"
    by (rule takes_harmless [OF emits_enforceScalePolicy]) (rule enforceScalePolicy_fine [OF cap])
  have rep: "takes A C0 (sync_replicas X S app (Deployment app)) C (Inr ?d) C"
    using takes_bind [OF takes_hold [OF S, of app C], where f = "\<lambda>hold. return (case hold of
        Inl err \<Rightarrow> Inl err
      | Inr n \<Rightarrow> Inr ((Deployment app)\<lparr>dp_Spec := (dp_Spec (Deployment app))\<lparr>de_Replicas := n\<rparr>\<rparr>))"]
    by (simp add: sync_replicas_def with_replicas_def)
  have "takes A C0 (sync_prepare X S r app) C (Inr (?d, Service app)) C"
    unfolding sync_prepare_def codecs sum.case
    apply (rule takes_bind [OF enf])
    apply (simp only: option.case if_not_P [OF ports])
    apply (rule takes_bind [OF rep])
    apply (simp only: sum.case)
    apply (rule takes_bind [OF takes_adopt [OF S r claim(1)]])
    apply (simp only: option.case)
    apply (rule takes_bind [OF takes_adopt [OF S r claim(2)]])
    apply simp
    done
  then show ?thesis by auto
qed

lemma takes_Ingress:
  assumes X: "codecs_faithful X" and S: "serves X A S C0" "faultless S" and r: "reader r = LiveReader"
    and ok: "cluster_ok C" and b: "buildable app"
    and claim: "config X C app KIngress \<noteq> None \<Longrightarrow> claimed X C app KIngress"
  shows "takes A C0 (syncIngress X S r app) C None (settle X A app KIngress C)"
proof (cases "WantsIngress app")
  case False
  with takes_delete [OF S ok, of app KIngress] show ?thesis
    by (simp add: syncIngress_def settle_def target_def)
next
  case True
  then obtain i where i: "Ingress app = Inr i" using b by (auto simp: buildable_def)
  have codec: "toApplyConfig X (OIngress i) = Inr (OIngress i)" using X by (simp add: codecs_faithful_def)
  have cfg: "config X C app KIngress = Some (OIngress i)" using True i by (simp add: ingress_object_def)
  have app: "takes A C0 (apply_config S (OIngress i)) C None (settle X A app KIngress C)"
    using takes_apply [OF S(2) configured.build_kind [OF cfg] config_key [OF cfg]]
    by (simp add: settle_def target_def cfg del: config.simps)
  show ?thesis
    unfolding syncIngress_def i sum.case codec if_not_P [OF True [THEN not_not [THEN iffD2]]]
    apply (rule takes_bind [OF takes_adopt [OF S r claim]], simp add: cfg del: config.simps)
    apply (simp only: option.case)
    apply (rule takes_bind [OF app])
    apply simp
    done
qed

lemma takes_HPA:
  assumes X: "codecs_faithful X" and S: "serves X A S C0" "faultless S" and r: "reader r = LiveReader"
    and ok: "cluster_ok C" and b: "buildable app"
    and claim: "config X C app KHPA \<noteq> None \<Longrightarrow> claimed X C app KHPA"
  shows "takes A C0 (syncHPA X S r app) C None (settle X A app KHPA C)"
proof (cases "WantsHPA app")
  case False
  with takes_delete [OF S ok, of app KHPA] show ?thesis
    by (simp add: syncHPA_def settle_def target_def)
next
  case True
  then obtain h where h: "HPA app = HPA_ok h" using b by (auto simp: buildable_def)
  have codec: "toApplyConfig X (OHPA h) = Inr (OHPA h)" using X by (simp add: codecs_faithful_def)
  have cfg: "config X C app KHPA = Some (OHPA h)" using True h by (simp add: hpa_object_def)
  have app: "takes A C0 (apply_config S (OHPA h)) C None (settle X A app KHPA C)"
    using takes_apply [OF S(2) configured.build_kind [OF cfg] config_key [OF cfg]]
    by (simp add: settle_def target_def cfg del: config.simps)
  show ?thesis
    unfolding syncHPA_def h hpa_result.case sum.case codec if_not_P [OF True [THEN not_not [THEN iffD2]]]
    apply (rule takes_bind [OF takes_adopt [OF S r claim]], simp add: cfg del: config.simps)
    apply (simp only: option.case)
    apply (rule takes_bind [OF app])
    apply simp
    done
qed

text \<open>Whether a place may be taken and whether a kind is wanted do not change while other kinds settle.\<close>

lemma claim_frame:
  assumes "cl_Obj C' kd = cl_Obj C kd"
  shows "claimed X C' app kd = claimed X C app kd"
    "kd \<noteq> KDeployment \<Longrightarrow> config X C' app kd = config X C app kd"
  using assms by (simp_all add: claimed_def) (cases kd, simp_all)

lemma objects_only:
  assumes "cl_Obj C' = cl_Obj C"
  shows "config X C' app kd = config X C app kd" "claimed X C' app kd = claimed X C app kd"
    "target X A C' app kd = target X A C app kd"
proof -
  have "visible X C' KDeployment k = visible X C KDeployment k" for k
    by (simp only: visible_def assms)
  then show "config X C' app kd = config X C app kd" by (cases kd) (simp_all add: hold_of_def)
  show "claimed X C' app kd = claimed X C app kd" by (simp only: claimed_def assms)
  show "target X A C' app kd = target X A C app kd" by (rule target_frame) (simp only: assms)
qed

lemma takes_sync:
  assumes X: "codecs_faithful X" "api_documented X A" and S: "serves X A S C0" "faultless S"
    and r: "reader r = LiveReader" and cap: "cap_fine X S (reader r) app" and ok: "cluster_ok C"
    and b: "buildable app"
    and claim: "\<And>kd. config X C app kd \<noteq> None \<Longrightarrow> claimed X C app kd"
  shows "takes A C0 (sync X S r app) C None (converged X A app C)"
proof -
  let ?C1 = "settle X A app KDeployment C"
  let ?C2 = "settle X A app KService ?C1"
  let ?C3 = "settle X A app KIngress ?C2"
  have ports: "sv_Ports (Service app) \<noteq> []" using b by (simp add: buildable_def)
  obtain d s where prep: "takes A C0 (sync_prepare X S r app) C (Inr (d, s)) C"
    and cfg: "config X C app KDeployment = Some (ODeployment d)" "config X C app KService = Some (OService s)"
    using takes_prepare [OF X(1) S r cap ports claim claim] by auto
  have cfg1: "config X ?C1 app KService = Some (OService s)" using cfg(2) by simp
  have dep: "takes A C0 (apply_config S (ODeployment d)) C None ?C1"
    using takes_apply [OF S(2) configured.build_kind [OF cfg(1)] config_key [OF cfg(1)]]
    by (simp add: settle_def target_def cfg(1) del: config.simps)
  have svc: "takes A C0 (apply_config S (OService s)) ?C1 None ?C2"
    using takes_apply [OF S(2) configured.build_kind [OF cfg1] config_key [OF cfg1], of A C0 ?C1]
    unfolding settle_def [of X A app KService ?C1] target_def [of X A ?C1 app KService] cfg1 option.case by simp
  have ing: "takes A C0 (syncIngress X S r app) ?C2 None ?C3"
  proof (rule takes_Ingress [OF X(1) S r _ b])
    show "cluster_ok ?C2" by (intro settle_ok X ok)
    assume "config X ?C2 app KIngress \<noteq> None"
    then show "claimed X ?C2 app KIngress"
      using claim [of KIngress] claim_frame [of ?C2 KIngress C X app] by (simp add: settle_frame)
  qed
  have hpa: "takes A C0 (syncHPA X S r app) ?C3 None (settle X A app KHPA ?C3)"
  proof (rule takes_HPA [OF X(1) S r _ b])
    show "cluster_ok ?C3" by (intro settle_ok X ok)
    assume "config X ?C3 app KHPA \<noteq> None"
    then show "claimed X ?C3 app KHPA"
      using claim [of KHPA] claim_frame [of ?C3 KHPA C X app] by (simp add: settle_frame)
  qed
  show ?thesis
    unfolding sync_def converged_def
    apply (rule takes_bind [OF prep])
    apply (simp only: sum.case fst_conv snd_conv)
    apply (rule takes_bind [OF dep])
    apply (simp only: option.case)
    apply (rule takes_bind [OF svc])
    apply (simp only: option.case)
    apply (rule takes_bind [OF ing])
    apply (simp only: option.case)
    apply (rule hpa)
    done
qed

text \<open>Status patches change no object, and of a WebApp neither the identity nor the spec.\<close>

definition kept :: "cluster \<Rightarrow> cluster \<Rightarrow> bool" where
  "kept C C' \<longleftrightarrow>
     cl_Obj C' = cl_Obj C \<and>
     (\<forall>k a. cl_App C k = Some a \<longrightarrow>
        (\<exists>a'. cl_App C' k = Some a' \<and> wa_Spec a' = wa_Spec a \<and> same_identity (wa_Meta a') (wa_Meta a)))"

lemma keptD:
  "kept C C' \<Longrightarrow> cl_Obj C' = cl_Obj C"
  "kept C C' \<Longrightarrow> cl_App C k = Some a \<Longrightarrow>
     \<exists>a'. cl_App C' k = Some a' \<and> wa_Spec a' = wa_Spec a \<and> same_identity (wa_Meta a') (wa_Meta a)"
  unfolding kept_def by blast+

lemma keptI:
  "cl_Obj C' = cl_Obj C \<Longrightarrow>
   (\<And>k a. cl_App C k = Some a \<Longrightarrow>
      \<exists>a'. cl_App C' k = Some a' \<and> wa_Spec a' = wa_Spec a \<and> same_identity (wa_Meta a') (wa_Meta a)) \<Longrightarrow>
   kept C C'"
  unfolding kept_def by blast

lemma same_identity_refl [simp]: "same_identity m m"
  by (simp add: same_identity_def)

lemma kept_refl [simp]: "kept C C"
  by (rule keptI) auto

lemma kept_trans: "kept C1 C2 \<Longrightarrow> kept C2 C3 \<Longrightarrow> kept C1 C3"
  by (rule keptI) (auto simp: keptD(1) same_identity_def dest!: keptD(2))

lemma kept_patch:
  assumes "api_documented X A" "is_patch e"
  shows "kept C (effect_on A e C)"
proof (cases e)
  case (PatchStatus a b reply)
  show ?thesis
  proof (cases reply)
    case None
    have "kept C (put_app k (map_option (\<lambda>s. api_Patch A s a b) (cl_App C k)) C)" for k
    proof (rule keptI)
      fix k' s assume s: "cl_App C k' = Some s"
      show "\<exists>a'. cl_App (put_app k (map_option (\<lambda>s. api_Patch A s a b) (cl_App C k)) C) k' = Some a' \<and>
          wa_Spec a' = wa_Spec s \<and> same_identity (wa_Meta a') (wa_Meta s)"
        using s api_documentedD(8,9) [OF assms(1), of s a b] by (cases "k' = k") auto
    qed simp
    with PatchStatus None show ?thesis by simp
  qed (simp add: PatchStatus)
qed (use assms(2) in simp_all)

lemma kept_after:
  assumes "api_documented X A" "\<forall>e \<in> set es. harmless e \<or> is_patch e"
  shows "kept C (after A C es)"
  using assms(2)
proof (induction es rule: rev_induct)
  case (snoc e es)
  then have "kept (after A C es) (effect_on A e (after A C es))"
    using kept_patch [OF assms(1)] by (cases "harmless e") (simp_all add: harmless_effect)
  with snoc show ?case by (auto intro: kept_trans)
qed simp

lemma served_app:
  assumes "serves X A S C" "faultless S" "cl_App C req = Some app"
  shows "srv_GetApp S [] req = Inr app"
  using servesD(1,2) [OF assms(1), of "[]" req] faultlessD(1) [OF assms(2), of "[]" req] assms(3)
  by (cases "srv_GetApp S [] req") auto

text \<open>With its finalizer, the WebApp stands for the same objects.\<close>

lemma ensure_finalizer_kept:
  assumes X: "finalizers_documented X" "api_documented X A" and S: "serves X A S C" "faultless S"
    and app: "cl_App C req = Some app" "ObjectKeyFromObject app = req" "om_DeletionTimestamp (wa_Meta app) = None"
    and tr: "after A C tr = C" and ok: "cluster_ok C"
  obtains app1 tr1 where "run_state (ensure_finalizer X S app) tr = (Inr app1, tr1)" "same_request app1 app"
    "cl_Obj (after A C tr1) = cl_Obj C" "cl_App (after A C tr1) req = Some app1" "cluster_ok (after A C tr1)"
    "om_DeletionTimestamp (wa_Meta app1) = None"
proof (cases "Finalizer \<in> set (om_Finalizers (wa_Meta app))")
  case True
  then have "AddFinalizer X (wa_Meta app) Finalizer = (wa_Meta app, False)"
    using X(1) by (simp add: finalizers_documented_def del: Finalizer_def)
  then have "run_state (ensure_finalizer X S app) tr = (Inr app, tr)"
    by (simp add: ensure_finalizer_def del: Finalizer_def)
  from that [OF this] tr app ok show thesis by (simp add: same_request_def)
next
  case False
  define a where "a = app\<lparr>wa_Meta := (wa_Meta app)\<lparr>om_Finalizers := om_Finalizers (wa_Meta app) @ [Finalizer]\<rparr>\<rparr>"
  have "AddFinalizer X (wa_Meta app) Finalizer = (wa_Meta a, True)"
    using X(1) False by (simp add: finalizers_documented_def a_def del: Finalizer_def)
  moreover obtain a' where upd: "srv_Update S tr a = Inr a'" using faultlessD(5) [OF S(2)] by blast
  ultimately have run: "run_state (ensure_finalizer X S app) tr = (Inr a', tr @ [UpdateApp a (Inr a')])"
    by (simp add: ensure_finalizer_def client_Update_def a_def del: Finalizer_def)
  have same: "same_identity (wa_Meta a') (wa_Meta a)" "wa_Spec a' = wa_Spec a"
    using servesD(8,9) [OF S(1) upd] .
  have key: "ObjectKeyFromObject a = req" using app(2) by (simp add: a_def ObjectKeyFromObject_def)
  have alive: "om_DeletionTimestamp (wa_Meta a') = None"
    using same(1) app(3) by (simp add: same_identity_def a_def)
  have C1: "after A C (tr @ [UpdateApp a (Inr a')]) = put_app req (Some a') C"
    by (simp add: tr key api_documentedD(7) [OF X(2)] alive)
  show thesis
  proof (rule that [OF run])
    show "same_request a' app"
      using same by (simp add: same_request_def same_identity_def a_def)
    show "cluster_ok (after A C (tr @ [UpdateApp a (Inr a')]))"
      unfolding C1 using same_identity_key [OF same(1)] key by (intro cluster_ok_put(2) [OF ok]) simp
  qed (simp_all only: C1 put_simps simp_thms if_True alive)
qed

lemma run_converges:
  assumes op: "operates X A S r C" and S: "faultless S" and cap: "cap_fine X S LiveReader app"
    and app: "cl_App C req = Some app" "om_DeletionTimestamp (wa_Meta app) = None" and b: "buildable app"
    and claim: "\<And>kd. config X C app kd \<noteq> None \<Longrightarrow> claimed X C app kd"
  shows "fst (run_state (Reconcile X S r req) []) = (no_requeue, None)"
    and "cl_Obj (after A C (run_trace X S r req)) = cl_Obj (converged X A app C)"
    and "\<exists>app'. cl_App (after A C (run_trace X S r req)) req = Some app' \<and> same_request app' app \<and>
      om_DeletionTimestamp (wa_Meta app') = None"
proof -
  have X: "codecs_faithful X" "api_documented X A" "finalizers_documented X" "control_documented X"
    and serv: "serves X A S C" and r: "reader r = LiveReader" and ok: "cluster_ok C"
    using op by (simp_all add: operates_def)
  let ?tr0 = "[GetApp req (Inr app)]"
  have key: "ObjectKeyFromObject app = req" using ok app(1) unfolding cluster_ok_def by blast
  have got0: "srv_GetApp S [] req = Inr app" by (rule served_app [OF serv S app(1)])
  have tr0: "after A C ?tr0 = C" by simp
  obtain app1 tr1 where fin: "run_state (ensure_finalizer X S app) ?tr0 = (Inr app1, tr1)"
    and same: "same_request app1 app" and C1: "cl_Obj (after A C tr1) = cl_Obj C"
      "cl_App (after A C tr1) req = Some app1" "cluster_ok (after A C tr1)"
    and alive: "om_DeletionTimestamp (wa_Meta app1) = None"
    by (rule ensure_finalizer_kept [OF X(3,2) serv S app(1) key app(2) tr0 ok])
  let ?C1 = "after A C tr1"
  have frame: "config X ?C1 app1 kd = config X C app kd" "claimed X ?C1 app1 kd = claimed X C app kd"
    "target X A ?C1 app1 kd = target X A C app kd" for kd
    by (simp_all only: same_request_config(1) [OF same] same_request_target [OF same X(4)] objects_only [OF C1(1)])
  have "takes A C (sync X S r app1) ?C1 None (converged X A app1 ?C1)"
    by (rule takes_sync [OF X(1,2) serv S r _ C1(3)])
      (use cap r b claim frame same_request_gates [OF same] in simp_all)
  then obtain tr2 where sync: "run_state (sync X S r app1) tr1 = (None, tr2)"
    and C2: "after A C tr2 = converged X A app1 ?C1"
    by (rule takesE) simp
  define got where "got = srv_GetDeployment S tr2 CachedClient (ObjectKeyFromObject app1)"
  have missing: "IsNotFound e" if "got = Inl e" for e
    using faultlessD(2) [OF S, of tr2 CachedClient KDeployment "ObjectKeyFromObject app1" e] that by (simp add: got_def)
  obtain a ev reply outcome mid where whole: "run_state (Reconcile X S r req) [] = ((no_requeue, reply),
       tr2 @ GetObject CachedClient KDeployment (ObjectKeyFromObject app1) (map_sum id ODeployment got) # mid @
         [PatchStatus a app reply, Metric (MReconcileTotal outcome), Metric (MReconcileDuration outcome)])"
    and mid: "mid = ev @ status_metrics a" "\<forall>e \<in> set ev. is_note e \<and> (\<forall>c. e \<noteq> Metric c)"
    and reply: "reply = srv_Patch S (tr2 @ GetObject CachedClient KDeployment (ObjectKeyFromObject app1)
       (map_sum id ODeployment got) # mid) a app"
    by (rule Reconcile_after_success [OF got0 app(2) fin sync got_def missing])
  have none: "reply = None" using reply faultlessD(4) [OF S] by simp
  with whole show "fst (run_state (Reconcile X S r req) []) = (no_requeue, None)" by simp
  let ?new = "GetObject CachedClient KDeployment (ObjectKeyFromObject app1) (map_sum id ODeployment got) # mid @
    [PatchStatus a app reply, Metric (MReconcileTotal outcome), Metric (MReconcileDuration outcome)]"
  have new: "\<forall>e \<in> set ?new. harmless e \<or> is_patch e"
    using notes_patch_nothing [OF mid(2,1)] note_kinds by auto
  have kept: "kept (converged X A app1 ?C1) (after A C (run_trace X S r req))"
    using kept_after [OF X(2) new, of "after A C tr2"] whole by (simp only: snd_conv after_simps C2)
  from keptD(1) [OF this]
  show "cl_Obj (after A C (run_trace X S r req)) = cl_Obj (converged X A app C)"
    using same_request_built(1) [OF same] C1(1) frame(3) by (simp add: converged_simps fun_eq_iff)
  have "cl_App (converged X A app1 ?C1) req = Some app1" by (simp add: converged_simps(2) C1(2))
  from keptD(2) [OF kept this] same alive
  show "\<exists>app'. cl_App (after A C (run_trace X S r req)) req = Some app' \<and> same_request app' app \<and>
      om_DeletionTimestamp (wa_Meta app') = None"
    by (auto simp: same_request_def same_identity_def)
qed

section \<open>A second run\<close>

lemma target_again:
  assumes A: "api_documented X A" and C1: "cl_Obj C1 kd (ObjectKeyFromObject app) = target X A C app kd"
    and cfg: "config X C1 app kd = config X C app kd"
  shows "target X A C1 app kd = target X A C app kd"
proof (cases "config X C app kd")
  case (Some c)
  with C1 cfg api_documentedD(3) [OF A] show ?thesis by (simp add: target_def)
next
  case None
  have "withdrawn X A C1 app kd = target X A C app kd"
  proof (cases "target X A C app kd")
    case None
    with C1 show ?thesis by (simp add: withdrawn_def visible_def)
  next
    case (Some o1)
    show ?thesis
    proof (cases "in_cache X o1 \<and> IsControlledBy X (meta_of o1) (wa_Meta app)")
      case True
      then have "api_Delete A o1 = Some o1"
        using Some None api_documentedD(6) [OF A]
        by (auto simp: target_def withdrawn_def visible_def split: option.splits if_splits)
      with True Some C1 show ?thesis by (simp add: withdrawn_def visible_def)
    qed (use Some C1 in \<open>auto simp: withdrawn_def visible_def\<close>)
  qed
  with None cfg show ?thesis by (simp add: target_def)
qed

lemma claimed_again:
  assumes X: "control_documented X" "api_documented X A"
    and C1: "cl_Obj C1 kd (ObjectKeyFromObject app) = target X A C app kd"
    and cfg: "config X C app kd = Some c" "claimed X C app kd"
  shows "claimed X C1 app kd"
proof -
  have "IsControlledBy X (meta_of c) (wa_Meta app)"
    using configured.built_controlled [OF X(1) cfg(1)] by simp
  then have "IsControlledBy X (meta_of (api_Apply A (cl_Obj C kd (ObjectKeyFromObject app)) c)) (wa_Meta app)"
    using cfg(2) by (intro api_documentedD(5) [OF X(2)]) (auto simp: claimed_def)
  with C1 cfg(1) show ?thesis by (simp add: claimed_def target_def)
qed

lemma config_wanted: "config X C app kd = None \<longleftrightarrow> config X C' app kd = None"
  by (cases kd) simp_all

text \<open>After an undisturbed run the next one starts like it: the same request, and what it needs may be taken.\<close>

lemma next_run:
  assumes op: "operates X A S r C" and S: "faultless S" and cap: "cap_fine X S LiveReader app"
    and app: "cl_App C req = Some app" "om_DeletionTimestamp (wa_Meta app) = None" and b: "buildable app"
    and claim: "\<And>kd. config X C app kd \<noteq> None \<Longrightarrow> claimed X C app kd"
    and C1: "C1 = after A C (run_trace X S r req)" and S2: "serves X A S2 C1"
  obtains app' where "operates X A S2 r C1" "same_request app' app"
    "cl_App C1 req = Some app'" "om_DeletionTimestamp (wa_Meta app') = None"
    "buildable app'" "cap_fine X S2 LiveReader app' = cap_fine X S2 LiveReader app"
    "\<And>kd. config X C1 app' kd \<noteq> None \<Longrightarrow> claimed X C1 app' kd"
    "\<And>kd. cl_Obj C1 kd req = target X A C app kd" "ObjectKeyFromObject app = req"
proof -
  have X: "control_documented X" "api_documented X A"
    using op by (simp_all add: operates_def)
  have ok: "cluster_ok C1"
    unfolding C1 by (rule run_place_ok [OF op, of req _ "[]"]) simp
  have op2: "operates X A S2 r C1" using op S2 ok by (simp add: operates_def)
  obtain app' where app': "cl_App C1 req = Some app'" "same_request app' app"
      "om_DeletionTimestamp (wa_Meta app') = None"
    using run_converges(3) [OF op S cap app b claim] C1 by auto
  have key: "ObjectKeyFromObject app = req"
    using op app(1) unfolding operates_def cluster_ok_def by blast
  have obj: "cl_Obj C1 kd req = target X A C app kd" for kd
    using run_converges(2) [OF op S cap app b claim] C1 by (simp add: converged_simps key)
  have "claimed X C1 app' kd" if "config X C1 app' kd \<noteq> None" for kd
  proof -
    have "config X C app kd \<noteq> None"
      using that config_wanted [of X C app kd C1] by (simp add: same_request_config(1) [OF app'(2)])
    then show ?thesis
      using claimed_again [OF X, of C1 kd app C] claim obj key
      by (auto simp: same_request_target(2) [OF app'(2) X(1)])
  qed
  with that [OF op2 app'(2,1,3)] same_request_gates [OF app'(2)] b obj key show thesis by simp
qed

lemma second_run:
  assumes op: "operates X A S r C" and S: "faultless S" and cap: "cap_fine X S LiveReader app"
    and app: "cl_App C req = Some app" "om_DeletionTimestamp (wa_Meta app) = None" and b: "buildable app"
    and claim: "\<And>kd. config X C app kd \<noteq> None \<Longrightarrow> claimed X C app kd"
    and C1: "C1 = after A C (run_trace X S r req)"
    and S2: "serves X A S2 C1" "faultless S2" "cap_fine X S2 LiveReader app"
  shows "cl_Obj (after A C1 (run_trace X S2 r req)) kd k =
      (if k = req then target X A C1 app kd else cl_Obj C1 kd k)"
    and "config X C1 app kd = config X C app kd \<Longrightarrow>
      cl_Obj (after A C1 (run_trace X S2 r req)) kd k = cl_Obj C1 kd k"
proof -
  have X: "control_documented X" "api_documented X A"
    using op by (simp_all add: operates_def)
  show after2: "cl_Obj (after A C1 (run_trace X S2 r req)) kd k =
      (if k = req then target X A C1 app kd else cl_Obj C1 kd k)"
  proof (rule next_run [OF op S cap app b claim C1 S2(1)])
    fix app'
    assume *: "operates X A S2 r C1" "same_request app' app" "cl_App C1 req = Some app'"
      "om_DeletionTimestamp (wa_Meta app') = None" "buildable app'"
      "cap_fine X S2 LiveReader app' = cap_fine X S2 LiveReader app"
      "\<And>kd. config X C1 app' kd \<noteq> None \<Longrightarrow> claimed X C1 app' kd"
      "ObjectKeyFromObject app = req"
    have "cl_Obj (after A C1 (run_trace X S2 r req)) = cl_Obj (converged X A app' C1)"
      by (rule run_converges(2) [OF *(1) S2(2) _ *(3,4,5)]) (use S2(3) * in auto)
    then show ?thesis
      using *(8) by (simp add: converged_simps same_request_built(1) [OF *(2)] same_request_target(1) [OF *(2) X(1)])
  qed
  assume cfg: "config X C1 app kd = config X C app kd"
  show "cl_Obj (after A C1 (run_trace X S2 r req)) kd k = cl_Obj C1 kd k"
  proof (rule next_run [OF op S cap app b claim C1 S2(1)])
    assume *: "\<And>kd. cl_Obj C1 kd req = target X A C app kd" "ObjectKeyFromObject app = req"
    then show ?thesis
      using target_again [OF X(2), of C1 kd app C] cfg by (simp add: after2)
  qed
qed

section \<open>The replica count that is held settles\<close>

text \<open>
  What server-side apply does with the replica count of a Deployment, as documented: the API defaults an
  absent count; a count that is applied is stored, and nobody else owns it if nobody else did; a count
  that is left out stays with the managers that own it.
\<close>

definition replicas_documented :: "k8s \<Rightarrow> api \<Rightarrow> bool" where
  "replicas_documented X A \<longleftrightarrow>
     (\<forall>old d d'. api_Apply A old (ODeployment d) = ODeployment d' \<longrightarrow>
        de_Replicas (dp_Spec d') \<noteq> None \<and>
        (\<forall>d0. old = Some (ODeployment d0) \<longrightarrow>
           (if ReplicasOwnedByOther X d0
            then de_Replicas (dp_Spec d) = None \<longrightarrow> ReplicasOwnedByOther X d'
            else \<forall>n. de_Replicas (dp_Spec d) = Some n \<longrightarrow>
              de_Replicas (dp_Spec d') = Some n \<and> \<not> ReplicasOwnedByOther X d')))"

definition held :: "k8s \<Rightarrow> DeploymentObj \<Rightarrow> int32 option" where
  "held X d = (if ReplicasOwnedByOther X d then None else de_Replicas (dp_Spec d))"

lemma held_again:
  assumes "replicas_documented X A" "api_Apply A old (ODeployment c0) = ODeployment d1"
    and "api_Apply A (Some (ODeployment d1)) (ODeployment (with_replicas (held X d1) c)) = ODeployment d2"
  shows "held X d2 = held X d1"
proof (cases "ReplicasOwnedByOther X d1")
  case True
  with assms(1,3) show ?thesis unfolding replicas_documented_def held_def with_replicas_def by fastforce
next
  case False
  obtain n where n: "de_Replicas (dp_Spec d1) = Some n"
    using assms(1,2) unfolding replicas_documented_def by blast
  with False assms(1,3) show ?thesis
    unfolding replicas_documented_def held_def with_replicas_def by fastforce
qed

text \<open>An applied Deployment is visible, so the next run holds its count.\<close>

lemma hold_applied:
  assumes X: "api_documented X A" "selectors_documented X"
    and C1: "cl_Obj C1 KDeployment (ObjectKeyFromObject app) = target X A C app KDeployment"
  obtains c d where "config X C app KDeployment = Some (ODeployment c)"
    "api_Apply A (cl_Obj C KDeployment (ObjectKeyFromObject app)) (ODeployment c) = ODeployment d"
    "cl_Obj C1 KDeployment (ObjectKeyFromObject app) = Some (ODeployment d)" "hold_of X C1 app = held X d"
proof -
  obtain c where c: "config X C app KDeployment = Some (ODeployment c)" by simp
  let ?new = "api_Apply A (cl_Obj C KDeployment (ObjectKeyFromObject app)) (ODeployment c)"
  have "kind_of ?new = KDeployment" using api_documentedD(1) [OF X(1)] by simp
  then obtain d where d: "?new = ODeployment d" by (cases ?new) simp_all
  have "fmlookup (om_Labels (meta_of ?new)) ManagedByLabel = Some ManagedByValue"
    by (intro api_documentedD(4) [OF X(1)] configured.built_cached [OF c])
  then have "in_cache X (ODeployment d)" using in_cache_iff [OF X(2)] d by (simp del: ManagedByLabel_def)
  moreover have at: "cl_Obj C1 KDeployment (ObjectKeyFromObject app) = Some (ODeployment d)"
    using C1 c d by (simp add: target_def del: config.simps)
  ultimately have "hold_of X C1 app = held X d" by (simp add: hold_of_def visible_def held_def)
  with that c d at show thesis by blast
qed

lemma runs_settle:
  assumes op: "operates X A S r C" and S: "faultless S" and cap: "cap_fine X S LiveReader app"
    and app: "cl_App C req = Some app" "om_DeletionTimestamp (wa_Meta app) = None" and b: "buildable app"
    and claim: "\<And>kd. config X C app kd \<noteq> None \<Longrightarrow> claimed X C app kd"
    and C1: "C1 = after A C (run_trace X S r req)"
    and S2: "serves X A S2 C1" "faultless S2" "cap_fine X S2 LiveReader app"
    and C2: "C2 = after A C1 (run_trace X S2 r req)"
    and S3: "serves X A S3 C2" "faultless S3" "cap_fine X S3 LiveReader app"
    and docs: "selectors_documented X" "replicas_documented X A"
  shows "cl_Obj (after A C2 (run_trace X S3 r req)) = cl_Obj C2"
proof (rule next_run [OF op S cap app b claim C1 S2(1)])
  fix app'
  assume *: "operates X A S2 r C1" "same_request app' app" "cl_App C1 req = Some app'"
    "om_DeletionTimestamp (wa_Meta app') = None" "buildable app'"
    "cap_fine X S2 LiveReader app' = cap_fine X S2 LiveReader app"
    "\<And>kd. config X C1 app' kd \<noteq> None \<Longrightarrow> claimed X C1 app' kd"
    "\<And>kd. cl_Obj C1 kd req = target X A C app kd" "ObjectKeyFromObject app = req"
  have A: "api_documented X A" using op by (simp add: operates_def)
  obtain c d1 where d1: "api_Apply A (cl_Obj C KDeployment req) (ODeployment c) = ODeployment d1"
      "cl_Obj C1 KDeployment req = Some (ODeployment d1)" "hold_of X C1 app = held X d1"
    using hold_applied [OF A docs(1), of C1 app C] *(8,9) by metis
  have "cl_Obj C2 KDeployment req = target X A C1 app KDeployment"
    using second_run(1) [OF op S cap app b claim C1 S2, of KDeployment req] C2 by simp
  then obtain c2 d2 where d2: "config X C1 app KDeployment = Some (ODeployment c2)"
      "api_Apply A (Some (ODeployment d1)) (ODeployment c2) = ODeployment d2" "hold_of X C2 app = held X d2"
    using hold_applied [OF A docs(1), of C2 app C1] d1(2) *(9) by metis
  have "config X C2 app kd = config X C1 app kd" for kd
  proof (cases "WantsHPA app")
    case True
    then have "c2 = with_replicas (held X d1) (Deployment app)" using d2(1) d1(3) by simp
    with held_again [OF docs(2) d1(1)] d2(2,3) have "hold_of X C2 app = hold_of X C1 app"
      using d1(3) by metis
    then show ?thesis by (cases kd) simp_all
  next
    case False
    then show ?thesis by (cases kd) simp_all
  qed
  then have cfg: "config X C2 app' kd = config X C1 app' kd" for kd
    by (simp only: same_request_config(1) [OF *(2)])
  have caps: "cap_fine X S2 LiveReader app'" "cap_fine X S3 LiveReader app'"
    using S2(3) S3(3) by (simp_all only: same_request_gates(1) [OF *(2)])
  show ?thesis
    by (intro ext) (rule second_run(2) [OF *(1) S2(2) caps(1) *(3,4,5,7) C2 S3(1,2) caps(2) cfg])
qed

end
