(* ===== verification/Warp_Draining.thy ===== *)
theory Warp_Draining
  imports Warp_Convergence
begin

text \<open>
  Deletion comes to an end. The work queue retries a run that failed, so a deletion is a sequence of runs,
  each on a server that may fail any call. As soon as one of them is undisturbed, the operator's finalizer
  is off the WebApp, and of the objects the WebApp controls there are left only those that wait for
  finalizers of others, and those the operator cannot see because they do not carry the managed-by label;
  no later run changes that.
\<close>

section \<open>Sequences of runs\<close>

fun attempts ::
  "k8s \<Rightarrow> api \<Rightarrow> WebAppReconciler \<Rightarrow> object_key \<Rightarrow> server list \<Rightarrow> cluster \<Rightarrow> cluster" where
  "attempts X A r req [] C = C"
| "attempts X A r req (S # Ss) C = attempts X A r req Ss (after A C (run_trace X S r req))"

fun all_serve ::
  "k8s \<Rightarrow> api \<Rightarrow> WebAppReconciler \<Rightarrow> object_key \<Rightarrow> server list \<Rightarrow> cluster \<Rightarrow> bool" where
  "all_serve X A r req [] C \<longleftrightarrow> True"
| "all_serve X A r req (S # Ss) C \<longleftrightarrow>
     serves X A S C \<and> all_serve X A r req Ss (after A C (run_trace X S r req))"

section \<open>What a deletion has achieved\<close>

text \<open>A deleted object stays for its finalizers only; the API server marks it and waits for them.\<close>

definition terminating :: "object \<Rightarrow> bool" where
  "terminating obj \<longleftrightarrow> om_DeletionTimestamp (meta_of obj) \<noteq> None \<and> om_Finalizers (meta_of obj) \<noteq> []"

definition deletes_documented :: "api \<Rightarrow> bool" where
  "deletes_documented A \<longleftrightarrow> (\<forall>o1 o2. api_Delete A o1 = Some o2 \<longrightarrow> terminating o2)"

text \<open>Of this kind, the WebApp with the metadata \<open>m\<close> controls no object the operator sees that is not terminating.\<close>

definition cleared :: "k8s \<Rightarrow> object_key \<Rightarrow> ObjectMeta \<Rightarrow> cluster \<Rightarrow> kind \<Rightarrow> bool" where
  "cleared X req m C kd \<longleftrightarrow>
     (\<forall>obj. visible X C kd req = Some obj \<longrightarrow> IsControlledBy X (meta_of obj) m \<longrightarrow> terminating obj)"

text \<open>Objects were only taken away, or marked for deletion.\<close>

definition thinned :: "cluster \<Rightarrow> cluster \<Rightarrow> bool" where
  "thinned C C' \<longleftrightarrow> (\<forall>kd k obj. cl_Obj C' kd k = Some obj \<longrightarrow> cl_Obj C kd k = Some obj \<or> terminating obj)"

lemma thinned_refl [simp]: "thinned C C"
  by (simp add: thinned_def)

lemma thinned_trans: "thinned C1 C2 \<Longrightarrow> thinned C2 C3 \<Longrightarrow> thinned C1 C3"
  unfolding thinned_def by blast

text \<open>What may be left then: objects that terminate, and unlabelled ones that were there from the start.\<close>

lemma cleared_thinned:
  assumes "cleared X req m C' kd" "thinned C C'"
    and "cl_Obj C' kd req = Some obj" "IsControlledBy X (meta_of obj) m"
  shows "terminating obj \<or> \<not> in_cache X obj \<and> cl_Obj C kd req = Some obj"
proof (cases "in_cache X obj")
  case True
  with assms(1,3,4) show ?thesis by (simp add: cleared_def visible_def)
next
  case False
  with assms(2,3) show ?thesis unfolding thinned_def by blast
qed

text \<open>The other finalizers are not the operator's business: they stay as they are.\<close>

definition others_of :: "ObjectMeta \<Rightarrow> string list" where
  "others_of m = filter (\<lambda>f. f \<noteq> Finalizer) (om_Finalizers m)"

definition deleting :: "ObjectMeta \<Rightarrow> WebApp \<Rightarrow> bool" where
  "deleting m app \<longleftrightarrow>
     app_UID app = om_UID m \<and> om_DeletionTimestamp (wa_Meta app) \<noteq> None \<and>
     om_Finalizers (wa_Meta app) \<noteq> [] \<and> others_of (wa_Meta app) = others_of m"

text \<open>The WebApp is gone, or only finalizers of others keep it; either way its objects are cleared.\<close>

definition let_go :: "k8s \<Rightarrow> object_key \<Rightarrow> ObjectMeta \<Rightarrow> cluster \<Rightarrow> bool" where
  "let_go X req m C \<longleftrightarrow>
     (\<forall>kd. cleared X req m C kd) \<and>
     (\<forall>app. cl_App C req = Some app \<longrightarrow> Finalizer \<notin> set (om_Finalizers (wa_Meta app)))"

definition draining :: "k8s \<Rightarrow> object_key \<Rightarrow> ObjectMeta \<Rightarrow> cluster \<Rightarrow> bool" where
  "draining X req m C \<longleftrightarrow>
     cluster_ok C \<and>
     (\<forall>app. cl_App C req = Some app \<longrightarrow> deleting m app) \<and>
     (let_go X req m C \<or>
      (\<exists>app. cl_App C req = Some app \<and> Finalizer \<in> set (om_Finalizers (wa_Meta app))))"

lemma drainingD:
  assumes "draining X req m C"
  shows "cluster_ok C" "cl_App C req = Some app \<Longrightarrow> deleting m app"
  using assms by (simp_all add: draining_def)

lemma draining_start:
  assumes "cluster_ok C" "cl_App C req = Some app" "om_DeletionTimestamp (wa_Meta app) \<noteq> None"
    and "Finalizer \<in> set (om_Finalizers (wa_Meta app))"
  shows "draining X req (wa_Meta app) C"
  using assms by (auto simp: draining_def deleting_def simp del: Finalizer_def)

section \<open>One deletion\<close>

text \<open>What the deletions leave: the WebApps as they were, and of the objects no more than before.\<close>

definition under_way :: "k8s \<Rightarrow> object_key \<Rightarrow> ObjectMeta \<Rightarrow> cluster \<Rightarrow> kind set \<Rightarrow> cluster \<Rightarrow> bool" where
  "under_way X req m C K C' \<longleftrightarrow>
     cluster_ok C' \<and> thinned C C' \<and> cl_App C' = cl_App C \<and> (\<forall>kd \<in> K. cleared X req m C' kd)"

lemma under_way_put:
  assumes "under_way X req m C K C'"
    and x: "\<And>o2. x = Some o2 \<Longrightarrow> kind_of o2 = kd \<and> key_of o2 = req \<and> terminating o2"
  shows "under_way X req m C K (put_obj kd req x C')" "under_way X req m C (insert kd K) (put_obj kd req x C')"
proof -
  have "cluster_ok (put_obj kd req x C')"
    using assms by (intro cluster_ok_put(1)) (auto simp: under_way_def)
  moreover have "thinned C (put_obj kd req x C')"
    using assms by (auto simp: under_way_def thinned_def)
  moreover have "cleared X req m (put_obj kd req x C') kd'" if "kd' = kd \<or> cleared X req m C' kd'" for kd'
    using that x by (auto simp: cleared_def visible_def split: option.splits if_splits)
  ultimately show "under_way X req m C K (put_obj kd req x C')"
    "under_way X req m C (insert kd K) (put_obj kd req x C')"
    using assms(1) by (auto simp: under_way_def)
qed

lemma deleteOwned_under_way:
  assumes A: "api_documented X A" "deletes_documented A"
    and S: "serves X A S C0" and m: "control_documented X" "app_UID app = om_UID m" "ObjectKeyFromObject app = req"
  shows "triple (\<lambda>tr. under_way X req m C K (after A C0 tr)) (deleteOwned X S app kd)
    (\<lambda>x tr. under_way X req m C K (after A C0 tr) \<and>
       (x = None \<longrightarrow> under_way X req m C (insert kd K) (after A C0 tr)) \<and> (faultless S \<longrightarrow> x = None))"
  unfolding triple_def
proof (intro allI impI)
  fix tr
  assume way: "under_way X req m C K (after A C0 tr)"
  let ?C = "after A C0 tr" and ?run = "run_state (deleteOwned X S app kd) tr"
  have owner: "IsControlledBy X obj (wa_Meta app) = IsControlledBy X obj m" for obj
    using m(1,2) by (intro controlled_by_uid)
  have finished: "under_way X req m C (insert kd K) ?C" if "cleared X req m ?C kd"
    using way that by (simp add: under_way_def)
  show "under_way X req m C K (after A C0 (snd ?run)) \<and>
      (fst ?run = None \<longrightarrow> under_way X req m C (insert kd K) (after A C0 (snd ?run))) \<and>
      (faultless S \<longrightarrow> fst ?run = None)"
  proof (cases "get_typed S tr CachedClient kd req")
    case (Inl e)
    have "cleared X req m ?C kd" if "IsNotFound e"
      using servesD(6) [OF S Inl that] by (auto simp: cleared_def visible_def split: option.splits if_splits)
    with Inl way finished faultlessD(2) [of S, OF _ Inl] show ?thesis by (simp add: deleteOwned_def client_defs m(3))
  next
    case (Inr obj)
    from servesD(5) [OF S Inr] have vis: "visible X ?C kd req = Some obj" and stored: "cl_Obj ?C kd req = Some obj"
      by (simp_all add: visible_def)
    show ?thesis
    proof (cases "IsControlledBy X (meta_of obj) m")
      case False
      then have "cleared X req m ?C kd" using vis by (simp add: cleared_def)
      with Inr way finished False show ?thesis by (simp add: deleteOwned_def client_defs m(3) owner)
    next
      case True
      have at: "kind_of obj = kd" "key_of obj = req"
        using way stored unfolding under_way_def cluster_ok_def by blast+
      have left: "kind_of o2 = kd \<and> key_of o2 = req \<and> terminating o2" if "api_Delete A obj = Some o2" for o2
        using api_documentedD(6) [OF A(1) that] A(2) that at by (simp add: deletes_documented_def)
      let ?tr1 = "tr @ [GetObject CachedClient kd req (Inr obj)]"
      show ?thesis
      proof (cases "srv_Delete S ?tr1 obj")
        case None
        have "after A C0 (snd ?run) = put_obj kd req (api_Delete A obj) ?C \<and> fst ?run = None"
          using Inr True None by (simp add: deleteOwned_def client_defs m(3) owner at stored)
        with under_way_put [OF way left] show ?thesis by simp
      next
        case (Some e)
        have "\<not> IsNotFound e"
          using servesD(7) [OF S Some] stored at by auto
        moreover have "\<not> faultless S"
          using Some faultlessD(3) [of S] by (auto simp: writes_fine_def)
        ultimately show ?thesis using Inr True Some way by (simp add: deleteOwned_def client_defs m(3) owner)
      qed
    qed
  qed
qed

lemma delete_all_under_way:
  assumes "api_documented X A" "deletes_documented A" "serves X A S C0" "control_documented X"
    "app_UID app = om_UID m" "ObjectKeyFromObject app = req"
  shows "triple (\<lambda>tr. under_way X req m C K (after A C0 tr)) (delete_all X S app kds)
    (\<lambda>x tr. under_way X req m C K (after A C0 tr) \<and>
       (x = None \<longrightarrow> under_way X req m C (set kds \<union> K) (after A C0 tr)) \<and> (faultless S \<longrightarrow> x = None))"
proof (induction kds arbitrary: K)
  case (Cons kd kds)
  have weak: "under_way X req m C K C'" if "under_way X req m C (insert kd K) C'" for C'
    using that by (simp add: under_way_def)
  show ?case
    by (auto intro!: triple_bind [OF deleteOwned_under_way [OF assms]] triple_option triple_return
        triple_conseq [OF Cons.IH [of "insert kd K"]] dest: weak)
qed auto

text \<open>How a run over a deleted WebApp with the finalizer goes: it fails, or it ends with the update.\<close>

lemma finalize_steps:
  assumes X: "finalizers_documented X" "control_documented X" "api_documented X A" "deletes_documented A"
    and S: "serves X A S C" and ok: "cluster_ok C"
    and app: "cl_App C req = Some app" "ContainsFinalizer X (wa_Meta app) Finalizer" "app_UID app = om_UID m"
    and fin: "run_state (finalize X S app) [GetApp req (Inr app)] = (x, tr)"
  obtains (failed) "under_way X req m C {} (after A C tr)" "\<not> faultless S" "\<forall>e \<in> set tr. \<not> is_update e"
  | (finished) tr2 a where "a = app\<lparr>wa_Meta := RemoveFinalizer X (wa_Meta app) Finalizer\<rparr>"
      "tr = tr2 @ [UpdateApp a (srv_Update S tr2 a)]"
      "under_way X req m C UNIV (after A C tr2)" "\<forall>e \<in> set tr2. \<not> is_update e"
proof -
  have key: "ObjectKeyFromObject app = req" using ok app(1) unfolding cluster_ok_def by blast
  let ?tr0 = "[GetApp req (Inr app)]"
  obtain y tr1 where all: "run_state (delete_all X S app finalizer_kinds) ?tr0 = (y, tr1)" by fastforce
  have start: "under_way X req m C {} (after A C ?tr0)" using ok by (simp add: under_way_def)
  have kinds: "set finalizer_kinds \<union> {} = UNIV" using all_kinds [of "\<lambda>kd. kd \<in> set finalizer_kinds"] by auto
  note delete_all_under_way [OF X(3,4) S X(2) app(3) key, where C = C and K = "{}" and kds = finalizer_kinds]
  from tripleD [OF this start] all kinds
  have way: "under_way X req m C {} (after A C tr1)" "y = None \<Longrightarrow> under_way X req m C UNIV (after A C tr1)"
    "faultless S \<Longrightarrow> y = None"
    by simp_all
  have "emits (delete_all X S app finalizer_kinds) (\<lambda>e. \<not> is_update e)"
    by (rule emits_mono [OF emits_delete_all]) (auto dest: harmless_kinds(3) elim!: is_delete.elims)
  then have quiet: "\<forall>e \<in> set tr1. \<not> is_update e" using all unfolding emits_def by (metis (no_types, lifting)
      UnE is_update.simps(2) set_ConsD set_append snd_conv empty_iff list.set(1))
  show thesis
  proof (cases y)
    case (Some e)
    with fin all app(2) have "tr = tr1" by (simp add: finalize_def)
    with failed way(1,3) Some quiet show thesis by auto
  next
    case None
    let ?a = "app\<lparr>wa_Meta := RemoveFinalizer X (wa_Meta app) Finalizer\<rparr>"
    let ?tr2 = "tr1 @ [RecordEvent app EventTypeNormal ''Deleted'' (Lit ''owned resources removed''),
      Metric (MForget (app_Name app) (app_Namespace app))]"
    have "tr = ?tr2 @ [UpdateApp ?a (srv_Update S ?tr2 ?a)]"
      using fin all None app(2) by (simp add: finalize_def client_Update_def split: sum.splits)
    with finished [of ?a ?tr2] way(2) [OF None] quiet show thesis by simp
  qed
qed

text \<open>The update that removes the finalizer.\<close>

lemma finalizer_removed:
  assumes X: "finalizers_documented X" "api_documented X A" and S: "serves X A S C0"
    and m: "deleting m app" "ObjectKeyFromObject app = req"
    and way: "under_way X req m C UNIV C'"
    and upd: "srv_Update S tr (app\<lparr>wa_Meta := RemoveFinalizer X (wa_Meta app) Finalizer\<rparr>) = Inr a'"
  shows "draining X req m (put_app req (api_Store A a') C')" "let_go X req m (put_app req (api_Store A a') C')"
proof -
  let ?a = "app\<lparr>wa_Meta := RemoveFinalizer X (wa_Meta app) Finalizer\<rparr>"
  have a: "wa_Meta ?a = (wa_Meta app)\<lparr>om_Finalizers := others_of (wa_Meta app)\<rparr>"
    using X(1) by (simp add: finalizers_documented_def others_of_def)
  have same: "same_identity (wa_Meta a') ((wa_Meta app)\<lparr>om_Finalizers := others_of (wa_Meta app)\<rparr>)"
    using servesD(8) [OF S upd] a by simp
  then have fins: "om_Finalizers (wa_Meta a') = others_of (wa_Meta app)"
    and alive: "om_DeletionTimestamp (wa_Meta a') \<noteq> None" "app_UID a' = om_UID m"
    using m(1) by (simp_all add: same_identity_def deleting_def)
  have key: "ObjectKeyFromObject a' = req"
    using same m(2) by (simp add: same_identity_def ObjectKeyFromObject_def)
  have stored: "api_Store A a' = (if others_of (wa_Meta app) = [] then None else Some a')"
    using api_documentedD(7) [OF X(2), of a'] fins alive by simp
  have others: "others_of (wa_Meta a') = others_of m"
    using m(1) by (simp add: others_of_def fins deleting_def)
  have del: "deleting m a'" if "others_of (wa_Meta app) \<noteq> []"
    using that alive fins others by (simp add: deleting_def)
  have gone: "Finalizer \<notin> set (om_Finalizers (wa_Meta a'))"
    by (simp add: fins others_of_def)
  show loose: "let_go X req m (put_app req (api_Store A a') C')"
    using way gone by (simp add: let_go_def under_way_def cleared_def visible_def stored)
  have "cluster_ok (put_app req (api_Store A a') C')"
    using way key stored by (intro cluster_ok_put(2)) (simp_all add: under_way_def split: if_splits)
  then show "draining X req m (put_app req (api_Store A a') C')"
    using loose way del by (simp add: draining_def under_way_def stored)
qed

lemma finalize_draining:
  assumes X: "finalizers_documented X" "control_documented X" "api_documented X A" "deletes_documented A"
    and S: "serves X A S C" and drain: "draining X req m C"
    and app: "cl_App C req = Some app" "Finalizer \<in> set (om_Finalizers (wa_Meta app))"
    and fin: "run_state (finalize X S app) [GetApp req (Inr app)] = (x, tr)"
  shows "draining X req m (after A C tr) \<and> thinned C (after A C tr) \<and> (faultless S \<longrightarrow> let_go X req m (after A C tr))"
proof -
  have del: "deleting m app" using drainingD(2) [OF drain app(1)] .
  have key: "ObjectKeyFromObject app = req"
    using drainingD(1) [OF drain] app(1) unfolding cluster_ok_def by blast
  have uid: "app_UID app = om_UID m" using del by (simp add: deleting_def)
  have has: "ContainsFinalizer X (wa_Meta app) Finalizer"
    using X(1) app(2) by (simp add: finalizers_documented_def del: Finalizer_def)
  have stay: "draining X req m C'" if "under_way X req m C K C'" for K C'
    using that drain app by (simp add: draining_def under_way_def del: Finalizer_def)
  from X S drainingD(1) [OF drain] app(1) has uid fin show ?thesis
  proof (cases rule: finalize_steps)
    case failed
    with stay [OF failed(1)] show ?thesis by (simp add: under_way_def)
  next
    case (finished tr2 a)
    have key': "ObjectKeyFromObject a = req"
      using key X(1) by (simp add: finished(1) finalizers_documented_def ObjectKeyFromObject_def)
    show ?thesis
    proof (cases "srv_Update S tr2 a")
      case (Inl e)
      then have "\<not> faultless S" using faultlessD(5) [of S tr2 a] by auto
      with Inl finished(2) stay [OF finished(3)] finished(3) show ?thesis by (simp add: under_way_def)
    next
      case (Inr a')
      then have "after A C tr = put_app req (api_Store A a') (after A C tr2)" using finished(2) key' by simp
      moreover have "thinned C (put_app req (api_Store A a') (after A C tr2))"
        using finished(3) by (simp add: under_way_def thinned_def)
      ultimately show ?thesis
        using finalizer_removed [OF X(1,3) S del key finished(3) Inr [unfolded finished(1)]] by simp
    qed
  qed
qed

lemma run_draining:
  assumes X: "finalizers_documented X" "control_documented X" "api_documented X A" "deletes_documented A"
    and S: "serves X A S C" and drain: "draining X req m C"
  shows "draining X req m (after A C (run_trace X S r req)) \<and> thinned C (after A C (run_trace X S r req)) \<and>
    (let_go X req m C \<or> faultless S \<longrightarrow> let_go X req m (after A C (run_trace X S r req)))"
proof -
  let ?last = "after A C (run_trace X S r req)"
  have whole: "?last = after A C tr" if "run_state (reconcile X S r req) [] = (res, tr)" for res tr
    using Reconcile_run [OF that] by simp
  show ?thesis
  proof (cases "srv_GetApp S [] req")
    case (Inl e)
    have "?last = C"
      using Inl by (cases "IsNotFound e") (simp_all add: whole [of "(_, _)"] reconcile_def client_GetApp_def)
    moreover have "let_go X req m C" if "faultless S"
      using drain servesD(2) [OF S Inl faultlessD(1) [OF that Inl]] by (simp add: draining_def)
    ultimately show ?thesis using drain by auto
  next
    case (Inr app)
    have app: "cl_App C req = Some app" using servesD(1) [OF S Inr] by simp
    have del: "deleting m app" using drainingD(2) [OF drain app] .
    obtain x tr where fin: "run_state (finalize X S app) [GetApp req (Inr app)] = (x, tr)" by fastforce
    have run: "?last = after A C tr"
      using reconcile_deleted [OF Inr, of X r] del fin by (intro whole) (simp add: deleting_def)
    show ?thesis
    proof (cases "Finalizer \<in> set (om_Finalizers (wa_Meta app))")
      case False
      then have "\<not> ContainsFinalizer X (wa_Meta app) Finalizer"
        using X(1) by (simp add: finalizers_documented_def del: Finalizer_def)
      with fin have "tr = [GetApp req (Inr app)]" by (simp add: finalize_def)
      with run have "?last = C" by simp
      moreover have "let_go X req m C" using drain app False by (auto simp: draining_def simp del: Finalizer_def)
      ultimately show ?thesis using drain by simp
    next
      case True
      then have "\<not> let_go X req m C" using app by (auto simp: let_go_def simp del: Finalizer_def)
      with finalize_draining [OF X S drain app True fin] run show ?thesis by simp
    qed
  qed
qed

lemma attempts_drain:
  assumes X: "finalizers_documented X" "control_documented X" "api_documented X A" "deletes_documented A"
    and "all_serve X A r req Ss C" "draining X req m C"
  shows "draining X req m (attempts X A r req Ss C) \<and> thinned C (attempts X A r req Ss C) \<and>
    (let_go X req m C \<or> (\<exists>S \<in> set Ss. faultless S) \<longrightarrow> let_go X req m (attempts X A r req Ss C))"
  using assms(5,6)
proof (induction Ss arbitrary: C)
  case (Cons S Ss)
  then have "serves X A S C" by simp
  from run_draining [OF X this Cons.prems(2), of r] Cons show ?case by (auto intro: thinned_trans)
qed simp

text \<open>A WebApp whose only finalizer is the operator's is gone then.\<close>

lemma let_go_gone:
  assumes "draining X req m C" "let_go X req m C" "others_of m = []"
  shows "cl_App C req = None"
proof (rule ccontr)
  assume "cl_App C req \<noteq> None"
  then obtain app where app: "cl_App C req = Some app" by blast
  have "deleting m app" using drainingD(2) [OF assms(1) app] .
  with assms(3) have "om_Finalizers (wa_Meta app) \<noteq> []" "others_of (wa_Meta app) = []"
    by (simp_all add: deleting_def)
  then have "Finalizer \<in> set (om_Finalizers (wa_Meta app))"
    unfolding others_of_def by (cases "om_Finalizers (wa_Meta app)") (auto split: if_splits)
  with assms(2) app show False by (simp add: let_go_def del: Finalizer_def)
qed

section \<open>What is left when the finalizer goes\<close>

lemma unique_place:
  assumes "xs @ x # ys = pre @ y # post" "P y" "\<forall>e \<in> set xs. \<not> P e" "\<forall>e \<in> set ys. \<not> P e"
  shows "xs = pre \<and> x = y"
  using assms(1,3)
proof (induction xs arbitrary: pre)
  case Nil
  with assms(2,4) show ?case by (cases pre) auto
next
  case (Cons z zs)
  with assms(2) show ?case by (cases pre) auto
qed

text \<open>At the update of a deleted WebApp, the objects are cleared.\<close>

lemma run_finalizes:
  assumes op: "operates X A S r C" and A: "deletes_documented A"
    and run: "run_trace X S r req = pre @ UpdateApp a reply # post"
    and app: "cl_App C req = Some app" "srv_GetApp S [] req = Inr app" "om_DeletionTimestamp (wa_Meta app) \<noteq> None"
  shows "under_way X req (wa_Meta app) C UNIV (after A C pre)"
proof -
  have X: "finalizers_documented X" "control_documented X" "api_documented X A" and S: "serves X A S C"
    and ok: "cluster_ok C"
    using op by (simp_all add: operates_def)
  obtain x tr where fin: "run_state (finalize X S app) [GetApp req (Inr app)] = (x, tr)" by fastforce
  let ?last = "[Metric (MReconcileTotal (if x \<noteq> None then ResultError else ResultSuccess)),
    Metric (MReconcileDuration (if x \<noteq> None then ResultError else ResultSuccess))]"
  have "run_state (reconcile X S r req) [] = ((no_requeue, x), tr)"
    using reconcile_deleted [OF app(2,3), of X r] fin by simp
  from Reconcile_run [OF this] have whole: "tr @ ?last = pre @ UpdateApp a reply # post"
    using run by simp
  have "UpdateApp a reply \<in> set (tr @ ?last)" unfolding whole by simp
  then have upd: "UpdateApp a reply \<in> set tr" by simp
  have has: "ContainsFinalizer X (wa_Meta app) Finalizer"
  proof (rule ccontr)
    assume "\<not> ?thesis"
    with fin have "tr = [GetApp req (Inr app)]" by (simp add: finalize_def)
    with upd show False by simp
  qed
  from X A S ok app(1) has refl fin show ?thesis
  proof (cases rule: finalize_steps)
    case failed
    with upd show ?thesis by fastforce
  next
    case (finished tr2 a2)
    have "tr2 @ UpdateApp a2 (srv_Update S tr2 a2) # ?last = pre @ UpdateApp a reply # post"
      using whole unfolding finished(2) by (simp only: append.assoc append_Cons append_Nil)
    from unique_place [OF this, of is_update] finished(4) have "tr2 = pre" by simp
    with finished(3) show ?thesis by simp
  qed
qed

text \<open>What the cache does not show is not deleted: an object without the label stays through a deletion.\<close>

lemma applied_member: "ApplyObject obj owner force reply \<in> set tr \<Longrightarrow> applied tr \<noteq> []"
  by (induction tr rule: applied.induct) auto

lemma unlabelled_not_deleted:
  assumes op: "operates X A S r C" and split: "run_trace X S r req = p @ DeleteObject o1 reply # post"
    and here: "\<And>q. prefix q p \<Longrightarrow> cl_Obj (after A C q) kd k = Some obj" and obj: "\<not> in_cache X obj"
  shows "\<not> (kind_of o1 = kd \<and> key_of o1 = k)"
proof
  assume at: "kind_of o1 = kd \<and> key_of o1 = k"
  have S: "serves X A S C" using op by (simp add: operates_def)
  obtain app where last: "p \<noteq> []" "last p = GetObject CachedClient kd (ObjectKeyFromObject app) (Inr o1)"
    using run_deletes [OF split] at by auto
  define q where "q = butlast p"
  have q: "p = q @ [GetObject CachedClient kd (ObjectKeyFromObject app) (Inr o1)]"
    using last by (metis append_butlast_last_id q_def)
  have "get_typed S q CachedClient kd (ObjectKeyFromObject app) = Inr o1"
    using run_before [OF split q] by simp
  from servesD(5) [OF S this]
  have stored: "cl_Obj (after A C q) kd (ObjectKeyFromObject app) = Some o1" and seen: "in_cache X o1" by blast+
  have "run_trace X S r req =
      q @ GetObject CachedClient kd (ObjectKeyFromObject app) (Inr o1) # DeleteObject o1 reply # post"
    using split by (simp add: q)
  from run_place_ok [OF op this] stored have "key_of o1 = ObjectKeyFromObject app"
    unfolding cluster_ok_def by blast
  with at stored here [of q] have "o1 = obj" by (simp add: q)
  with seen obj show False by simp
qed

lemma deletion_keeps_unlabelled:
  assumes op: "operates X A S r C" and run: "run_trace X S r req = pre @ post"
    and app: "srv_GetApp S [] req = Inr app" "om_DeletionTimestamp (wa_Meta app) \<noteq> None"
    and obj: "cl_Obj C kd k = Some obj" "\<not> in_cache X obj"
  shows "cl_Obj (after A C pre) kd k = Some obj"
proof (rule run_keeps_place [OF run obj(1)])
  fix p e post
  assume split: "run_trace X S r req = p @ e # post"
    and here: "\<And>q. prefix q p \<Longrightarrow> cl_Obj (after A C q) kd k = Some obj"
  have "e \<noteq> ApplyObject cfg owner force reply" for cfg owner force reply
    using applied_member [of cfg owner force reply "run_trace X S r req"] split
      Reconcile_deleted_applies_nothing [OF app, of X r] by auto
  then show "(\<forall>cfg owner force. e = ApplyObject cfg owner force None \<longrightarrow> \<not> (kind_of cfg = kd \<and> key_of cfg = k)) \<and>
      (\<forall>o1. e = DeleteObject o1 None \<longrightarrow> \<not> (kind_of o1 = kd \<and> key_of o1 = k))"
    using unlabelled_not_deleted [OF op _ here obj(2)] split by metis
qed

end
