(* ===== verification/Warp_Gauges.thy ===== *)
theory Warp_Gauges
  imports Warp_Status
begin

text \<open>
  The gauges over the life of a WebApp: a run publishes series of the WebApp it was asked for only, so
  that forgetting the WebApp undoes everything its runs have published.
\<close>

section \<open>Whose series a run touches\<close>

text \<open>A metric call that is about this WebApp, or about no WebApp at all.\<close>

fun call_about :: "object_key \<Rightarrow> metric_call \<Rightarrow> bool" where
  "call_about k (MReplicas n ns v) \<longleftrightarrow> (ns, n) = k"
| "call_about k (MReadyReplicas n ns v) \<longleftrightarrow> (ns, n) = k"
| "call_about k (MSetCondition n ns t s) \<longleftrightarrow> (ns, n) = k"
| "call_about k (MForget n ns) \<longleftrightarrow> (ns, n) = k"
| "call_about k _ \<longleftrightarrow> True"

fun about :: "object_key \<Rightarrow> effect \<Rightarrow> bool" where
  "about k (Metric c) \<longleftrightarrow> call_about k c"
| "about k _ \<longleftrightarrow> True"

lemma about_client [simp]:
  "emits (client_GetApp S k') (about k)" "emits (client_Get S src kd k') (about k)"
  "emits (client_GetDeployment S src k') (about k)" "emits (client_ListPolicies S src) (about k)"
  "emits (client_GetNamespace S src n) (about k)" "emits (client_Update S a) (about k)"
  "emits (client_Apply S obj owner force) (about k)" "emits (client_Delete S obj) (about k)"
  "emits (client_PatchStatus S a b) (about k)"
  by (simp_all add: client_defs)

lemma emits_cases:
  "(\<And>a. emits (f a) P) \<Longrightarrow> (\<And>b. emits (g b) P) \<Longrightarrow> emits (case s of Inl a \<Rightarrow> f a | Inr b \<Rightarrow> g b) P"
  "emits m P \<Longrightarrow> (\<And>b. emits (h b) P) \<Longrightarrow> emits (case p of None \<Rightarrow> m | Some b \<Rightarrow> h b) P"
  "emits m P \<Longrightarrow> emits n P \<Longrightarrow> emits (if b then m else n) P"
  by (simp_all split: sum.split option.split)

lemmas about_rules = emits_bind emits_cases emits_return about_client

lemma about_adopt: "emits (assertAdoptable X S r app kd t) (about k)"
  unfolding assertAdoptable_def by (intro about_rules)

lemma about_delete: "emits (deleteOwned X S app kd) (about k)"
  unfolding deleteOwned_def by (intro about_rules)

lemma about_delete_all: "emits (delete_all X S app kds) (about k)"
  by (induction kds) (auto intro!: about_rules about_delete)

lemma about_sync: "emits (sync X S r app) (about k)"
proof -
  have logs: "emits (log_all m ws) (about k)" for m ws
    by (induction ws) auto
  have say: "emits (tell (RecordEvent a t u m)) (about k)" for a t u m by simp
  have cap: "emits (enforceScalePolicy X S r app) (about k)"
    unfolding enforceScalePolicy_def scale_verdict_def by (intro about_rules logs say)
  have prep: "emits (sync_prepare X S r app) (about k)"
    unfolding sync_prepare_def sync_replicas_def replicaHold_def by (intro about_rules cap about_adopt)
  have ing: "emits (syncIngress X S r app) (about k)"
    unfolding syncIngress_def apply_config_def by (intro about_rules about_adopt about_delete say)
  have hpa: "emits (syncHPA X S r app) (about k)"
    unfolding syncHPA_def apply_config_def
    by (cases "HPA app") (auto intro!: about_rules about_adopt about_delete)
  show ?thesis
    unfolding sync_def apply_config_def by (intro about_rules prep ing hpa)
qed

lemma about_updateStatus:
  assumes "ObjectKeyFromObject app = k"
  shows "emits (updateStatus X S app base dep) (about k)"
proof -
  have "emits (publish_conditions app cs) (about k)" for cs
    using assms by (induction cs) (auto simp: ObjectKeyFromObject_def)
  with assms show ?thesis
    unfolding updateStatus_def record_scaled_def Let_def
    by (auto intro!: about_rules simp: ObjectKeyFromObject_def)
qed

lemma about_finalize:
  assumes "ObjectKeyFromObject app = k"
  shows "emits (finalize X S app) (about k)"
  unfolding finalize_def using assms
  by (auto intro!: about_rules about_delete_all simp: ObjectKeyFromObject_def)

lemmas written_meta = failed.writes_meta deployed.writes_meta undeployed.writes_meta

lemma about_reconcile_failed:
  assumes "ObjectKeyFromObject app = k"
  shows "emits (reconcile_failed X S app base err) (about k)"
  unfolding reconcile_failed_def Let_def using assms
  by (auto intro!: about_rules about_updateStatus simp: written_meta ObjectKeyFromObject_def)

lemma about_reconcile_report:
  assumes "ObjectKeyFromObject app = k"
  shows "emits (reconcile_report X S app base dep) (about k)"
  unfolding reconcile_report_def record_reconciled_def Let_def using assms
  by (auto intro!: about_rules about_updateStatus simp: written_meta ObjectKeyFromObject_def split: option.split)

text \<open>The API server answers with the object that was asked for.\<close>

definition keyed_replies :: "server \<Rightarrow> bool" where
  "keyed_replies S \<longleftrightarrow>
     (\<forall>tr k a. srv_GetApp S tr k = Inr a \<longrightarrow> ObjectKeyFromObject a = k) \<and>
     (\<forall>tr a a'. srv_Update S tr a = Inr a' \<longrightarrow> ObjectKeyFromObject a' = ObjectKeyFromObject a)"

lemma run_about:
  assumes X: "finalizers_documented X" and S: "keyed_replies S"
  shows "\<forall>e \<in> set (run_trace X S r req). about req e"
proof -
  let ?A = "\<lambda>tr. \<forall>e \<in> set tr. about req e"
  have rest: "triple ?A m (\<lambda>_. ?A)" if "emits m (about req)" for m :: "'b run"
    using that unfolding triple_def emits_def by (metis UnE set_append)
  have get: "triple ?A (client_GetApp S req) (\<lambda>g tr. ?A tr \<and> (\<forall>a. g = Inr a \<longrightarrow> ObjectKeyFromObject a = req))"
  proof -
    have "ObjectKeyFromObject a = req" if "srv_GetApp S tr req = Inr a" for tr a
      using S that unfolding keyed_replies_def by blast
    then show ?thesis by (auto simp: triple_def client_GetApp_def)
  qed
  have ens: "triple ?A (ensure_finalizer X S base)
      (\<lambda>g tr. ?A tr \<and> (\<forall>a. g = Inr a \<longrightarrow> ObjectKeyFromObject a = req))"
    if "ObjectKeyFromObject base = req" for base
  proof -
    have "ObjectKeyFromObject (base\<lparr>wa_Meta := fst (AddFinalizer X (wa_Meta base) Finalizer)\<rparr>) = req"
      using X that by (simp add: finalizers_documented_def ObjectKeyFromObject_def)
    with S show ?thesis
      by (auto simp: triple_def ensure_finalizer_def client_Update_def keyed_replies_def simp del: Finalizer_def
          split: prod.split)
  qed
  have gate: "triple (\<lambda>tr. ?A tr \<and> B) m Q" if "B \<Longrightarrow> triple ?A m Q" for B and m :: "'b run" and Q
    using that by (auto simp: triple_def)
  have "triple ?A (reconcile X S r req) (\<lambda>_. ?A)"
    unfolding reconcile_def
    apply (rule triple_bind [OF get], rule gate, rule triple_sum)
     apply (intro rest emits_cases emits_bind emits_return, simp)
    apply (rule triple_if)
     apply (intro rest emits_bind about_finalize emits_return, simp)
    apply (rule triple_bind [OF ens], simp, rule gate, rule triple_sum)
     apply (rule triple_return, assumption)
    apply (intro rest about_rules about_sync about_reconcile_failed about_reconcile_report; simp)
    done
  then have "triple ?A (Reconcile X S r req) (\<lambda>_. ?A)"
    unfolding Reconcile_def Let_def by (rule triple_bind) (intro rest emits_bind emits_return; simp)
  from tripleD [OF this, of "[]"] show ?thesis by simp
qed

section \<open>Forgetting a WebApp\<close>

lemma registry_eqI:
  assumes "\<And>vs. fmlookup (rg_Replicas a) vs = fmlookup (rg_Replicas b) vs"
    "\<And>vs. fmlookup (rg_ReadyReplicas a) vs = fmlookup (rg_ReadyReplicas b) vs"
    "\<And>vs. fmlookup (rg_Conditions a) vs = fmlookup (rg_Conditions b) vs"
  shows "a = (b :: registry)"
  using assms by (cases a; cases b) (simp add: fmap_ext)

lemma Forget_call:
  assumes P: "prometheus_documented P" and c: "call_about (ns, n) c"
  shows "Forget P n ns (apply_metric P c rg) = Forget P n ns rg"
proof (rule registry_eqI)
  have upd: "fmlookup (WithLabelValuesSet P vs v s) ws = (if ws = vs then Some v else fmlookup s ws)" for vs v s ws
    using P by (simp add: prometheus_documented_def)
  have gauges: "rg_Replicas (metrics_SetCondition P n' m t s rg) = rg_Replicas rg"
    "rg_ReadyReplicas (metrics_SetCondition P n' m t s rg) = rg_ReadyReplicas rg" for n' m t s
    by (simp_all add: metrics_SetCondition_def Let_def)
  show "fmlookup (rg_Replicas (Forget P n ns (apply_metric P c rg))) vs = fmlookup (rg_Replicas (Forget P n ns rg)) vs" for vs
    using c by (cases c) (simp_all add: P upd gauges)
  show "fmlookup (rg_ReadyReplicas (Forget P n ns (apply_metric P c rg))) vs =
       fmlookup (rg_ReadyReplicas (Forget P n ns rg)) vs" for vs
    using c by (cases c) (simp_all add: P upd gauges)
  show "fmlookup (rg_Conditions (Forget P n ns (apply_metric P c rg))) vs =
       fmlookup (rg_Conditions (Forget P n ns rg)) vs" for vs
    using c by (cases c) (simp_all add: P)
qed

lemma Forget_calls:
  assumes "prometheus_documented P" "\<forall>c \<in> set cs. call_about (ns, n) c"
  shows "Forget P n ns (apply_metrics P cs rg) = Forget P n ns rg"
  using assms(2) by (induction cs arbitrary: rg) (simp_all add: Forget_call [OF assms(1)])

lemma set_metric_calls: "c \<in> set (metric_calls tr) \<Longrightarrow> Metric c \<in> set tr"
  by (induction tr rule: metric_calls.induct) auto

lemma Forget_run:
  assumes "finalizers_documented X" "keyed_replies S" "prometheus_documented P"
  shows "Forget P (snd req) (fst req) (apply_metrics P (metric_calls (run_trace X S r req)) rg)
    = Forget P (snd req) (fst req) rg"
proof (rule Forget_calls [OF assms(3)], rule ballI)
  fix c assume "c \<in> set (metric_calls (run_trace X S r req))"
  from set_metric_calls [OF this] run_about [OF assms(1,2), of r req]
  show "call_about (fst req, snd req) c" by fastforce
qed

text \<open>After a status was published, the gauge shows its replica count.\<close>

lemma fold_keeps:
  assumes "\<And>c rg. c \<in> set cs \<Longrightarrow> f (apply_metric P c rg) = f rg"
  shows "f (apply_metrics P cs rg) = f rg"
  using assms by (induction cs arbitrary: rg) simp_all

lemma published_replicas:
  assumes P: "prometheus_documented P"
  shows "fmlookup (rg_Replicas (apply_metrics P (metric_calls (status_metrics a)) rg)) [app_Name a, app_Namespace a]
    = Some (wt_Replicas (wa_Status a))"
proof -
  define rest where "rest = MReadyReplicas (app_Name a) (app_Namespace a) (wt_ReadyReplicas (wa_Status a)) #
    map (\<lambda>c. MSetCondition (app_Name a) (app_Namespace a) (co_Type c) (co_Status c)) (wt_Conditions (wa_Status a))"
  have calls: "metric_calls (status_metrics a) =
      MReplicas (app_Name a) (app_Namespace a) (wt_Replicas (wa_Status a)) # rest"
    by (simp add: status_metrics_def rest_def)
  have "rg_Replicas (apply_metrics P rest r) = rg_Replicas r" for r
    by (rule fold_keeps) (auto simp: rest_def metrics_SetCondition_def Let_def)
  then have "fmlookup (rg_Replicas (apply_metrics P (metric_calls (status_metrics a)) rg)) vs =
      fmlookup (WithLabelValuesSet P [app_Name a, app_Namespace a] (wt_Replicas (wa_Status a)) (rg_Replicas rg)) vs" for vs
    by (simp add: calls)
  with P show ?thesis by (simp add: prometheus_documented_def)
qed

end
