(* ===== verification/Warp_Worlds.thy ===== *)
theory Warp_Worlds
  imports Warp_Samples Warp_Draining Warp_Gauges
begin

text \<open>
  Concrete clusters and the servers that serve them: an API server that stores what it is given, answers
  every read from the current store, and fails no call. They show that the hypotheses about clusters can
  hold together.
\<close>

section \<open>A store\<close>

text \<open>
  Server-side apply replaces the object, but for the replica count of a Deployment: a count that is left
  out stays if another manager owns it, and is 1 otherwise. The managed fields record who gave a count.
\<close>

definition own_entry :: "int32 option \<Rightarrow> ManagedFieldsEntry" where
  "own_entry n = \<lparr>mf_Manager = FieldOwner, mf_FieldsV1 = map_option (\<lambda>_. ''f:replicas'') n\<rparr>"

definition stored_deployment :: "DeploymentObj option \<Rightarrow> DeploymentObj \<Rightarrow> DeploymentObj" where
  "stored_deployment old d =
     (let entries = (case old of None \<Rightarrow> [] | Some o1 \<Rightarrow> om_ManagedFields (dp_Meta o1));
          before = (case old of None \<Rightarrow> None | Some o1 \<Rightarrow>
            if ReplicasOwnedByOther std_k8s o1 then de_Replicas (dp_Spec o1) else None);
          count = (case de_Replicas (dp_Spec d) of Some n \<Rightarrow> n
            | None \<Rightarrow> (case before of Some n \<Rightarrow> n | None \<Rightarrow> 1))
      in d\<lparr>dp_Meta := (dp_Meta d)\<lparr>om_ManagedFields :=
             filter (\<lambda>e. mf_Manager e \<noteq> FieldOwner) entries @ [own_entry (de_Replicas (dp_Spec d))]\<rparr>,
           dp_Spec := (dp_Spec d)\<lparr>de_Replicas := Some count\<rparr>\<rparr>)"

fun as_deployment :: "object \<Rightarrow> DeploymentObj option" where
  "as_deployment (ODeployment d) = Some d"
| "as_deployment _ = None"

fun std_apply :: "object option \<Rightarrow> object \<Rightarrow> object" where
  "std_apply old (ODeployment d) = ODeployment (stored_deployment (Option.bind old as_deployment) d)"
| "std_apply old obj = obj"

definition std_api :: api where
  "std_api =
     \<lparr>api_Apply = std_apply, api_Delete = (\<lambda>obj. None),
      api_Store = (\<lambda>a. if om_DeletionTimestamp (wa_Meta a) \<noteq> None \<and> om_Finalizers (wa_Meta a) = []
        then None else Some a),
      api_Patch = (\<lambda>s a b. s\<lparr>wa_Status := wa_Status a\<rparr>)\<rparr>"

lemma owned_entries:
  "ReplicasOwnedByOther_loop X (filter (\<lambda>e. mf_Manager e \<noteq> FieldOwner) es @ [own_entry n])
     = ReplicasOwnedByOther_loop X es"
  by (induction es) (auto simp: own_entry_def split: option.split)

lemma stored_owned:
  "ReplicasOwnedByOther std_k8s (stored_deployment old d) \<longleftrightarrow>
     (\<exists>d0. old = Some d0 \<and> ReplicasOwnedByOther std_k8s d0)"
proof (cases old)
  case None
  then show ?thesis
    using owned_entries [of std_k8s "[]"] by (simp add: stored_deployment_def ReplicasOwnedByOther_def Let_def)
next
  case (Some d0)
  then show ?thesis
    using owned_entries by (simp add: stored_deployment_def ReplicasOwnedByOther_def Let_def)
qed

lemma stored_count:
  "de_Replicas (dp_Spec (stored_deployment old d)) =
     Some (case de_Replicas (dp_Spec d) of Some n \<Rightarrow> n
       | None \<Rightarrow> (case old of None \<Rightarrow> 1 | Some d0 \<Rightarrow>
           if ReplicasOwnedByOther std_k8s d0 then (case de_Replicas (dp_Spec d0) of Some n \<Rightarrow> n | None \<Rightarrow> 1) else 1))"
  by (simp add: stored_deployment_def Let_def split: option.split)

lemma stored_again: "stored_deployment (Some (stored_deployment old d)) d = stored_deployment old d"
proof -
  have entries: "filter (\<lambda>e. mf_Manager e \<noteq> FieldOwner) (om_ManagedFields (dp_Meta (stored_deployment old d))) =
      filter (\<lambda>e. mf_Manager e \<noteq> FieldOwner) (case old of None \<Rightarrow> [] | Some o1 \<Rightarrow> om_ManagedFields (dp_Meta o1))"
    by (simp add: stored_deployment_def Let_def own_entry_def)
  show ?thesis
    unfolding stored_deployment_def [of "Some (stored_deployment old d)"] Let_def option.case entries
    by (auto simp: stored_owned stored_count) (auto simp: stored_deployment_def Let_def split: option.splits)
qed

lemma stored_meta:
  "kind_of (std_apply old obj) = kind_of obj" "om_Labels (meta_of (std_apply old obj)) = om_Labels (meta_of obj)"
  "om_Name (meta_of (std_apply old obj)) = om_Name (meta_of obj)"
  "om_Namespace (meta_of (std_apply old obj)) = om_Namespace (meta_of obj)"
  "IsControlledBy std_k8s (meta_of (std_apply old obj)) = IsControlledBy std_k8s (meta_of obj)"
  by (cases obj; simp add: stored_deployment_def Let_def std_k8s_def)+

lemma std_apply_again: "std_apply (Some (std_apply old obj)) obj = std_apply old obj"
  by (cases obj) (simp_all add: stored_again)

lemma std_api_documented: "api_documented std_k8s std_api"
  by (simp add: api_documented_def std_api_def stored_meta std_apply_again key_of_def)

lemma std_deletes: "deletes_documented std_api"
  by (simp add: deletes_documented_def std_api_def)

lemma std_replicas: "replicas_documented std_k8s std_api"
  by (auto simp: replicas_documented_def std_api_def stored_owned stored_count)

lemma std_documented: "documented std_k8s std_api"
  by (simp add: documented_def std_codecs std_control std_finalizers std_api_documented)

text \<open>What a reader sees of a place: the live one everything, the cached one what the selector lets in.\<close>

definition seen :: "cluster \<Rightarrow> source \<Rightarrow> kind \<Rightarrow> object_key \<Rightarrow> object option" where
  "seen C src kd k = (case src of LiveReader \<Rightarrow> cl_Obj C kd k | CachedClient \<Rightarrow> visible std_k8s C kd k)"

definition cluster_server :: "cluster \<Rightarrow> server" where
  "cluster_server C =
     \<lparr>srv_GetApp = (\<lambda>tr k. case cl_App (after std_api C tr) k of Some a \<Rightarrow> Inr a | None \<Rightarrow> Inl (ApiNotFound ''webapp'')),
      srv_GetDeployment = (\<lambda>tr src k. case seen (after std_api C tr) src KDeployment k of
        Some (ODeployment d) \<Rightarrow> Inr d | _ \<Rightarrow> Inl (ApiNotFound ''deployment'')),
      srv_GetService = (\<lambda>tr src k. case seen (after std_api C tr) src KService k of
        Some (OService s) \<Rightarrow> Inr s | _ \<Rightarrow> Inl (ApiNotFound ''service'')),
      srv_GetIngress = (\<lambda>tr src k. case seen (after std_api C tr) src KIngress k of
        Some (OIngress i) \<Rightarrow> Inr i | _ \<Rightarrow> Inl (ApiNotFound ''ingress'')),
      srv_GetHPA = (\<lambda>tr src k. case seen (after std_api C tr) src KHPA k of
        Some (OHPA h) \<Rightarrow> Inr h | _ \<Rightarrow> Inl (ApiNotFound ''hpa'')),
      srv_ListPolicies = (\<lambda>tr src. Inr [sample_policy]),
      srv_GetNamespace = (\<lambda>tr src n. Inr fmempty),
      srv_Update = (\<lambda>tr a. Inr a),
      srv_Apply = (\<lambda>tr obj owner force. None),
      srv_Delete = (\<lambda>tr obj. None),
      srv_Patch = (\<lambda>tr a b. None)\<rparr>"

text \<open>The same on a day on which nothing can be deleted.\<close>

definition flaky_server :: "cluster \<Rightarrow> server" where
  "flaky_server C = (cluster_server C)\<lparr>srv_Delete := \<lambda>tr obj. Some (ApiFailure ''timeout'')\<rparr>"

definition kinds_ok :: "cluster \<Rightarrow> bool" where
  "kinds_ok C \<longleftrightarrow> (\<forall>kd k obj. cl_Obj C kd k = Some obj \<longrightarrow> kind_of obj = kd)"

lemma cluster_kinds: "cluster_ok C \<Longrightarrow> kinds_ok C"
  unfolding cluster_ok_def kinds_ok_def by blast

lemma kinds_okD: "kinds_ok C \<Longrightarrow> cl_Obj C kd k = Some obj \<Longrightarrow> kind_of obj = kd"
  unfolding kinds_ok_def by blast

lemma kinds_ok_same: "cl_Obj C' = cl_Obj C \<Longrightarrow> kinds_ok C' = kinds_ok C"
  unfolding kinds_ok_def by simp

lemma kinds_ok_put: "kinds_ok C \<Longrightarrow> (\<And>obj. x = Some obj \<Longrightarrow> kind_of obj = kd) \<Longrightarrow> kinds_ok (put_obj kd k x C)"
  by (auto simp: kinds_ok_def)

lemma kinds_ok_after: "kinds_ok C \<Longrightarrow> kinds_ok (after std_api C tr)"
proof (induction tr rule: rev_induct)
  case (snoc e tr)
  let ?C = "after std_api C tr"
  have "kinds_ok (effect_on std_api e ?C)"
  proof (cases e)
    case (ApplyObject obj owner force reply)
    have "kinds_ok (put_obj (kind_of obj) (key_of obj)
        (Some (std_apply (cl_Obj ?C (kind_of obj) (key_of obj)) obj)) ?C)"
      by (rule kinds_ok_put) (use snoc in \<open>simp_all add: stored_meta\<close>)
    with snoc ApplyObject show ?thesis by (cases reply) (simp_all add: std_api_def)
  next
    case (DeleteObject obj reply)
    have "kinds_ok (put_obj (kind_of obj) (key_of obj) None ?C)"
      by (rule kinds_ok_put) (use snoc in simp_all)
    moreover have "Option.bind x (\<lambda>obj. None) = None" for x :: "object option" by (cases x) simp_all
    ultimately show ?thesis using snoc DeleteObject by (cases reply) (simp_all add: std_api_def)
  next
    case (UpdateApp a reply)
    with snoc show ?thesis by (simp add: kinds_ok_same [OF effect_objects(1)])
  next
    case (PatchStatus a b reply)
    with snoc show ?thesis by (simp add: kinds_ok_same [OF effect_objects(2)])
  qed (use snoc in simp_all)
  then show ?case by simp
qed simp

lemma seen_typed:
  assumes "kinds_ok C" "seen C src kd k = Some obj"
  shows "kind_of obj = kd"
  using assms(2) kinds_okD [OF assms(1), of kd k]
  by (auto simp: seen_def visible_def split: source.splits option.splits if_splits)

lemma server_reads:
  assumes "kinds_ok C"
  shows "get_typed (cluster_server C) tr src kd k =
    (case seen (after std_api C tr) src kd k of
       Some obj \<Rightarrow> Inr obj
     | None \<Rightarrow> Inl (ApiNotFound (case kd of KDeployment \<Rightarrow> ''deployment'' | KService \<Rightarrow> ''service''
         | KIngress \<Rightarrow> ''ingress'' | KHPA \<Rightarrow> ''hpa'')))"
proof (cases "seen (after std_api C tr) src kd k")
  case None
  then show ?thesis by (cases kd) (simp_all add: cluster_server_def)
next
  case (Some obj)
  with seen_typed [OF kinds_ok_after [OF assms] Some] show ?thesis
    by (cases obj) (auto simp: cluster_server_def)
qed

lemma flaky_reads: "get_typed (flaky_server C) tr src kd k = get_typed (cluster_server C) tr src kd k"
  by (cases kd) (simp_all add: flaky_server_def)

lemma reads_serve:
  assumes ok: "kinds_ok C" and S: "\<And>tr src kd k. get_typed S tr src kd k = get_typed (cluster_server C) tr src kd k"
    "\<And>tr k. srv_GetApp S tr k = srv_GetApp (cluster_server C) tr k" "\<And>tr a. srv_Update S tr a = Inr a"
    "\<And>tr obj e. srv_Delete S tr obj = Some e \<Longrightarrow> \<not> IsNotFound e"
  shows "serves std_k8s std_api S C"
proof -
  have app: "srv_GetApp S tr k =
      (case cl_App (after std_api C tr) k of Some a \<Rightarrow> Inr a | None \<Rightarrow> Inl (ApiNotFound ''webapp''))" for tr k
    by (simp add: S(2) cluster_server_def)
  show ?thesis
    unfolding serves_def S(1) server_reads [OF ok] app
    using S(3,4) by (auto simp: seen_def visible_def split: option.split)
qed

lemma cluster_serves: "cluster_ok C \<Longrightarrow> serves std_k8s std_api (cluster_server C) C"
  by (rule reads_serve [OF cluster_kinds]) (simp_all add: cluster_server_def)

lemma flaky_serves: "cluster_ok C \<Longrightarrow> serves std_k8s std_api (flaky_server C) C"
  by (rule reads_serve [OF cluster_kinds]) (simp_all add: flaky_reads, auto simp: flaky_server_def cluster_server_def)

lemma cluster_faultless: "cluster_ok C \<Longrightarrow> faultless (cluster_server C)"
  using server_reads [OF cluster_kinds, of C]
  by (auto simp: faultless_def writes_fine_def split: option.splits) (auto simp: cluster_server_def split: option.splits)

lemma cluster_cap: "cap_fine X (cluster_server C) src sample_app" "cap_fine X (cluster_server C) src plain_app"
  using policy_met by (auto simp: cap_fine_def cluster_server_def)

section \<open>Clusters\<close>

text \<open>A new WebApp without objects.\<close>

definition new_cluster :: "WebApp \<Rightarrow> cluster" where
  "new_cluster app = \<lparr>cl_App = [ObjectKeyFromObject app \<mapsto> app], cl_Obj = (\<lambda>kd k. None)\<rparr>"

text \<open>A cluster in which one place is taken.\<close>

definition cluster_with :: "WebApp \<Rightarrow> object \<Rightarrow> cluster" where
  "cluster_with app obj = put_obj (kind_of obj) (key_of obj) (Some obj) (new_cluster app)"

lemma new_cluster_ok: "cluster_ok (new_cluster app)"
  by (auto simp: new_cluster_def cluster_ok_def split: if_splits)

lemma cluster_with_ok: "cluster_ok (cluster_with app obj)"
  unfolding cluster_with_def by (rule cluster_ok_put(1) [OF new_cluster_ok]) simp

lemma cluster_simps [simp]:
  "cl_App (new_cluster app) k = (if k = ObjectKeyFromObject app then Some app else None)"
  "cl_App (cluster_with app obj) = cl_App (new_cluster app)"
  "cl_Obj (new_cluster app) kd k = None"
  "cl_Obj (cluster_with app obj) kd k = (if kd = kind_of obj \<and> k = key_of obj then Some obj else None)"
  by (simp_all add: new_cluster_def cluster_with_def)

lemma sample_key [simp]:
  "ObjectKeyFromObject sample_app = sample_key" "ObjectKeyFromObject plain_app = sample_key"
  "ObjectKeyFromObject deleted_app = sample_key"
  by (simp_all add: ObjectKeyFromObject_def plain_app_def deleted_app_def)

text \<open>An Ingress of somebody else under the WebApp's name.\<close>

definition their_ingress :: IngressObj where
  "their_ingress =
     \<lparr>in_Meta = zero_ObjectMeta\<lparr>om_Name := ''shop'', om_Namespace := ''prod''\<rparr>, in_IngressClassName = None, in_Rules = []\<rparr>"

lemma their_simps [simp]:
  "key_of (OIngress their_ingress) = sample_key" "om_OwnerReferences (in_Meta their_ingress) = []"
  by (simp_all add: key_of_def their_ingress_def zero_ObjectMeta_def)

lemma theirs_foreign: "foreign std_k8s (cluster_with sample_app (OIngress their_ingress)) KIngress sample_key (OIngress their_ingress)"
  by (simp add: foreign_def std_k8s_def)

text \<open>The WebApp is being deleted, and the Ingress the operator made for it is still there.\<close>

definition made_ingress :: IngressObj where
  "made_ingress =
     \<lparr>in_Meta = zero_ObjectMeta\<lparr>om_Name := ''shop'', om_Namespace := ''prod'', om_Labels := Labels sample_app,
        om_OwnerReferences := OwnerRefs sample_app\<rparr>,
      in_IngressClassName = None, in_Rules = []\<rparr>"

definition closing_cluster :: cluster where
  "closing_cluster = cluster_with deleted_app (OIngress made_ingress)"

lemma made_simps [simp]:
  "key_of (OIngress made_ingress) = sample_key"
  "IsControlledBy std_k8s (in_Meta made_ingress) (wa_Meta deleted_app)"
  by (simp_all add: key_of_def made_ingress_def std_k8s_def deleted_app_def OwnerRefs_def)

lemma deleted_meta [simp]:
  "om_UID (wa_Meta deleted_app) = ''u1''" "om_DeletionTimestamp (wa_Meta deleted_app) = Some ''now''"
  "om_Finalizers (wa_Meta deleted_app) = [Finalizer]"
  by (simp_all add: deleted_app_def)

lemma closing_ok: "cluster_ok closing_cluster"
  by (simp add: closing_cluster_def cluster_with_ok)

lemma closing_app: "cl_App closing_cluster sample_key = Some deleted_app"
  by (simp add: closing_cluster_def)

lemma closing_operates:
  "operates std_k8s std_api (cluster_server closing_cluster) manager_reconciler closing_cluster"
  by (rule manager_operates [OF std_documented cluster_serves [OF closing_ok] closing_ok])

text \<open>A run there gets as far as the update.\<close>

lemma closing_updates:
  obtains pre a reply post where
    "run_trace std_k8s (cluster_server closing_cluster) manager_reconciler sample_key = pre @ UpdateApp a reply # post"
proof -
  let ?S = "cluster_server closing_cluster"
  have got: "srv_GetApp ?S [] sample_key = Inr deleted_app"
    by (rule served_app [OF cluster_serves [OF closing_ok] cluster_faultless [OF closing_ok] closing_app])
  obtain x tr where fin: "run_state (finalize std_k8s ?S deleted_app) [GetApp sample_key (Inr deleted_app)] = (x, tr)"
    by fastforce
  have run: "run_state (reconcile std_k8s ?S manager_reconciler sample_key) [] = ((no_requeue, x), tr)"
    using reconcile_deleted [OF got, of std_k8s manager_reconciler] fin by simp
  have has: "ContainsFinalizer std_k8s (wa_Meta deleted_app) Finalizer" by (simp add: std_k8s_def)
  from std_finalizers std_control std_api_documented std_deletes cluster_serves [OF closing_ok] closing_ok closing_app
    has refl fin
  show thesis
  proof (cases rule: finalize_steps)
    case failed
    with cluster_faultless [OF closing_ok] show thesis by simp
  next
    case (finished tr2 a)
    with Reconcile_run [OF run] that [of tr2 a] show thesis by simp
  qed
qed

text \<open>A Deployment the operator made for the WebApp, from which somebody has taken the labels.\<close>

definition bare_deployment :: DeploymentObj where
  "bare_deployment = (Deployment sample_app)
     \<lparr>dp_Meta := (dp_Meta (Deployment sample_app))\<lparr>om_Labels := fmempty\<rparr>,
      dp_Spec := (dp_Spec (Deployment sample_app))\<lparr>de_Replicas := Some 3\<rparr>\<rparr>"

definition bare_cluster :: cluster where
  "bare_cluster = cluster_with sample_app (ODeployment bare_deployment)"

lemma bare_simps [simp]:
  "key_of (ODeployment bare_deployment) = sample_key"
  "IsControlledBy std_k8s (dp_Meta bare_deployment) sample_meta"
  "om_Labels (dp_Meta bare_deployment) = fmempty"
  by (simp_all add: key_of_def bare_deployment_def std_k8s_def OwnerRefs_def Deployment_def)

text \<open>The first run for an autoscaled WebApp leaves a count to hold.\<close>

lemma new_hold:
  assumes "cl_Obj C1 KDeployment sample_key = target std_k8s std_api (new_cluster sample_app) sample_app KDeployment"
  shows "hold_of std_k8s C1 sample_app \<noteq> hold_of std_k8s (new_cluster sample_app) sample_app"
proof -
  have at: "cl_Obj C1 KDeployment (ObjectKeyFromObject sample_app) =
      target std_k8s std_api (new_cluster sample_app) sample_app KDeployment"
    using assms by simp
  obtain c d where d: "api_Apply std_api (cl_Obj (new_cluster sample_app) KDeployment
        (ObjectKeyFromObject sample_app)) (ODeployment c) = ODeployment d"
    and hold: "hold_of std_k8s C1 sample_app = held std_k8s d"
    by (rule hold_applied [OF std_api_documented std_selectors at]) blast
  from d have "d = stored_deployment None c" by (simp add: std_api_def)
  with hold have "hold_of std_k8s C1 sample_app \<noteq> None" by (simp add: held_def stored_owned stored_count)
  then show ?thesis by (simp add: hold_of_def visible_def)
qed

section \<open>A run that publishes\<close>

text \<open>A server that knows one WebApp, and answers for no other.\<close>

definition keyed_server :: server where
  "keyed_server = (calm_server sample_app)\<lparr>srv_GetApp :=
     \<lambda>tr k. if k = sample_key then Inr sample_app else Inl (ApiNotFound ''webapp'')\<rparr>"

lemma keyed_fine:
  "keyed_replies keyed_server" "srv_GetApp keyed_server tr sample_key = Inr sample_app"
  "cap_fine X keyed_server src sample_app" "writes_fine keyed_server" "srv_Patch keyed_server tr b c = None"
proof -
  show "keyed_replies keyed_server"
    unfolding keyed_replies_def by (auto simp: keyed_server_def calm_server_def split: if_splits)
  show "cap_fine X keyed_server src sample_app"
    using calm_cap(1) [of X sample_app src] by (simp add: cap_fine_def keyed_server_def)
qed (simp_all add: keyed_server_def calm_server_def writes_fine_def)

lemma keyed_reads: "reads_fine X keyed_server app kd"
  by (cases kd) (simp_all add: reads_fine_def keyed_server_def calm_server_def)

lemma keyed_publishes:
  "fmlookup (rg_Replicas (apply_metrics std_prometheus
     (metric_calls (run_trace std_k8s keyed_server live_reconciler sample_key)) rg)) [''shop'', ''prod''] \<noteq> None"
proof -
  have alive: "om_DeletionTimestamp (wa_Meta sample_app) = None" by simp
  obtain pre got ev a where run: "run_state (Reconcile std_k8s keyed_server live_reconciler sample_key) [] =
      ((no_requeue, None), pre @ GetObject CachedClient KDeployment (ObjectKeyFromObject sample_app)
         (map_sum id ODeployment got) # (ev @ status_metrics a) @
         [PatchStatus a sample_app None, Metric (MReconcileTotal ResultSuccess), Metric (MReconcileDuration ResultSuccess)])"
    and a: "conditions_documented std_k8s \<Longrightarrow> reports std_k8s sample_app (case got of Inl e \<Rightarrow> None | Inr d \<Rightarrow> Some d) a"
    by (rule Reconcile_fine [OF std_codecs sample_finalizer keyed_fine(2) alive keyed_fine(3,4) allI [OF keyed_reads]
        keyed_fine(5) valid_spec_buildable [OF sample_valid], where r = live_reconciler]) (rule that; blast)
  have "app_Name a = ''shop''" "app_Namespace a = ''prod''"
    using a [OF std_conditions] by (simp_all add: reports_def)
  with published_replicas [OF std_metrics, of a] show ?thesis by (simp add: run)
qed

text \<open>The same server when the Deployment is there, with three replicas.\<close>

definition running_deployment :: DeploymentObj where
  "running_deployment = bare_deployment\<lparr>dp_Status := (dp_Status bare_deployment)\<lparr>ds_Replicas := 3\<rparr>\<rparr>"

definition deployed_server :: server where
  "deployed_server = keyed_server\<lparr>srv_GetDeployment := \<lambda>tr src k. Inr running_deployment\<rparr>"

lemma deployed_fine:
  "srv_GetApp deployed_server [] sample_key = Inr sample_app"
  "srv_GetDeployment deployed_server tr src k = Inr running_deployment"
  "cap_fine X deployed_server src sample_app" "writes_fine deployed_server" "srv_Patch deployed_server tr b c = None"
  "ds_Replicas (dp_Status running_deployment) = 3" "IsControlledBy std_k8s (dp_Meta running_deployment) sample_meta"
  using keyed_fine(3) [of X src]
  by (simp_all add: deployed_server_def keyed_fine cap_fine_def writes_fine_def running_deployment_def)
    (simp add: keyed_server_def calm_server_def)

lemma deployed_reads: "reads_fine std_k8s deployed_server sample_app kd"
  using keyed_reads [of std_k8s sample_app kd]
  by (cases kd) (simp_all add: reads_fine_def deployed_server_def deployed_fine(7))

lemma deployed_sync:
  obtains tr1 where "run_state (sync std_k8s deployed_server live_reconciler sample_app)
    [GetApp sample_key (Inr sample_app)] = (None, tr1)"
  using sync_fine [OF std_codecs deployed_fine(3,4) allI [OF deployed_reads] valid_spec_buildable [OF sample_valid]]
  by blast

lemma deployed_patches:
  assumes "PatchStatus a b reply \<in> set (run_trace std_k8s deployed_server live_reconciler sample_key)"
  shows "reply = None"
proof -
  obtain pre post where "run_trace std_k8s deployed_server live_reconciler sample_key = (pre @ PatchStatus a b reply # post) @ []"
    using assms by (metis append_Nil2 in_set_conv_decomp)
  from run_before [OF this refl] show ?thesis by (simp add: deployed_fine)
qed

section \<open>A WebApp the schema admits\<close>

definition schema_app :: WebApp where
  "schema_app = schema_defaults sample_app"

lemma schema_app_schema: "webapp_schema schema_app"
  unfolding webapp_schema_def app_name_schema_iff
proof
  show "dns_label (app_Name schema_app) \<and> hd (app_Name schema_app) \<in> set lower_chars \<and> length (app_Name schema_app) \<le> 63"
    using sample_names(3) by (simp add: schema_app_def schema_defaults_def)
  have port: "port_schema (schema_port sample_port)"
    by (simp add: port_schema_def schema_port_def sample_port_def port_name_schema_iff sample_names)
  have path: "mount_path_schema ''/cache''"
    by (simp add: mount_path_schema_def mount_not_reserved_def mount_clean_def reserved_mounts_def HasPrefix_def
        HasSuffix_def Contains_def rune_count_def sublist_code suffix_to_prefix)
  have numeric: "\<not> full_match numeric_pattern ''shop.example.com''"
    unfolding numeric_pattern_iff by simp
  show "spec_schema (wa_Spec schema_app)"
    using port path numeric
    by (simp add: schema_app_def schema_defaults_def sample_spec_def sample_container_def spec_schema_def
        container_schema_def schema_container_def schema_scratch_def scratch_schema_def name_schema_iff sample_names
        mounts_unique_def autoscaling_schema_def schema_autoscaling_def positive_def subdomain_schema_iff
        rune_count_def fcard_fempty del: full_match.simps)
qed

lemma schema_app_valid: "valid_spec std_k8s schema_app"
  unfolding schema_valid_spec [OF std_names schema_app_schema [unfolded webapp_schema_def, THEN conjunct2]]
  by (simp add: webhook_rules_def schema_app_def schema_defaults_def sample_spec_def sample_container_def
      declared_ports_def schema_container_def schema_scratch_def schema_autoscaling_def TargetedResources_def
      fmlookup_of_list std_k8s_def)

end
