(* ===== verification/Warp_Rbac.thy ===== *)
theory Warp_Rbac
  imports Warp_Manager
begin

text \<open>
  The permissions: the RBAC markers of \<^verbatim>\<open>internal/controller/webapp_controller.go\<close>, from which the role of
  the operator is generated, against the calls its code makes. What a call needs is the API server's
  documented rule: a cached read is served by an informer, which lists and watches; server-side apply is a
  patch, and a create when the object is new; an owner reference that blocks the owner's deletion needs
  update on the owner's finalizers.
\<close>

type_synonym permission = "string \<times> string \<times> string"

text \<open>The groups, versions and kinds the controller stamps on what it applies.\<close>

fun gvk :: "kind \<Rightarrow> string \<times> string \<times> string" where
  "gvk KDeployment = (''apps'', ''v1'', ''Deployment'')"
| "gvk KService = ([], ''v1'', ''Service'')"
| "gvk KIngress = (''networking.k8s.io'', ''v1'', ''Ingress'')"
| "gvk KHPA = (''autoscaling'', ''v2'', ''HorizontalPodAutoscaler'')"

text \<open>The resource that serves a kind: the lower-case plural of the kind's name.\<close>

fun resource_of :: "kind \<Rightarrow> string" where
  "resource_of KDeployment = ''deployments''"
| "resource_of KService = ''services''"
| "resource_of KIngress = ''ingresses''"
| "resource_of KHPA = ''horizontalpodautoscalers''"

definition grants :: "string \<Rightarrow> string \<Rightarrow> string list \<Rightarrow> permission list" where
  "grants grp resource verbs = map (\<lambda>v. (grp, resource, v)) verbs"

definition owned_verbs :: "string list" where
  "owned_verbs = [''get'', ''list'', ''watch'', ''create'', ''update'', ''patch'', ''delete'']"

definition rbac_markers :: "permission list" where
  "rbac_markers =
     grants ''webapps.example.com'' ''webapps'' [''get'', ''list'', ''watch'', ''update'', ''patch'']
     @ grants ''webapps.example.com'' ''webapps/status'' [''get'', ''update'', ''patch'']
     @ grants ''webapps.example.com'' ''webapps/finalizers'' [''update'']
     @ grants ''apps'' ''deployments'' owned_verbs
     @ grants [] ''services'' owned_verbs
     @ grants ''networking.k8s.io'' ''ingresses'' owned_verbs
     @ grants ''autoscaling'' ''horizontalpodautoscalers'' owned_verbs
     @ grants ''webapps.example.com'' ''webapppolicies'' [''get'', ''list'', ''watch'']
     @ grants [] ''namespaces'' [''get'', ''list'', ''watch'']
     @ grants [] ''events'' [''create'', ''patch'']"

section \<open>What the calls need\<close>

definition kind_permission :: "kind \<Rightarrow> string \<Rightarrow> permission" where
  "kind_permission kd verb = (fst (gvk kd), resource_of kd, verb)"

definition read_verbs :: "source \<Rightarrow> string \<Rightarrow> string list" where
  "read_verbs src live = (case src of CachedClient \<Rightarrow> [''list'', ''watch''] | LiveReader \<Rightarrow> [live])"

fun needs :: "effect \<Rightarrow> permission list" where
  "needs (GetApp k r) = grants ''webapps.example.com'' ''webapps'' (read_verbs CachedClient ''get'')"
| "needs (GetObject src kd k r) = map (kind_permission kd) (read_verbs src ''get'')"
| "needs (ListPolicies src r) = grants ''webapps.example.com'' ''webapppolicies'' (read_verbs src ''list'')"
| "needs (GetNamespace src n r) = grants [] ''namespaces'' (read_verbs src ''get'')"
| "needs (UpdateApp a r) = grants ''webapps.example.com'' ''webapps'' [''update'']"
| "needs (ApplyObject obj owner force r) =
     map (kind_permission (kind_of obj)) [''patch'', ''create'']
     @ (if list_ex (\<lambda>o1. or_BlockOwnerDeletion o1 = Some True) (om_OwnerReferences (meta_of obj))
        then grants ''webapps.example.com'' ''webapps/finalizers'' [''update''] else [])"
| "needs (DeleteObject obj r) = [kind_permission (kind_of obj) ''delete'']"
| "needs (PatchStatus a b r) = grants ''webapps.example.com'' ''webapps/status'' [''patch'']"
| "needs (RecordEvent a t u m) = grants [] ''events'' [''create'', ''patch'']"
| "needs _ = []"

text \<open>The watches of the controller.\<close>

definition watch_needs :: "registration \<Rightarrow> permission list" where
  "watch_needs rn =
     grants ''webapps.example.com'' ''webapps'' [''list'', ''watch'']
     @ concat (map (\<lambda>kd. map (kind_permission kd) [''list'', ''watch'']) (rn_Owns rn))"

lemma needs_granted: "set (needs e) \<subseteq> set rbac_markers"
proof -
  have kinds: "kind_permission kd v \<in> set rbac_markers" if "v \<in> set owned_verbs" for kd v
    using that by (cases kd) (auto simp: kind_permission_def rbac_markers_def grants_def)
  show ?thesis
  proof (cases e)
    case (GetObject src kd k r)
    then show ?thesis
      using kinds by (cases src) (simp_all add: read_verbs_def owned_verbs_def)
  next
    case (ApplyObject obj owner force r)
    have "(''webapps.example.com'', ''webapps/finalizers'', ''update'') \<in> set rbac_markers"
      by (simp add: rbac_markers_def grants_def)
    with ApplyObject show ?thesis
      using kinds by (auto simp: owned_verbs_def grants_def)
  next
    case (DeleteObject obj r)
    then show ?thesis using kinds by (simp add: owned_verbs_def)
  next
    case (ListPolicies src r)
    then show ?thesis by (cases src) (simp_all add: read_verbs_def grants_def rbac_markers_def)
  next
    case (GetNamespace src n r)
    then show ?thesis by (cases src) (simp_all add: read_verbs_def grants_def rbac_markers_def)
  qed (simp_all add: read_verbs_def grants_def rbac_markers_def)
qed

lemma watches_granted: "set (watch_needs SetupWithManager) \<subseteq> set rbac_markers"
  by (simp add: watch_needs_def SetupWithManager_def grants_def rbac_markers_def kind_permission_def owned_verbs_def)

text \<open>What the applies stamp on an object names its kind.\<close>

lemma gvk_inj: "gvk kd = gvk kd' \<longleftrightarrow> kd = kd'"
  by (cases kd; cases kd') simp_all

end
