(* ===== verification/Spec2Isabelle.thy ===== *)
theory Spec2Isabelle
  imports Warp_Worlds Warp_Rbac
begin

text \<open>
  \<^bold>\<open>A verification library for the WebApp operator (Warp-CRD).\<close>

  The repository is a Kubernetes operator. A user writes a WebApp; the operator keeps a Deployment, a
  Service and, when asked, an Ingress and a HorizontalPodAutoscaler for it, and reports on them in the
  WebApp's status. WebAppPolicies restrict what a WebApp may ask for. The parts, and where they are
  modelled:

    \<^item> \<^theory_text>\<open>Warp_Prelude\<close>: Go's string functions, decimal printing, sorted map keys, index loops, and the
      lemmas about them that several parts share.
    \<^item> \<^theory_text>\<open>Warp_K8s\<close>: the Kubernetes values the program looks into, as records; field errors, Go errors and
      formatted texts as datatypes.
    \<^item> \<^theory_text>\<open>Warp_Api\<close>: \<^verbatim>\<open>api/v1alpha1/*_types.go\<close>, field by field, and the parameter \<open>k8s\<close>, the record of the
      library functions the program calls, with the predicates that state their documentation.
    \<^item> \<^theory_text>\<open>Warp_Pattern\<close>, \<^theory_text>\<open>Warp_Schema\<close>, \<^theory_text>\<open>Warp_Objects\<close>: the kubebuilder markers of the same files: regular
      expressions with an executable matcher and their languages; every bound, enumeration, CEL rule and
      default; and what the schema and the webhook together give the objects that are built.
    \<^item> \<^theory_text>\<open>Warp_Meta\<close>, \<^theory_text>\<open>Warp_Sha256\<close>, \<^theory_text>\<open>Warp_Deployment\<close>, \<^theory_text>\<open>Warp_Service\<close>, \<^theory_text>\<open>Warp_Ingress\<close>, \<^theory_text>\<open>Warp_HPA\<close>:
      \<^verbatim>\<open>internal/resources\<close>, the pure functions from a WebApp to the objects it stands for. SHA-256 is
      the standard library's, written out, because generated volume names contain part of a digest.
    \<^item> \<^theory_text>\<open>Warp_Policy\<close>: \<^verbatim>\<open>internal/policy/policy.go\<close>, the violations of one policy and the two evaluators.
    \<^item> \<^theory_text>\<open>Warp_Webhook\<close>, \<^theory_text>\<open>Warp_Admission\<close>: \<^verbatim>\<open>internal/webhook/v1alpha1\<close>, defaulting and validation, and
      what they guarantee.
    \<^item> \<^theory_text>\<open>Warp_Conditions\<close>: \<^verbatim>\<open>internal/controller/conditions.go\<close>, the status conditions.
    \<^item> \<^theory_text>\<open>Warp_Metrics\<close>, \<^theory_text>\<open>Warp_Gauges\<close>: \<^verbatim>\<open>internal/metrics/metrics.go\<close>, the collectors and the gauges over a
      parameter for the Prometheus client, and whose series a run touches.
    \<^item> \<^theory_text>\<open>Warp_Effects\<close>: the effects of a reconcile run, the API server as a parameter, and the logic for runs.
    \<^item> \<^theory_text>\<open>Warp_Controller\<close>: \<^verbatim>\<open>internal/controller/webapp_controller.go\<close> and \<^verbatim>\<open>apply.go\<close>, one definition per method.
    \<^item> \<^theory_text>\<open>Warp_Reconcile\<close>, \<^theory_text>\<open>Warp_Runs\<close>, \<^theory_text>\<open>Warp_Lifecycle\<close>, \<^theory_text>\<open>Warp_Outcomes\<close>, \<^theory_text>\<open>Warp_Progress\<close>,
      \<^theory_text>\<open>Warp_Status\<close>: what each operation has seen when it returns, what applies, deletes and updates
      are justified by, their order, when a run succeeds, and what it leaves in status and metrics.
    \<^item> \<^theory_text>\<open>Warp_Manager\<close>, \<^theory_text>\<open>Warp_Rbac\<close>: \<^verbatim>\<open>cmd/main.go\<close> with the registration functions of the controller, the
      webhooks, the metrics and the scheme, in the order they are called; and the RBAC markers.
    \<^item> \<^theory_text>\<open>Warp_Cluster\<close>, \<^theory_text>\<open>Warp_Histories\<close>, \<^theory_text>\<open>Warp_Convergence\<close>, \<^theory_text>\<open>Warp_Draining\<close>: the store the runs
      work on, many runs between the changes of others, the state one undisturbed run computes, and how
      a deletion comes to its end.
    \<^item> \<^theory_text>\<open>Warp_Samples\<close>, \<^theory_text>\<open>Warp_Worlds\<close>: concrete instances of every parameter, sample inputs, and clusters
      with servers that serve them.

  \<^bold>\<open>How state and effects are modelled.\<close> Objects are values: where Go writes through a pointer, the model
  returns the changed record. A reconcile run is a computation in the state monad over its trace, the
  list of its calls to the outside with their replies. The API server is a record of functions that may
  answer every call as it likes, depending on the whole trace; a theorem about all servers covers every
  cluster state, every failing call and every change by others between two calls. Reads through the
  manager's cache and through the uncached APIReader are different calls. Every recursion
  is structural or has its termination proof, so every definition is total, no fuel is needed, and a
  theorem about a run's result includes that there is one. The gauges are maps from label values to
  numbers, changed by the metric calls of a trace. The start of the manager is a list of setup calls, each
  with what main does when it fails, performed in an environment that decides which call fails.

  \<^bold>\<open>Clusters.\<close> Where a theorem is about what becomes of the objects, the server serves a cluster: it
  answers a read from the store at that moment, or with an error other than NotFound, and the cache shows
  the store as the label selector of \<^verbatim>\<open>cmd/main.go\<close> filters it, so a stale cache and a change by others
  within a run are not covered there. A call that is answered with an error has changed nothing. What a
  write makes of the store is the parameter \<open>api\<close>, with its documented behaviour in \<open>api_documented\<close>:
  an apply keeps kind, key and the labels it was given and is idempotent, and a WebApp that is being
  deleted goes with its last finalizer. Two theorems ask for more of it: \<open>deletes_documented\<close>, that an object
  outlives its deletion only marked and for its finalizers, and \<open>replicas_documented\<close>, how an apply treats
  the replica count and its owners. A server without faults is asked for only where the theorem is
  about an undisturbed run.

  \<^bold>\<open>The interfaces\<close> are locales, interpreted on the model's own definitions: \<open>port_table\<close> (the names
  admission checks are the names the Ingress backend is resolved in), \<open>object_builder\<close> (what ownership
  and the cache need of each builder; the four builders, and the configuration of each kind),
  \<open>policy_engine\<close> (the evaluation loop; the full and the scale evaluator), \<open>condition_writer\<close> (the three
  writers of conditions), \<open>effect_rule\<close> and \<open>app_rule\<close> (a rule about some effects of a run; one for
  applies, one for deletes, one for updates of the WebApp).

  \<^bold>\<open>What the properties below show.\<close> C1 to C8: what a run may write and only after what, what it never
  touches, and that it sees again what it wrote. C9 to C16: the state a run reaches, what a second
  run may still change and that a third changes nothing, that deletion terminates and what it may leave
  behind, how errors are answered, how far a failing sync can get, and where the replica hold has a gap.
  Deletion (C5, C11) and the replica hold (C16) share that gap: both look through the label-scoped cache,
  so an owned object from which the managed-by label was taken is not seen. C17 to C20: status and metrics. C21: the start-up. C22 to C31:
  admission, by the webhook and by the schema. C32 to C35: policies. C36 to C40: the objects that are
  built. The last section has further facts that are not numbered.
  Hypotheses on parameters are the documented behaviour of the library (\<open>conditions_documented\<close>,
  \<open>control_documented\<close>, \<open>finalizers_documented\<close>, \<open>selectors_documented\<close>, \<open>names_documented\<close>,
  \<open>quantities_documented\<close>, \<open>prometheus_documented\<close>), that the JSON round trip into an apply configuration
  loses nothing (\<open>codecs_faithful\<close>), or describe a server; \<^theory_text>\<open>Warp_Samples\<close> and \<^theory_text>\<open>Warp_Worlds\<close> have
  an instance of each.

  \<^bold>\<open>Bounds.\<close> The int32 and int64 values of the program are only copied, compared and printed, never
  added, so they are unbounded integers. SHA-256 works on 32-bit words and wraps as the standard says.

  \<^bold>\<open>Not modelled.\<close> The log lines of the start-up, the version text, the flags zap binds (a parameter), and
  what controller-runtime does with the options it is given. The markers that only shape generated files
  (print columns, subresources, webhook paths), the list types and the generated deep copies. The value
  observed by the duration histogram depends on the clock. The texts of errors and events are kept as the
  calls that format them. The JSON marshalling and the content of opaque fields (probes, affinity,
  tolerations, environment) are the libraries'. The work queue's retries are in \<open>attempts\<close> only as the
  sequence of runs they lead to.
\<close>

section \<open>The reconciler: what it may write\<close>

text \<open>
  C1. Whatever the API server answers and however the cluster changes during the run, each server-side
  apply is made with the operator's field owner and force, and only after an uncached read (through the
  configured API reader) of the object's name found nothing or an object that the synced WebApp controls.
\<close>

theorem apply_only_adoptable:
  assumes "codecs_faithful X"
    and "run_trace X S r req = pre @ ApplyObject obj owner force reply # post"
  shows "owner = FieldOwner \<and> force \<and>
    (\<exists>app. synced_app X app pre \<and> adopted X (reader r) app (kind_of obj) pre)"
  using run_applies [OF assms] by (auto simp: apply_justified_def)

theorem apply_only_adoptable_witness:
  "\<exists>pre obj owner force reply post.
     run_trace std_k8s (calm_server sample_app) live_reconciler sample_key
       = pre @ ApplyObject obj owner force reply # post \<and> kind_of obj = KIngress \<and>
     (\<exists>app. synced_app std_k8s app pre \<and> adopted std_k8s LiveReader app KIngress pre)"
proof -
  obtain pre obj owner force post
    where *: "run_trace std_k8s (calm_server sample_app) live_reconciler sample_key =
        pre @ ApplyObject obj owner force None # post" "kind_of obj = KIngress"
    by (rule sample_run [of KIngress]) simp_all
  from apply_only_adoptable [OF std_codecs *(1)] * show ?thesis
    by (metis reader_live)
qed

text \<open>
  C2. Nothing is applied before the replica cap was checked in the same run: the policies were listed
  uncached, and if there are any, the labels of the WebApp's namespace were read and no policy in force
  there that enforces forbids the WebApp's scale. A WebApp without a port is never applied at all.
\<close>

theorem apply_only_within_cap:
  assumes "codecs_faithful X"
    and "run_trace X S r req = pre @ ApplyObject obj owner force reply # post"
  shows "\<exists>app ps. synced_app X app pre \<and> declared_ports app \<noteq> [] \<and>
    ListPolicies (reader r) (Inr ps) \<in> set pre \<and>
    (ps = [] \<or> (\<exists>ns. GetNamespace (reader r) (app_Namespace app) (Inr ns) \<in> set pre \<and>
       (\<forall>p \<in> set ps. in_force X ns p \<longrightarrow> enforces p \<longrightarrow> replicas_comply app p)))"
proof -
  obtain app where app: "synced_app X app pre" and j: "apply_justified X (reader r) app pre obj"
    using run_applies [OF assms] by blast
  from j have ports: "declared_ports app \<noteq> []" and cap: "scale_cleared X (reader r) app pre"
    by (auto simp: apply_justified_def sync_allowed_def servicePorts_Nil_iff)
  from cap show ?thesis
    unfolding scale_cleared_def using app ports by (elim exE conjE) (intro exI conjI; assumption)
qed

theorem apply_only_within_cap_witness:
  "\<exists>pre obj owner force reply post app ps.
     run_trace std_k8s (calm_server sample_app) live_reconciler sample_key
       = pre @ ApplyObject obj owner force reply # post \<and> kind_of obj = KDeployment \<and>
     synced_app std_k8s app pre \<and> ListPolicies LiveReader (Inr ps) \<in> set pre"
proof -
  obtain pre obj owner force post
    where *: "run_trace std_k8s (calm_server sample_app) live_reconciler sample_key =
        pre @ ApplyObject obj owner force None # post" "kind_of obj = KDeployment"
    by (rule sample_run [of KDeployment]) simp_all
  from apply_only_within_cap [OF std_codecs *(1)] * show ?thesis
    by (metis reader_live)
qed

text \<open>
  C3. What is applied is what the WebApp stands for: the Service, Ingress or HPA its builder returns, the
  latter two only when wanted, or the Deployment its builder returns. With an HPA, the replica count of
  that Deployment is the live one while no other manager owns the field, and left out otherwise.
\<close>

theorem applied_objects_are_desired:
  assumes "codecs_faithful X"
    and "run_trace X S r req = pre @ ApplyObject obj owner force reply # post"
  shows "\<exists>app. synced_app X app pre \<and>
    (case obj of
       ODeployment d \<Rightarrow>
         (if WantsHPA app
          then (\<exists>h. hold_seen X app h pre \<and> d = with_replicas h (Deployment app)) else d = Deployment app)
     | OService s \<Rightarrow> s = Service app
     | OIngress i \<Rightarrow> WantsIngress app \<and> Ingress app = Inr i
     | OHPA h \<Rightarrow> WantsHPA app \<and> HPA app = HPA_ok h)"
proof -
  obtain app where app: "synced_app X app pre" and j: "desired X app pre obj"
    using run_applies [OF assms] by (metis apply_justified_def)
  from j have "case obj of
      ODeployment d \<Rightarrow> (if WantsHPA app
          then (\<exists>h. hold_seen X app h pre \<and> d = with_replicas h (Deployment app)) else d = Deployment app)
     | OService s \<Rightarrow> s = Service app
     | OIngress i \<Rightarrow> WantsIngress app \<and> Ingress app = Inr i
     | OHPA h \<Rightarrow> WantsHPA app \<and> HPA app = HPA_ok h"
    by (cases obj) simp_all
  with app show ?thesis by blast
qed

theorem applied_objects_are_desired_witness:
  "\<exists>pre obj owner force reply post app.
     run_trace std_k8s (calm_server sample_app) live_reconciler sample_key
       = pre @ ApplyObject obj owner force reply # post \<and> synced_app std_k8s app pre \<and>
     (\<exists>h. obj = OHPA h \<and> HPA app = HPA_ok h)"
proof -
  obtain pre obj owner force post
    where *: "run_trace std_k8s (calm_server sample_app) live_reconciler sample_key =
        pre @ ApplyObject obj owner force None # post" and "kind_of obj = KHPA"
    by (rule sample_run [of KHPA]) simp_all
  then obtain h where h: "obj = OHPA h" by (cases obj) simp_all
  from applied_objects_are_desired [OF std_codecs *] h have
    "\<exists>app. synced_app std_k8s app pre \<and> HPA app = HPA_ok h" by auto
  with * h show ?thesis by blast
qed

text \<open>
  C4. The reconciler deletes only what is its own and no longer wanted: directly before each delete it
  read that very object under the WebApp's name and found the WebApp to control it, and the kind is one
  the WebApp has no use for (an Ingress without a domain, an HPA without autoscaling, or anything once
  the WebApp is being deleted).
\<close>

theorem deletes_only_own_and_unwanted:
  assumes "run_trace X S r req = pre @ DeleteObject obj reply # post"
  shows "\<exists>app. read_or_synced X app pre \<and> unwanted app (kind_of obj) \<and>
    IsControlledBy X (meta_of obj) (wa_Meta app) \<and>
    pre \<noteq> [] \<and> last pre = GetObject CachedClient (kind_of obj) (ObjectKeyFromObject app) (Inr obj)"
  using run_deletes [OF assms] by auto

theorem deletes_only_own_and_unwanted_witness:
  "\<exists>app. read_or_synced std_k8s app (take 2 (run_trace std_k8s closing_server live_reconciler sample_key)) \<and>
     unwanted app KIngress \<and> IsControlledBy std_k8s (in_Meta owned_ingress) (wa_Meta app)"
  using deletes_only_own_and_unwanted
    [of std_k8s closing_server live_reconciler sample_key
      "take 2 (run_trace std_k8s closing_server live_reconciler sample_key)"
      "OIngress owned_ingress" None "drop 3 (run_trace std_k8s closing_server live_reconciler sample_key)"]
  by (auto simp: closing_run)

text \<open>
  C5. The finalizer goes last. The reconciler rewrites the WebApp in two cases only. If it is not being
  deleted, the run adds the finalizer that was missing. If it is, the run removes the finalizer, and at
  that moment the cluster holds, at the WebApp's name, no object the WebApp controls except one whose
  deletion was accepted and that waits for finalizers of others, and one that carries no managed-by label,
  which the operator's cache does not show and which is as it was when the run began.
\<close>

theorem finalizer_goes_last:
  assumes "operates X A S r C" "deletes_documented A"
    and "run_trace X S r req = pre @ UpdateApp a reply # post"
  shows "\<exists>app. cl_App C req = Some app \<and>
    (if om_DeletionTimestamp (wa_Meta app) = None
     then AddFinalizer X (wa_Meta app) Finalizer = (wa_Meta a, True) \<and> a = app\<lparr>wa_Meta := wa_Meta a\<rparr>
     else a = app\<lparr>wa_Meta := RemoveFinalizer X (wa_Meta app) Finalizer\<rparr> \<and>
          ContainsFinalizer X (wa_Meta app) Finalizer \<and>
          (\<forall>kd obj. cl_Obj (after A C pre) kd req = Some obj \<longrightarrow> IsControlledBy X (meta_of obj) (wa_Meta app) \<longrightarrow>
             terminating obj \<or> \<not> in_cache X obj \<and> cl_Obj C kd req = Some obj))"
proof -
  obtain app where app: "first_read app pre" "update_ok X app pre (UpdateApp a reply)"
    by (rule run_updates [OF assms(3)])
  have got: "srv_GetApp S [] req = Inr app" by (rule first_read_served [OF assms(3) app(1)])
  then have at: "cl_App C req = Some app"
    using servesD(1) [of X A S C "[]" req app] assms(1) by (simp add: operates_def)
  have "terminating obj \<or> \<not> in_cache X obj \<and> cl_Obj C kd req = Some obj"
    if "om_DeletionTimestamp (wa_Meta app) \<noteq> None" "cl_Obj (after A C pre) kd req = Some obj"
      "IsControlledBy X (meta_of obj) (wa_Meta app)" for kd obj
    using run_finalizes [OF assms at got that(1)] cleared_thinned [OF _ _ that(2,3)]
    unfolding under_way_def by blast
  with at app(2) show ?thesis by (intro exI [of _ app]) (simp del: Finalizer_def)
qed

theorem finalizer_goes_last_witness:
  "\<exists>pre a reply post. run_trace std_k8s (cluster_server closing_cluster) manager_reconciler sample_key =
      pre @ UpdateApp a reply # post \<and>
    wa_Meta a = RemoveFinalizer std_k8s (wa_Meta deleted_app) Finalizer \<and>
    (\<forall>kd obj. cl_Obj (after std_api closing_cluster pre) kd sample_key = Some obj \<longrightarrow>
       IsControlledBy std_k8s (meta_of obj) (wa_Meta deleted_app) \<longrightarrow>
       terminating obj \<or> \<not> in_cache std_k8s obj \<and> cl_Obj closing_cluster kd sample_key = Some obj)"
proof -
  obtain pre a reply post where run:
    "run_trace std_k8s (cluster_server closing_cluster) manager_reconciler sample_key = pre @ UpdateApp a reply # post"
    by (rule closing_updates)
  from finalizer_goes_last [OF closing_operates std_deletes run]
  have "a = deleted_app\<lparr>wa_Meta := RemoveFinalizer std_k8s (wa_Meta deleted_app) Finalizer\<rparr> \<and>
    (\<forall>kd obj. cl_Obj (after std_api closing_cluster pre) kd sample_key = Some obj \<longrightarrow>
       IsControlledBy std_k8s (meta_of obj) (wa_Meta deleted_app) \<longrightarrow>
       terminating obj \<or> \<not> in_cache std_k8s obj \<and> cl_Obj closing_cluster kd sample_key = Some obj)"
    by (simp add: closing_app del: Finalizer_def)
  with run show ?thesis by (intro exI [of _ pre] exI [of _ a] exI [of _ reply] exI [of _ post]) simp
qed

text \<open>
  C6. The operator never touches what is not its own. In a cluster where an object does not have the
  WebApp of its name as controller, that object stays exactly as it is through every history: runs of the
  reconciler for any WebApps, on servers that may fail any call, between edits, creations and removals of
  WebApps by users and arbitrary changes to all other objects.
\<close>

theorem foreign_objects_survive:
  assumes "documented X A" "cluster_ok C0" "foreign X C0 kd k obj" "history X A kd k C0 C"
  shows "cl_Obj C kd k = Some obj"
  using history_invariant [OF assms(4,1,2,3)] by (simp add: foreign_def)

theorem foreign_objects_survive_witness:
  "cl_Obj (after std_api (cluster_with sample_app (OIngress their_ingress))
     (run_trace std_k8s (cluster_server (cluster_with sample_app (OIngress their_ingress)))
        manager_reconciler sample_key)) KIngress sample_key = Some (OIngress their_ingress)"
  by (rule foreign_objects_survive
      [OF std_documented cluster_with_ok theirs_foreign history_run [OF history_start cluster_serves [OF cluster_with_ok]]])

text \<open>
  C7. Whatever a run applies, the operator will see again: the object carries the label that the manager's
  informer caches select by, it is stored under the key of the WebApp it was made for, exactly the WebApps
  with that UID control it, and its kind is one the controller watches.
\<close>

theorem applied_objects_are_watched:
  assumes "codecs_faithful X" "selectors_documented X" "control_documented X"
    and "run_trace X S r req = pre @ ApplyObject obj owner force reply # post"
  shows "in_cache X obj \<and> kind_of obj \<in> set (rn_Owns SetupWithManager) \<and>
    (\<exists>app. synced_app X app pre \<and> key_of obj = ObjectKeyFromObject app \<and>
       (\<forall>other. IsControlledBy X (meta_of obj) other \<longleftrightarrow> om_UID other = app_UID app))"
proof -
  obtain app where app: "synced_app X app pre" "desired X app pre obj"
    using run_applies [OF assms(1,4)] by (metis apply_justified_def)
  have "kind_of obj \<in> set (rn_Owns SetupWithManager)"
    by (cases "kind_of obj") (simp_all add: SetupWithManager_def)
  with app desired_cached [OF assms(2) app(2)] desired_controlled [OF assms(3) app(2)] desired_meta(2) [OF app(2)]
  show ?thesis by (auto simp: key_of_def simp del: desired.simps)
qed

theorem applied_objects_are_watched_witness:
  "\<exists>pre obj owner force reply post.
     run_trace std_k8s (calm_server sample_app) live_reconciler sample_key
       = pre @ ApplyObject obj owner force reply # post \<and> kind_of obj = KHPA \<and> in_cache std_k8s obj"
proof -
  obtain pre obj owner force post
    where *: "run_trace std_k8s (calm_server sample_app) live_reconciler sample_key =
        pre @ ApplyObject obj owner force None # post" "kind_of obj = KHPA"
    by (rule sample_run [of KHPA]) simp_all
  from applied_objects_are_watched [OF std_codecs std_selectors std_control *(1)] * show ?thesis by blast
qed

text \<open>
  C8. The applies of a run come in the order Deployment, Service, Ingress, HPA, each kind at most once,
  and the run stops applying at the first failure: all but the last apply succeeded.
\<close>

theorem applies_in_order:
  "orderly (applied (run_trace X S r req))"
  using tripleD [OF Reconcile_log] by simp

section \<open>The reconciler: progress and answers\<close>

text \<open>
  C9. One undisturbed run computes the state the operator aims at. On a server that serves the cluster and
  fails no call, a run for a buildable WebApp within its cap, whose wanted objects may be taken, succeeds
  and leaves at the WebApp's name, for each kind, the apply of the configuration to what was there when
  the kind is wanted, and otherwise what a deletion leaves when the operator sees and owns the object;
  every other place is as before.
\<close>

theorem run_reaches_converged:
  assumes "operates X A S r C" "faultless S" "cap_fine X S LiveReader app"
    and "cl_App C req = Some app" "om_DeletionTimestamp (wa_Meta app) = None" "buildable app"
    and "\<And>kd. config X C app kd \<noteq> None \<Longrightarrow> claimed X C app kd"
  shows "fst (run_state (Reconcile X S r req) []) = (no_requeue, None) \<and>
    (\<forall>kd k. cl_Obj (after A C (run_trace X S r req)) kd k =
       (if k = ObjectKeyFromObject app then target X A C app kd else cl_Obj C kd k))"
  using run_converges(1,2) [OF assms] by (simp add: converged_simps)

theorem run_reaches_converged_witness:
  "cl_Obj (after std_api (new_cluster sample_app)
     (run_trace std_k8s (cluster_server (new_cluster sample_app)) manager_reconciler sample_key)) KService sample_key
   = Some (OService (Service sample_app))"
proof -
  have op: "operates std_k8s std_api (cluster_server (new_cluster sample_app)) manager_reconciler (new_cluster sample_app)"
    by (rule manager_operates [OF std_documented cluster_serves [OF new_cluster_ok] new_cluster_ok])
  from run_reaches_converged [OF op cluster_faultless [OF new_cluster_ok] cluster_cap(1), of sample_key]
    valid_spec_buildable [OF sample_valid]
  show ?thesis by (simp add: claimed_def target_def std_api_def)
qed

text \<open>
  C10. The reconciler settles. After an undisturbed run a second one changes at most the Deployment, and
  that only under autoscaling, when the replica count to hold is no longer the one the first run held: for
  a new WebApp the first run sends no count, the API server defaults it, and the second run holds the
  default. A third run changes no object at all.
\<close>

theorem reconciler_settles:
  assumes "operates X A S r C" "faultless S" "cap_fine X S LiveReader app"
    and "cl_App C req = Some app" "om_DeletionTimestamp (wa_Meta app) = None" "buildable app"
    and "\<And>kd. config X C app kd \<noteq> None \<Longrightarrow> claimed X C app kd"
    and "C1 = after A C (run_trace X S r req)"
    and "serves X A S2 C1" "faultless S2" "cap_fine X S2 LiveReader app"
    and "C2 = after A C1 (run_trace X S2 r req)"
    and "serves X A S3 C2" "faultless S3" "cap_fine X S3 LiveReader app"
    and "selectors_documented X" "replicas_documented X A"
  shows "(\<forall>kd k. cl_Obj C2 kd k = cl_Obj C1 kd k \<or>
      kd = KDeployment \<and> k = req \<and> WantsHPA app \<and> hold_of X C1 app \<noteq> hold_of X C app) \<and>
    cl_Obj (after A C2 (run_trace X S3 r req)) = cl_Obj C2"
proof (intro conjI allI)
  note again = second_run [OF assms(1-11)]
  fix kd k
  show "cl_Obj C2 kd k = cl_Obj C1 kd k \<or>
      kd = KDeployment \<and> k = req \<and> WantsHPA app \<and> hold_of X C1 app \<noteq> hold_of X C app"
  proof (cases "kd = KDeployment \<and> WantsHPA app \<and> hold_of X C1 app \<noteq> hold_of X C app")
    case True
    then show ?thesis using again(1) assms(12) by simp
  next
    case False
    then have "config X C1 app kd = config X C app kd" by (cases kd) auto
    then show ?thesis using again(2) assms(12) by simp
  qed
qed (rule runs_settle [OF assms])

theorem reconciler_settles_witness:
  "WantsHPA sample_app \<and>
   (\<exists>C1 C2. C1 = after std_api (new_cluster sample_app)
       (run_trace std_k8s (cluster_server (new_cluster sample_app)) manager_reconciler sample_key) \<and>
     C2 = after std_api C1 (run_trace std_k8s (cluster_server C1) manager_reconciler sample_key) \<and>
     hold_of std_k8s C1 sample_app \<noteq> hold_of std_k8s (new_cluster sample_app) sample_app \<and>
     cl_Obj C2 KService sample_key = cl_Obj C1 KService sample_key \<and>
     cl_Obj (after std_api C2 (run_trace std_k8s (cluster_server C2) manager_reconciler sample_key)) = cl_Obj C2)"
proof -
  let ?C = "new_cluster sample_app" and ?S = "cluster_server (new_cluster sample_app)"
  define C1 where "C1 = after std_api ?C (run_trace std_k8s ?S manager_reconciler sample_key)"
  define C2 where "C2 = after std_api C1 (run_trace std_k8s (cluster_server C1) manager_reconciler sample_key)"
  have op: "operates std_k8s std_api ?S manager_reconciler ?C"
    by (rule manager_operates [OF std_documented cluster_serves [OF new_cluster_ok] new_cluster_ok])
  have ok1: "cluster_ok C1"
    unfolding C1_def by (rule run_place_ok [OF op, of sample_key _ "[]"]) simp
  have op1: "operates std_k8s std_api (cluster_server C1) manager_reconciler C1"
    by (rule manager_operates [OF std_documented cluster_serves [OF ok1] ok1])
  have ok2: "cluster_ok C2"
    unfolding C2_def by (rule run_place_ok [OF op1, of sample_key _ "[]"]) simp
  have claims: "claimed std_k8s ?C sample_app kd" for kd by (simp add: claimed_def)
  note fine = cluster_faultless [OF new_cluster_ok] cluster_cap(1)
  have stored: "cl_Obj C1 KDeployment sample_key = target std_k8s std_api ?C sample_app KDeployment"
    using run_converges(2) [OF op fine, of sample_key] valid_spec_buildable [OF sample_valid] claims
    by (simp add: C1_def converged_simps)
  have "hold_of std_k8s C1 sample_app \<noteq> hold_of std_k8s ?C sample_app"
    using stored by (rule new_hold)
  moreover note reconciler_settles [OF op fine _ _ valid_spec_buildable [OF sample_valid] claims C1_def
      cluster_serves [OF ok1] cluster_faultless [OF ok1] cluster_cap(1) C2_def
      cluster_serves [OF ok2] cluster_faultless [OF ok2] cluster_cap(1) std_selectors std_replicas]
  ultimately show ?thesis using C1_def C2_def sample_wants by simp blast
qed

text \<open>
  C11. Deletion terminates. However many runs failed and wherever they failed, once one run of a sequence
  is undisturbed, the operator's finalizer is off the deleted WebApp, and when it was the only finalizer
  the WebApp is gone. Of the objects the WebApp controls, only those are left that wait for finalizers of
  others after an accepted deletion, and those that carried no managed-by label from the start, which the
  operator's cache does not show it. Runs that follow keep it so.
\<close>

theorem deletion_terminates:
  assumes "documented X A" "deletes_documented A" "all_serve X A r req Ss C" "cluster_ok C"
    and "cl_App C req = Some app" "om_DeletionTimestamp (wa_Meta app) \<noteq> None"
    and "Finalizer \<in> set (om_Finalizers (wa_Meta app))"
    and "\<exists>S \<in> set Ss. faultless S" and "C' = attempts X A r req Ss C"
  shows "(\<forall>app'. cl_App C' req = Some app' \<longrightarrow> Finalizer \<notin> set (om_Finalizers (wa_Meta app'))) \<and>
    (om_Finalizers (wa_Meta app) = [Finalizer] \<longrightarrow> cl_App C' req = None) \<and>
    (\<forall>kd obj. cl_Obj C' kd req = Some obj \<longrightarrow> IsControlledBy X (meta_of obj) (wa_Meta app) \<longrightarrow>
       terminating obj \<or> \<not> in_cache X obj \<and> cl_Obj C kd req = Some obj)"
proof -
  have X: "finalizers_documented X" "control_documented X" "api_documented X A"
    using assms(1) by (simp_all add: documented_def)
  note attempts_drain [OF X assms(2,3) draining_start [OF assms(4-7)]]
  with assms(8,9) have drained: "draining X req (wa_Meta app) C'" "thinned C C'" "let_go X req (wa_Meta app) C'"
    by blast+
  have "terminating obj \<or> \<not> in_cache X obj \<and> cl_Obj C kd req = Some obj"
    if "cl_Obj C' kd req = Some obj" "IsControlledBy X (meta_of obj) (wa_Meta app)" for kd obj
    using cleared_thinned [OF _ drained(2) that] drained(3) unfolding let_go_def by blast
  moreover have "cl_App C' req = None" if "om_Finalizers (wa_Meta app) = [Finalizer]"
    by (rule let_go_gone [OF drained(1,3)]) (simp add: others_of_def that)
  ultimately show ?thesis using drained(3) unfolding let_go_def by blast
qed

theorem deletion_terminates_witness:
  "\<exists>Ss. hd Ss = flaky_server closing_cluster \<and>
     cl_App (attempts std_k8s std_api manager_reconciler sample_key Ss closing_cluster) sample_key = None"
proof -
  let ?S1 = "flaky_server closing_cluster"
  define C1 where "C1 = after std_api closing_cluster (run_trace std_k8s ?S1 manager_reconciler sample_key)"
  have op: "operates std_k8s std_api ?S1 manager_reconciler closing_cluster"
    by (rule manager_operates [OF std_documented flaky_serves [OF closing_ok] closing_ok])
  have ok1: "cluster_ok C1"
    unfolding C1_def by (rule run_place_ok [OF op, of sample_key _ "[]"]) simp
  have "all_serve std_k8s std_api manager_reconciler sample_key [?S1, cluster_server C1] closing_cluster"
    using flaky_serves [OF closing_ok] cluster_serves [OF ok1] by (simp add: C1_def)
  moreover have "\<exists>S \<in> set [?S1, cluster_server C1]. faultless S"
    using cluster_faultless [OF ok1] by simp
  ultimately have "cl_App (attempts std_k8s std_api manager_reconciler sample_key [?S1, cluster_server C1] closing_cluster)
      sample_key = None"
    using deletion_terminates [OF std_documented std_deletes _ closing_ok closing_app _ _ _ refl]
    by (simp del: attempts.simps all_serve.simps)
  then show ?thesis by (intro exI [of _ "[?S1, cluster_server C1]"]) simp
qed

text \<open>
  C12. On a server where no name is taken by others, the replica cap is respected and writes succeed, a
  run over a buildable WebApp with the finalizer succeeds and asks for no retry. It applies exactly the
  kinds the WebApp wants, each successfully; then it reads the Deployment once more, and after that makes
  a single status patch, against the WebApp it read, which reports on the Deployment of that read, or on
  none if there was none. Nothing was patched before, and in between come events and metrics only.
\<close>

theorem reconcile_succeeds:
  assumes "codecs_faithful X" "conditions_documented X" "AddFinalizer X (wa_Meta app) Finalizer = (wa_Meta app, False)"
    and "srv_GetApp S [] req = Inr app" "om_DeletionTimestamp (wa_Meta app) = None"
    and "cap_fine X S (reader r) app" "writes_fine S" "\<forall>kd. reads_fine X S app kd"
    and "\<And>tr a b. srv_Patch S tr a b = None"
    and "buildable app"
  shows "\<exists>pre got mid a. run_state (Reconcile X S r req) [] = ((no_requeue, None),
      pre @ GetObject CachedClient KDeployment (ObjectKeyFromObject app) (map_sum id ODeployment got) # mid @
        [PatchStatus a app None, Metric (MReconcileTotal ResultSuccess), Metric (MReconcileDuration ResultSuccess)]) \<and>
    applied pre = map (\<lambda>kd. (kd, None)) (wanted_kinds app) \<and>
    (\<forall>e \<in> set pre. \<not> is_patch e) \<and> (\<forall>e \<in> set mid. is_note e) \<and>
    reports X app (case got of Inl e \<Rightarrow> None | Inr d \<Rightarrow> Some d) a"
proof (rule Reconcile_fine [OF assms(1,3-10)])
  fix pre got ev a
  assume run: "run_state (Reconcile X S r req) [] = ((no_requeue, None),
      pre @ GetObject CachedClient KDeployment (ObjectKeyFromObject app) (map_sum id ODeployment got) #
        (ev @ status_metrics a) @
        [PatchStatus a app None, Metric (MReconcileTotal ResultSuccess), Metric (MReconcileDuration ResultSuccess)])"
    and pre: "applied pre = map (\<lambda>kd. (kd, None)) (wanted_kinds app)" "\<forall>e \<in> set pre. \<not> is_patch e"
    and ev: "\<forall>e \<in> set ev. is_note e \<and> (\<forall>c. e \<noteq> Metric c)"
    and a: "conditions_documented X \<Longrightarrow> reports X app (case got of Inl e \<Rightarrow> None | Inr d \<Rightarrow> Some d) a"
  show ?thesis
    using run pre a [OF assms(2)] notes_patch_nothing [OF ev refl, of a]
    by (intro exI [of _ pre] exI [of _ got] exI [of _ "ev @ status_metrics a"] exI [of _ a]) simp
qed

theorem reconcile_succeeds_witness:
  "\<exists>pre got mid a. run_state (Reconcile std_k8s (calm_server sample_app) live_reconciler sample_key) [] =
    ((no_requeue, None),
      pre @ GetObject CachedClient KDeployment sample_key (map_sum id ODeployment got) # mid @
        [PatchStatus a sample_app None, Metric (MReconcileTotal ResultSuccess), Metric (MReconcileDuration ResultSuccess)]) \<and>
    applied pre = [(KDeployment, None), (KService, None), (KIngress, None), (KHPA, None)] \<and>
    reports std_k8s sample_app (case got of Inl e \<Rightarrow> None | Inr d \<Rightarrow> Some d) a"
proof -
  have "srv_GetApp (calm_server sample_app) [] sample_key = Inr sample_app"
    by (simp add: calm_server_def)
  from reconcile_succeeds [OF std_codecs std_conditions sample_finalizer this _ calm_cap(1) calm_writes(1) _ calm_writes(2)
      valid_spec_buildable [OF sample_valid], of live_reconciler]
  have "\<exists>pre got mid a. run_state (Reconcile std_k8s (calm_server sample_app) live_reconciler sample_key) [] =
    ((no_requeue, None),
      pre @ GetObject CachedClient KDeployment (ObjectKeyFromObject sample_app) (map_sum id ODeployment got) # mid @
        [PatchStatus a sample_app None, Metric (MReconcileTotal ResultSuccess), Metric (MReconcileDuration ResultSuccess)]) \<and>
    applied pre = map (\<lambda>kd. (kd, None)) (wanted_kinds sample_app) \<and>
    reports std_k8s sample_app (case got of Inl e \<Rightarrow> None | Inr d \<Rightarrow> Some d) a"
    by (simp add: calm_reads) blast
  then show ?thesis by (simp add: wanted_kinds_def sample_wants)
qed

text \<open>
  C13. A WebApp that admission accepts can no longer make the reconciler give up: when the API server's
  errors are its own, a sync of a valid WebApp never ends in a terminal error.
\<close>

theorem admitted_never_terminal:
  assumes "codecs_faithful X" "plain_replies S" "ValidateSpec X app = []"
    and "fst (run_state (sync X S r app) tr) = Some err"
  shows "\<not> As_terminal err"
proof -
  have "buildable app"
    using assms(3) by (simp add: ValidateSpec_valid valid_spec_buildable)
  from tripleD [OF sync_plain [OF assms(1,2) this], of "\<lambda>_. True" tr r] assms(4)
  show ?thesis by (simp add: no_terminal_def)
qed

theorem admitted_never_terminal_witness:
  "\<exists>err. fst (run_state (sync std_k8s (taken_server sample_app) live_reconciler sample_app) []) = Some err \<and>
     \<not> As_terminal err"
proof -
  obtain err where
    err: "fst (run_state (sync std_k8s (taken_server sample_app) live_reconciler sample_app) []) = Some err"
    using taken_sync by blast
  then show ?thesis
    using admitted_never_terminal [OF std_codecs taken_plain _ err] sample_valid
    by (simp add: ValidateSpec_valid)
qed

text \<open>
  C14. A sync that fails is never silent: the run ends with a status patch in which Degraded is True and
  Ready is False, both with the error as message, and its answer to the work queue follows from the class
  of the error: none for a terminal error, a retry in a minute for an external one, the error itself
  otherwise, and the combined error when the patch fails too.
\<close>

theorem failure_is_reported:
  assumes "conditions_documented X"
    and "srv_GetApp S [] req = Inr base" "om_DeletionTimestamp (wa_Meta base) = None"
    and "run_state (ensure_finalizer X S base) [GetApp req (Inr base)] = (Inr app, tr0)"
    and "run_state (sync X S r app) tr0 = (Some err, tr1)"
  shows "\<exists>a reply tr' outcome.
    run_state (Reconcile X S r req) [] = (failure_answer err reply,
      tr' @ [PatchStatus a base reply, Metric (MReconcileTotal outcome), Metric (MReconcileDuration outcome)]) \<and>
    condition_of X a ConditionDegraded
      = Some (ConditionTrue, ReasonReconcileFailed, ErrorText err, app_Generation app) \<and>
    condition_of X a ConditionReady
      = Some (ConditionFalse, ReasonReconcileFailed, ErrorText err, app_Generation app)"
proof -
  obtain a reply tr' outcome where run: "run_state (Reconcile X S r req) [] = (failure_answer err reply,
       tr' @ [PatchStatus a base reply, Metric (MReconcileTotal outcome), Metric (MReconcileDuration outcome)])"
      and a: "a = published_status X (ApplyReconcileFailure X app err) None"
    by (rule Reconcile_after_failure [OF assms(2-5)])
  have "condition_of X a ConditionDegraded
      = Some (ConditionTrue, ReasonReconcileFailed, ErrorText err, app_Generation app)"
    "condition_of X a ConditionReady
      = Some (ConditionFalse, ReasonReconcileFailed, ErrorText err, app_Generation app)"
    by (simp_all add: a failure_conditions [OF assms(1)])
  with run show ?thesis by blast
qed

theorem failure_is_reported_witness:
  "\<exists>err a reply tr' outcome.
    run_state (Reconcile std_k8s (taken_server sample_app) live_reconciler sample_key) [] = (failure_answer err reply,
      tr' @ [PatchStatus a sample_app reply, Metric (MReconcileTotal outcome), Metric (MReconcileDuration outcome)]) \<and>
    condition_of std_k8s a ConditionReady
      = Some (ConditionFalse, ReasonReconcileFailed, ErrorText err, app_Generation sample_app)"
proof -
  have got: "srv_GetApp (taken_server sample_app) [] sample_key = Inr sample_app"
    by (simp add: taken_server_def calm_server_def)
  have fin: "run_state (ensure_finalizer std_k8s (taken_server sample_app) sample_app)
      [GetApp sample_key (Inr sample_app)] = (Inr sample_app, [GetApp sample_key (Inr sample_app)])"
    using sample_finalizer by (simp add: ensure_finalizer_def)
  obtain err tr1 where "run_state (sync std_k8s (taken_server sample_app) live_reconciler sample_app)
      [GetApp sample_key (Inr sample_app)] = (Some err, tr1)"
    using taken_sync by (metis prod.collapse)
  from failure_is_reported [OF std_conditions got _ fin this] show ?thesis by (auto simp del: ConditionReady_def)
qed

text \<open>
  C15. A sync can leave a WebApp half applied: when the name of the Ingress is taken by an object of
  somebody else, the sync fails with an external error after the Deployment and the Service are applied,
  because the Ingress is built and checked only then.
\<close>

theorem sync_can_leave_half:
  assumes "codecs_faithful X" "cap_fine X S (reader r) app" "writes_fine S"
    and "reads_fine X S app KDeployment" "reads_fine X S app KService"
    and "sv_Ports (Service app) \<noteq> []" "WantsIngress app" "Ingress app = Inr i"
    and "\<And>tr. srv_GetIngress S tr (reader r) (ObjectKeyFromObject app) = Inr other"
    and "\<not> IsControlledBy X (in_Meta other) (wa_Meta app)"
  shows "(\<exists>err. fst (run_state (sync X S r app) []) = Some err \<and> As_external err) \<and>
    applied (snd (run_state (sync X S r app) [])) = [(KDeployment, None), (KService, None)]"
  using sync_half_applied [OF assms, of "[]"] by simp

theorem sync_can_leave_half_witness:
  "applied (snd (run_state (sync std_k8s (taken_server sample_app) live_reconciler sample_app) []))
     = [(KDeployment, None), (KService, None)]"
proof -
  obtain i where i: "Ingress sample_app = Inr i"
    using valid_spec_builds(2) [OF sample_valid] by blast
  have "srv_GetIngress (taken_server sample_app) tr src k = Inr foreign_ingress" for tr src k
    by (simp add: taken_server_def)
  moreover have "\<not> IsControlledBy std_k8s (in_Meta foreign_ingress) (wa_Meta sample_app)"
    by (simp add: std_k8s_def foreign_ingress_def zero_ObjectMeta_def)
  ultimately show ?thesis
    using sync_can_leave_half [OF std_codecs taken_fine(3) taken_fine(2) taken_fine(1) taken_fine(1)
        valid_spec_builds(1) [OF sample_valid] sample_wants(1) i]
    by simp
qed

text \<open>
  C16. The replica hold has a gap: it reads through the label-scoped cache. When the managed-by label is
  missing from the live Deployment, a run under autoscaling sees none and applies the Deployment without
  a replica count, although the Deployment is controlled by the WebApp, has a count, and no other manager
  owns the field.
\<close>

theorem hold_is_lost_without_the_label:
  assumes "operates X A S r C" "faultless S" "cap_fine X S LiveReader app" "selectors_documented X"
    and "cl_App C req = Some app" "om_DeletionTimestamp (wa_Meta app) = None" "buildable app"
    and "\<And>kd. config X C app kd \<noteq> None \<Longrightarrow> claimed X C app kd"
    and "WantsHPA app" "cl_Obj C KDeployment req = Some (ODeployment d)"
    and "fmlookup (om_Labels (dp_Meta d)) ManagedByLabel = None"
  shows "cl_Obj (after A C (run_trace X S r req)) KDeployment req =
    Some (api_Apply A (Some (ODeployment d)) (ODeployment (with_replicas None (Deployment app))))"
proof -
  have key: "ObjectKeyFromObject app = req"
    using assms(1,5) unfolding operates_def cluster_ok_def by blast
  have "\<not> in_cache X (ODeployment d)"
    using in_cache_iff [OF assms(4), of "ODeployment d"] assms(11) by (simp del: ManagedByLabel_def)
  then have "hold_of X C app = None"
    using assms(10) key by (simp add: hold_of_def visible_def)
  then show ?thesis
    using run_converges(2) [OF assms(1,2,3,5,6,7,8)] assms(9,10) key
    by (simp add: converged_simps target_def)
qed

theorem hold_is_lost_without_the_label_witness:
  "de_Replicas (dp_Spec bare_deployment) = Some 3 \<and> \<not> ReplicasOwnedByOther std_k8s bare_deployment \<and>
   (\<exists>d. cl_Obj (after std_api bare_cluster
        (run_trace std_k8s (cluster_server bare_cluster) manager_reconciler sample_key)) KDeployment sample_key
      = Some (ODeployment d) \<and> de_Replicas (dp_Spec d) = Some 1)"
proof -
  have ok: "cluster_ok bare_cluster" by (simp add: bare_cluster_def cluster_with_ok)
  have op: "operates std_k8s std_api (cluster_server bare_cluster) manager_reconciler bare_cluster"
    by (rule manager_operates [OF std_documented cluster_serves [OF ok] ok])
  have free: "de_Replicas (dp_Spec bare_deployment) = Some 3" "\<not> ReplicasOwnedByOther std_k8s bare_deployment"
    by (simp_all add: bare_deployment_def ReplicasOwnedByOther_def Deployment_def zero_ObjectMeta_def)
  have "cl_Obj (after std_api bare_cluster (run_trace std_k8s (cluster_server bare_cluster) manager_reconciler sample_key))
      KDeployment sample_key = Some (api_Apply std_api (Some (ODeployment bare_deployment))
        (ODeployment (with_replicas None (Deployment sample_app))))"
    by (rule hold_is_lost_without_the_label [OF op cluster_faultless [OF ok] cluster_cap(1) std_selectors])
      (simp_all add: bare_cluster_def claimed_def valid_spec_buildable [OF sample_valid] sample_wants
        del: ManagedByLabel_def)
  with free show ?thesis by (simp add: std_api_def with_replicas_def stored_count)
qed

section \<open>Status and metrics\<close>

text \<open>
  C17. Ready is True exactly when the Deployment has observed its latest template, is not stalled, asks
  for at least one replica, and all of its replicas are updated and ready; Degraded is True exactly when
  the rollout exceeded its deadline.
\<close>

theorem ready_means_rolled_out:
  assumes "conditions_documented X"
  shows "status_of X (ApplyDeploymentConditions X app dep) ConditionReady =
      Some (if \<not> rolloutStalled (DeploymentCondition dep DeploymentProgressing) \<and> fully_rolled_out dep
            then ConditionTrue else ConditionFalse) \<and>
    status_of X (ApplyDeploymentConditions X app dep) ConditionDegraded =
      Some (if rolloutStalled (DeploymentCondition dep DeploymentProgressing)
            then ConditionTrue else ConditionFalse)"
  using deployment_status [OF assms] by blast

theorem ready_means_rolled_out_witness:
  "status_of std_k8s (ApplyDeploymentConditions std_k8s sample_app (Deployment plain_app)) ConditionReady
     = Some ConditionFalse"
  using ready_means_rolled_out [OF std_conditions, of sample_app "Deployment plain_app"]
  by (simp add: fully_rolled_out_def Deployment_def zero_DeploymentStatus_def DesiredReplicas_def
      plain_app_def sample_spec_def Let_def)

text \<open>
  C18. A failure keeps what is known: it sets Degraded and Ready, fills Available and Progressing with
  Unknown only when they were never set, and leaves every other condition as it was.
\<close>

theorem failure_keeps_known_conditions:
  assumes "conditions_documented X"
  shows "condition_of X (ApplyReconcileFailure X app err) t =
    (if t = ConditionDegraded \<or> t = ConditionReady then
       Some (if t = ConditionDegraded then ConditionTrue else ConditionFalse,
             ReasonReconcileFailed, ErrorText err, app_Generation app)
     else if (t = ConditionAvailable \<or> t = ConditionProgressing) \<and> condition_of X app t = None
       then Some (ConditionUnknown, ReasonNoDeployment,
                  Lit ''deployment has not been created yet'', app_Generation app)
     else condition_of X app t)"
  using assms by (rule failure_conditions)

theorem failure_keeps_known_conditions_witness:
  "condition_of std_k8s (ApplyReconcileFailure std_k8s sample_app (ErrorNew ''x'')) ConditionReady =
     Some (ConditionFalse, ReasonReconcileFailed, ErrorText (ErrorNew ''x''), app_Generation sample_app)"
  using failure_keeps_known_conditions [OF std_conditions, of sample_app "ErrorNew ''x''" ConditionReady]
  by simp

text \<open>
  C19. The status after a successful sync is complete. Whatever the API server answers, a run whose sync
  succeeded and whose read of the Deployment after it found one or none makes exactly one status patch,
  against the WebApp it read, and ends with the patch's answer. The patched status has the WebApp's
  generation as the observed one, all four conditions, each written for that generation, the Ingress URL
  and the selector of the WebApp, and the replica counts of the Deployment; without a Deployment the
  counts stay.
\<close>

theorem reported_status_is_complete:
  assumes "conditions_documented X" "srv_GetApp S [] req = Inr base" "om_DeletionTimestamp (wa_Meta base) = None"
    and "run_state (ensure_finalizer X S base) [GetApp req (Inr base)] = (Inr app, tr0)"
    and "run_state (sync X S r app) tr0 = (None, tr1)"
    and "got = srv_GetDeployment S tr1 CachedClient (ObjectKeyFromObject app)"
    and "\<And>e. got = Inl e \<Longrightarrow> IsNotFound e"
  shows "\<exists>a reply. fst (run_state (Reconcile X S r req) []) = (no_requeue, reply) \<and>
    filter is_patch (run_trace X S r req) = [PatchStatus a base reply] \<and>
    wt_ObservedGeneration (wa_Status a) = app_Generation app \<and>
    (\<forall>t \<in> set condition_types. \<exists>st re m. condition_of X a t = Some (st, re, m, app_Generation app)) \<and>
    wt_IngressURL (wa_Status a) = IngressURL app \<and>
    wt_Selector (wa_Status a) = LabelSetString X (SelectorLabels app) \<and>
    (wt_Replicas (wa_Status a), wt_ReadyReplicas (wa_Status a), wt_AvailableReplicas (wa_Status a),
     wt_UpdatedReplicas (wa_Status a)) =
      (case got of
         Inr d \<Rightarrow> (ds_Replicas (dp_Status d), ds_ReadyReplicas (dp_Status d), ds_AvailableReplicas (dp_Status d),
           ds_UpdatedReplicas (dp_Status d))
       | Inl e \<Rightarrow> (wt_Replicas (wa_Status app), wt_ReadyReplicas (wa_Status app),
           wt_AvailableReplicas (wa_Status app), wt_UpdatedReplicas (wa_Status app)))"
proof (rule Reconcile_after_success [OF assms(2-7)], assumption)
  fix a ev reply outcome mid
  assume run: "run_state (Reconcile X S r req) [] = ((no_requeue, reply),
      tr1 @ GetObject CachedClient KDeployment (ObjectKeyFromObject app) (map_sum id ODeployment got) # mid @
        [PatchStatus a base reply, Metric (MReconcileTotal outcome), Metric (MReconcileDuration outcome)])"
    and mid: "mid = ev @ status_metrics a" "\<forall>e \<in> set ev. is_note e \<and> (\<forall>c. e \<noteq> Metric c)"
    and a: "conditions_documented X \<Longrightarrow> reports X app (case got of Inl e \<Rightarrow> None | Inr d \<Rightarrow> Some d) a"
  have "filter is_patch (run_trace X S r req) = [PatchStatus a base reply]"
    using filter_patches [OF no_patch_before [OF assms(4,5)] notes_patch_nothing [OF mid(2,1)]] run by simp
  moreover note a [OF assms(1), unfolded reports_def]
  ultimately show ?thesis using run
    by (intro exI [of _ a] exI [of _ reply]) (cases got; fastforce)
qed

theorem reported_status_is_complete_witness:
  "\<exists>a. filter is_patch (run_trace std_k8s deployed_server live_reconciler sample_key) = [PatchStatus a sample_app None] \<and>
     wt_Replicas (wa_Status a) = 3 \<and>
     condition_of std_k8s a ConditionAvailable \<noteq> None"
proof -
  have fin: "run_state (ensure_finalizer std_k8s deployed_server sample_app) [GetApp sample_key (Inr sample_app)]
      = (Inr sample_app, [GetApp sample_key (Inr sample_app)])"
    using sample_finalizer by (simp add: ensure_finalizer_def)
  obtain tr1 where sync: "run_state (sync std_k8s deployed_server live_reconciler sample_app)
      [GetApp sample_key (Inr sample_app)] = (None, tr1)"
    by (rule deployed_sync)
  from reported_status_is_complete [OF std_conditions deployed_fine(1) _ fin sync refl]
  obtain a reply where a: "fst (run_state (Reconcile std_k8s deployed_server live_reconciler sample_key) []) = (no_requeue, reply)"
      "filter is_patch (run_trace std_k8s deployed_server live_reconciler sample_key) = [PatchStatus a sample_app reply]"
      "wt_Replicas (wa_Status a) = 3" "condition_of std_k8s a ConditionAvailable \<noteq> None"
    by (auto simp: deployed_fine condition_types_def)
  have "PatchStatus a sample_app reply \<in> set (filter is_patch (run_trace std_k8s deployed_server live_reconciler sample_key))"
    unfolding a(2) by simp
  then have "reply = None" by (auto dest: deployed_patches)
  with a show ?thesis by blast
qed



section \<open>Start-up\<close>

text \<open>
  C21. The manager is started only when it is complete: the flags parsed, and before the start, in this
  order, the collectors registered, the two schemes added, the manager created with the scoped caches, the
  controller set up, both webhooks set up unless they are switched off, and both health checks added, with
  no failure among these calls. With webhooks, readiness waits for the webhook server.
\<close>

theorem manager_starts_complete:
  assumes "StartManager \<in> set (snd (main zap env args))"
  shows "\<exists>fl. parse_flags zap args default_flags = Some fl \<and>
    snd (main zap env args) =
      [MustRegister collectors, AddToScheme ''client-go'' [], AddToScheme GroupVersionString known_types,
       GetConfigOrDie, NewManager (manager_options_of fl), SetupController manager_reconciler SetupWithManager]
      @ (if fl_EnableWebhooks fl then [SetupWebhook SetupWebAppWebhook, SetupWebhook SetupWebAppPolicyWebhook] else [])
      @ [AddHealthzCheck ''healthz'' Ping,
         AddReadyzCheck ''readyz'' (if fl_EnableWebhooks fl then StartedChecker else Ping), StartManager] \<and>
    (\<forall>pre c post. snd (main zap env args) = pre @ c # post \<longrightarrow> post \<noteq> [] \<longrightarrow> env pre c = None)"
proof -
  obtain fl where "parse_flags zap args default_flags = Some fl"
    and "snd (main zap env args) = map fst init_steps @ map fst (main_steps fl)"
    by (rule main_started [OF assms])
  then show ?thesis
    using started_answered [OF assms]
    by (auto simp: init_steps_def main_steps_def webhook_steps_def readyz_def simp del: GroupVersionString_def)
qed

theorem manager_starts_complete_witness:
  "let made = snd (main (\<lambda>n v. False) (\<lambda>made c. None) [(''enable-webhooks'', ''false'')])
   in last made = StartManager \<and> AddReadyzCheck ''readyz'' Ping \<in> set made \<and>
      SetupWebhook SetupWebAppWebhook \<notin> set made"
proof -
  let ?args = "[(''enable-webhooks'', ''false'')]"
  have "StartManager \<in> set (snd (main (\<lambda>n v. False) (\<lambda>made c. None) ?args))"
    by (simp add: main_def init_steps_def main_steps_def webhook_steps_def set_flag_def ParseBool_def default_flags_def)
  from manager_starts_complete [OF this] show ?thesis
    by (auto simp: Let_def set_flag_def ParseBool_def default_flags_def)
qed

section \<open>Admission\<close>

text \<open>
  C22. The validator's loops, with their maps of seen names and port owners, report no error exactly for
  the specs that obey the rules \<open>valid_spec\<close> states over the WebApp as a whole.
\<close>

theorem validation_decides_valid_spec:
  "ValidateSpec X app = [] \<longleftrightarrow> valid_spec X app"
  by (rule ValidateSpec_valid)

text \<open>
  C23. When the policies and the namespace can be read, admission accepts a WebApp exactly when its spec
  is valid and it complies with every policy that is in force for its namespace and enforces.
\<close>

theorem admission_decides:
  assumes "pr_List r = Inr policies" "pr_GetNamespace r (app_Namespace app) = Inr nsLabels"
  shows "ad_Error (ValidateCreate X \<lparr>wv_Reader = Some r\<rparr> app) = None \<longleftrightarrow>
    valid_spec X app \<and>
    (\<forall>p \<in> set policies. in_force X nsLabels p \<longrightarrow> enforces p \<longrightarrow> complies X app p)"
proof -
  obtain res where "evaluatePolicies X \<lparr>wv_Reader = Some r\<rparr> app = Inr res"
    and "re_Violations res = [] \<longleftrightarrow>
      (\<forall>p \<in> set policies. in_force X nsLabels p \<longrightarrow> enforces p \<longrightarrow> complies X app p)"
    using evaluatePolicies_accepts [OF assms] by blast
  then show ?thesis
    by (simp add: ValidateCreate_def validate_def Let_def invalidOrNil_def ValidateSpec_valid)
qed

theorem admission_decides_witness:
  "ad_Error (ValidateCreate std_k8s
     \<lparr>wv_Reader = Some \<lparr>pr_List = Inr [], pr_GetNamespace = (\<lambda>n. Inr fmempty)\<rparr>\<rparr> sample_app) = None"
  using admission_decides [of "\<lparr>pr_List = Inr [], pr_GetNamespace = (\<lambda>n. Inr fmempty)\<rparr>" "[]" sample_app
      fmempty std_k8s] sample_valid by simp

text \<open>
  C24. Admission fails closed: when the policies cannot be listed, or there are some and the namespace
  cannot be read, the WebApp is rejected with that error, whatever its spec.
\<close>

theorem admission_fails_closed:
  assumes "pr_List r = Inl err \<or>
    (\<exists>p ps. pr_List r = Inr (p # ps)) \<and> pr_GetNamespace r (app_Namespace app) = Inl err"
  shows "\<exists>fmt as. ad_Error (validate X \<lparr>wv_Reader = Some r\<rparr> app) = Some (Errorf fmt as) \<and> AWrap err \<in> set as"
  using assms by (auto simp: validate_def evaluatePolicies_def Let_def)

theorem admission_fails_closed_witness:
  "\<exists>fmt as. ad_Error (validate std_k8s
      \<lparr>wv_Reader = Some \<lparr>pr_List = Inl (ApiFailure ''down''), pr_GetNamespace = (\<lambda>n. Inr fmempty)\<rparr>\<rparr> sample_app)
     = Some (Errorf fmt as) \<and> AWrap (ApiFailure ''down'') \<in> set as"
  by (rule admission_fails_closed) simp

text \<open>
  C25. What the webhook adds to the schema: for a WebApp that the CRD schema admits, the validator accepts
  exactly when the rules hold that the schema cannot state or does not: a port at all, ports and resolved
  port names distinct across containers, positive size limits, requests for every autoscaling target, and
  an Ingress port that names a port.
\<close>

theorem schema_leaves_rules_to_the_webhook:
  assumes "names_documented X" "spec_schema (wa_Spec app)"
  shows "ValidateSpec X app = [] \<longleftrightarrow> webhook_rules X app"
  using schema_valid_spec [OF assms] by (simp add: ValidateSpec_valid)

theorem schema_leaves_rules_to_the_webhook_witness:
  "ValidateSpec std_k8s schema_app = [] \<and> webhook_rules std_k8s schema_app"
proof -
  have "spec_schema (wa_Spec schema_app)" using schema_app_schema by (simp add: webapp_schema_def)
  from schema_leaves_rules_to_the_webhook [OF std_names this] schema_app_valid show ?thesis
    by (simp add: ValidateSpec_valid)
qed

text \<open>
  C26. The CEL rules on mount paths, which search the text for pieces such as a double slash or a trailing
  dot, say what they mean about the directories of the path: it is absolute and not the root, no directory
  is empty, a dot or two dots, and it lies in none of the reserved trees.
\<close>

theorem mount_path_rules:
  "mount_path_schema s \<longleftrightarrow>
     rune_count s \<le> 4096 \<and> HasPrefix s ''/'' \<and> s \<noteq> ''/'' \<and>
     (\<forall>p \<in> set (path_parts s). p \<noteq> [] \<and> p \<noteq> ''.'' \<and> p \<noteq> ''..'') \<and>
     (\<forall>t \<in> set reserved_trees. \<not> prefix t (path_parts s))"
  unfolding mount_path_schema_iff mount_path_ok_def by simp

theorem mount_path_rules_witness:
  "mount_path_schema ''/srv/cache'' \<and> \<not> mount_path_schema ''/etc/app''"
  using mount_path_rules [of "''/srv/cache''"] mount_path_rules [of "''/etc/app''"]
  by (simp add: path_parts_def reserved_trees_def rune_count_def HasPrefix_def)

text \<open>
  C27. The schema admits a port name exactly when util/validation does: the pattern, the length bound and
  the rule that asks for a letter accept the IANA service names.
\<close>

theorem port_name_rules:
  assumes "names_documented X"
  shows "port_name_schema s \<longleftrightarrow> IsValidPortName X s = []"
  using assms by (simp add: port_name_schema_iff names_documented_def)

theorem port_name_rules_witness:
  "port_name_schema ''http'' \<and> \<not> port_name_schema ''8080''"
  using port_name_rules [OF std_names, of "''http''"] port_name_rules [OF std_names, of "''8080''"] sample_names(4)
  by (simp add: std_k8s_def service_name_def)

text \<open>
  C28. The two defaulters agree: after the defaults of the CRD schema, the webhook's defaulter changes two
  things only, the strategy of a WebApp that gives none and the CPU target of autoscaling without targets.
\<close>

theorem defaulters_agree:
  "Default (schema_defaults app) =
     (let s = wa_Spec (schema_defaults app)
      in (schema_defaults app)\<lparr>wa_Spec := s
           \<lparr>ws_Strategy := (case ws_Strategy s of
               None \<Rightarrow> Some \<lparr>ss_Type = RollingUpdateDeploymentStrategyType, ss_RollingUpdate = None\<rparr>
             | Some st \<Rightarrow> Some st),
            ws_Autoscaling := map_option
              (\<lambda>a. if as_Enabled a \<and> as_TargetCPU a = None \<and> as_TargetMemory a = None
                   then a\<lparr>as_TargetCPU := Some DefaultTargetCPU\<rparr> else a)
              (ws_Autoscaling s)\<rparr>\<rparr>)"
  unfolding Default_schema_defaults left_to_webhook_def Let_def ..

text \<open>
  C29. Defaulting is idempotent and neutral to validation: applied twice it changes nothing more, and a
  WebApp gets the same warnings, errors and log lines before and after it.
\<close>

theorem defaulting_is_neutral:
  "Default (Default app) = Default app \<and> validate X v (Default app) = validate X v app"
  by (simp add: Default_idem validate_Default)

text \<open>
  C30. The builders apply the defaults themselves: the Service and the Ingress of a WebApp are those of
  its defaulted form, and so are the HPA when one is wanted and the Deployment unless an unset strategy
  type comes with rolling-update parameters.
\<close>

theorem builders_know_the_defaults:
  "Service (Default app) = Service app \<and> Ingress (Default app) = Ingress app \<and>
   (WantsHPA app \<longrightarrow> HPA (Default app) = HPA app) \<and>
   ((\<forall>s. ws_Strategy (wa_Spec app) = Some s \<longrightarrow> ss_Type s = [] \<longrightarrow> ss_RollingUpdate s = None) \<longrightarrow>
      Deployment (Default app) = Deployment app)"
  using Default_builds [of app] Default_Deployment [of app] by auto

theorem builders_know_the_defaults_witness:
  "HPA (Default sample_app) = HPA sample_app \<and> Deployment (Default sample_app) = Deployment sample_app"
  using builders_know_the_defaults [of sample_app] sample_wants by (simp add: sample_spec_def)

text \<open>
  C31. An admitted WebApp can be built: its Service has a port, its Ingress resolves its backend to the
  name of a port of that Service, and its HPA, when wanted, has a maximum.
\<close>

theorem admitted_can_be_built:
  assumes "ValidateSpec X app = []"
  shows "sv_Ports (Service app) \<noteq> [] \<and>
    (\<exists>ing. Ingress app = Inr ing \<and> (\<forall>rule \<in> set (in_Rules ing). \<forall>path \<in> set (ir_Paths rule).
       hp_ServiceName path = om_Name (sv_Meta (Service app)) \<and>
       hp_PortName path \<in> sp_Name ` set (sv_Ports (Service app)))) \<and>
    (WantsHPA app \<longrightarrow> (\<exists>h. HPA app = HPA_ok h))"
proof -
  have valid: "valid_spec X app" using assms by (simp add: ValidateSpec_valid)
  then obtain ing where ing: "Ingress app = Inr ing" using valid_spec_builds(2) by blast
  then obtain port where port: "backendPort app = Inr port" and "in_Rules ing = [\<lparr>ir_Host = ws_Domain (wa_Spec app),
       ir_Paths = [\<lparr>hp_Path = ''/'', hp_PathType = ''Prefix'',
                    hp_ServiceName = app_Name app, hp_PortName = port\<rparr>]\<rparr>]"
    by (rule Ingress_Inr)
  moreover have "port \<in> sp_Name ` set (servicePorts app)"
    using ports.backend_named [OF port] servicePorts_names [of app] by (metis list.set_map)
  ultimately show ?thesis
    using ing valid_spec_builds(1,3) [OF valid] by simp
qed

theorem admitted_can_be_built_witness:
  "\<exists>h. HPA sample_app = HPA_ok h"
  using admitted_can_be_built [of std_k8s sample_app] sample_valid sample_wants
  by (simp add: ValidateSpec_valid)

section \<open>Policies\<close>

text \<open>
  C32. The violations reported against a policy are empty exactly when the WebApp complies with it: the
  cap holds for the field that controls the scale, the effective service account is allowed, no pod
  annotation has a forbidden prefix, every scratch volume has a size within the cap, and every container
  meets the resource rules.
\<close>

theorem no_violations_iff_compliant:
  "violations X app p = [] \<longleftrightarrow>
     replicas_comply app p \<and>
     (py_AllowedServiceAccounts (wp_Spec p) = [] \<or>
        effective_sa app \<in> set (py_AllowedServiceAccounts (wp_Spec p))) \<and>
     (\<forall>pre \<in> set (py_ForbiddenPodAnnotationPrefixes (wp_Spec p)).
        \<forall>k v. fmlookup (ws_PodAnnotations (wa_Spec app)) k = Some v \<longrightarrow> \<not> HasPrefix k pre) \<and>
     scratch_complies X app p \<and>
     (\<forall>rp. py_Resources (wp_Spec p) = Some rp \<longrightarrow>
        (\<forall>c \<in> set (ws_Containers (wa_Spec app)). container_complies X rp c))"
  unfolding violations_complies complies_def ..

theorem no_violations_iff_compliant_witness:
  "violations std_k8s sample_app sample_policy = []"
  unfolding no_violations_iff_compliant
  using policy_met by (simp add: sample_policy_def scratch_complies_def)

text \<open>
  C33. No policy is dropped in silence: an evaluation says nothing at all exactly when every policy can be
  parsed and every policy in force for the namespace is met, whatever its mode.
\<close>

theorem silence_means_compliance:
  "Evaluate X app ps nsLabels = Inr empty_Result \<longleftrightarrow>
     (\<forall>p \<in> set ps. \<not> unparsable X nsLabels p \<and> (in_force X nsLabels p \<longrightarrow> complies X app p))"
  by (simp add: Evaluate_def full.loop_silent_iff violations_complies)

theorem silence_means_compliance_witness:
  "Evaluate std_k8s sample_app [sample_policy] fmempty = Inr empty_Result"
proof -
  have "complies std_k8s sample_app sample_policy" "\<not> unparsable std_k8s fmempty sample_policy"
    using policy_met
    by (simp_all add: complies_def sample_policy_def scratch_complies_def unparsable_def Matches_def)
  then show ?thesis using silence_means_compliance [of std_k8s sample_app "[sample_policy]" fmempty] by simp
qed

text \<open>
  C34. The reconciler's check is the replica part of the webhook's: a WebApp that the full evaluation
  accepts is accepted by the evaluation of its scale, under the same policies and labels.
\<close>

theorem scale_check_is_weaker:
  assumes "Evaluate X app ps nsLabels = Inr full_res" "re_Violations full_res = []"
  shows "\<exists>scale_res. EvaluateScale X app ps nsLabels = Inr scale_res \<and> re_Violations scale_res = []"
proof -
  have "\<forall>p \<in> set ps. in_force X nsLabels p \<longrightarrow> enforces p \<longrightarrow> complies X app p"
    using assms by (auto simp: Evaluate_def full.loop_accepts_iff violations_complies)
  then show ?thesis
    by (simp add: EvaluateScale_def scale.loop_accepts_iff replicaViolations_Nil_iff complies_def)
qed

theorem scale_check_is_weaker_witness:
  "\<exists>res. EvaluateScale std_k8s sample_app [sample_policy] fmempty = Inr res \<and> re_Violations res = []"
proof (rule scale_check_is_weaker)
  show "Evaluate std_k8s sample_app [sample_policy] fmempty =
      Inr (Evaluate_loop std_k8s sample_app fmempty [sample_policy] empty_Result)"
    by (simp add: Evaluate_def)
  show "re_Violations (Evaluate_loop std_k8s sample_app fmempty [sample_policy] empty_Result) = []"
    unfolding full.loop_accepts_iff violations_complies
    using policy_met by (simp add: complies_def sample_policy_def scratch_complies_def)
qed

text \<open>
  C35. Validation of a policy accepts its resource rules exactly when some container can meet them: one
  whose requests stay within its limits, as the API server demands.
\<close>

theorem policy_validation_is_satisfiability:
  assumes "quantities_documented X" "py_Resources (wp_Spec p) = Some rp"
  shows "Validate X p = [] \<longleftrightarrow>
    resources_satisfiable X rp \<and>
    (\<forall>ns. py_NamespaceSelector (wp_Spec p) = Some ns \<longrightarrow> (\<exists>sel. LabelSelectorAsSelector X ns = Inr sel)) \<and>
    (\<forall>sa \<in> set (py_AllowedServiceAccounts (wp_Spec p)). TrimSpace sa \<noteq> []) \<and>
    (\<forall>pre \<in> set (py_ForbiddenPodAnnotationPrefixes (wp_Spec p)). TrimSpace pre \<noteq> [])"
  unfolding Validate_Nil_iff satisfiable_iff [OF assms(1)] boundErrors_Nil_iff
  using assms(2) by auto

theorem policy_validation_is_satisfiability_witness:
  "resources_satisfiable std_k8s \<lparr>rp_MinRequests = fmap_of_list [(ResourceCPU, Quantity ''1'')],
     rp_MaxLimits = fmap_of_list [(ResourceCPU, Quantity ''11'')], rp_RequireRequests = True, rp_RequireLimits = True\<rparr>"
    (is "resources_satisfiable _ ?rp")
proof -
  let ?p = "sample_policy\<lparr>wp_Spec := (wp_Spec sample_policy)\<lparr>py_Resources := Some ?rp\<rparr>\<rparr>"
  have "q_Cmp std_k8s (Quantity ''1'') (Quantity ''11'') \<le> 0"
    by (simp add: std_k8s_def)
  then have "Validate std_k8s ?p = []"
    unfolding Validate_Nil_iff by (auto simp: sample_policy_def fmlookup_of_list split: if_splits)
  then show ?thesis
    using policy_validation_is_satisfiability [OF std_quantities, of ?p ?rp] by simp
qed

section \<open>The objects that are built\<close>



text \<open>
  C37. The pods of a WebApp are selected by its Deployment and by its Service, whatever labels the
  user puts on them: the pod template carries every label of the selector.
\<close>

theorem selectors_match_the_pods:
  assumes "fmlookup (ls_MatchLabels (de_Selector (dp_Spec (Deployment app)))) k = Some v \<or>
    fmlookup (sv_Selector (Service app)) k = Some v"
  shows "fmlookup (pt_Labels (de_Template (dp_Spec (Deployment app)))) k = Some v"
  using assms by (auto simp: podLabels_lookup)

theorem selectors_match_the_pods_witness:
  "fmlookup (pt_Labels (de_Template (dp_Spec (Deployment sample_app)))) NameLabel = Some ''shop''"
  by (rule selectors_match_the_pods) (simp add: SelectorLabels_lookup)



text \<open>
  C39. The name of a scratch volume fits a Kubernetes name: it has at most 63 characters, and for a
  volume whose name the schema admits it is a DNS label.
\<close>

theorem scratch_names_are_labels:
  "length (ScratchVolumeName c v) \<le> 63 \<and> (dns_label (sw_Name v) \<longrightarrow> dns_label (ScratchVolumeName c v))"
  by (simp add: length_ScratchVolumeName ScratchVolumeName_label)

theorem scratch_names_are_labels_witness:
  "dns_label (ScratchVolumeName sample_container (hd (cn_ScratchVolumes sample_container)))"
proof -
  have "dns_label (sw_Name (hd (cn_ScratchVolumes sample_container)))"
    by (simp add: sample_container_def dns_label_def alnum_chars_def)
  then show ?thesis
    using scratch_names_are_labels [of sample_container "hd (cn_ScratchVolumes sample_container)"] by blast
qed

text \<open>
  C40. The Service forwards to the pods: its ports are pairwise different by number and protocol, as the
  API server demands, and each is a port of some container, under the same name.
\<close>

theorem service_ports_are_container_ports:
  "distinct (map (\<lambda>q. (sp_Port q, sp_Protocol q)) (sv_Ports (Service app))) \<and>
   (\<forall>q \<in> set (sv_Ports (Service app)).
      \<exists>kc \<in> set (po_Containers (pt_Spec (de_Template (dp_Spec (Deployment app))))). \<exists>kp \<in> set (kc_Ports kc).
        kp_Name kp = sp_Name q \<and> kp_ContainerPort kp = sp_Port q \<and> kp_Protocol kp = sp_Protocol q \<and>
        sp_TargetPort q = FromInt32 (kp_ContainerPort kp))"
proof (intro conjI ballI)
  show "distinct (map (\<lambda>q. (sp_Port q, sp_Protocol q)) (sv_Ports (Service app)))"
    using servicePorts_distinct [of app] by simp
next
  fix q
  assume q: "q \<in> set (sv_Ports (Service app))"
  then have target: "sp_TargetPort q = FromInt32 (sp_Port q)"
    by (auto simp: servicePorts_def)
  from q obtain kc kp where "kc \<in> set (containers app)" "kp \<in> set (kc_Ports kc)"
    "kp_Name kp = sp_Name q" "kp_ContainerPort kp = sp_Port q" "kp_Protocol kp = sp_Protocol q"
    using servicePort_backed [of q app] by auto
  with target show "\<exists>kc \<in> set (po_Containers (pt_Spec (de_Template (dp_Spec (Deployment app))))).
      \<exists>kp \<in> set (kc_Ports kc). kp_Name kp = sp_Name q \<and> kp_ContainerPort kp = sp_Port q \<and>
        kp_Protocol kp = sp_Protocol q \<and> sp_TargetPort q = FromInt32 (kp_ContainerPort kp)"
    by (intro bexI [of _ kc] bexI [of _ kp]) simp_all
qed

theorem service_ports_are_container_ports_witness:
  "distinct (map (\<lambda>q. (sp_Port q, sp_Protocol q)) (sv_Ports (Service sample_app)))"
  using service_ports_are_container_ports [of sample_app] by blast

section \<open>Further facts\<close>

text \<open>
  The same for every server, whatever changes in the cluster during the run: before the finalizer is
  removed, the run has seen of each of the four kinds that a cached read found nothing or an object of
  another controller, or that the deletion of the object it found was accepted or came too late.
\<close>

theorem finalizer_follows_the_reads:
  assumes "run_trace X S r req = pre @ UpdateApp a reply # post"
  shows "\<exists>app. read_app app pre \<and>
    (if om_DeletionTimestamp (wa_Meta app) = None
     then AddFinalizer X (wa_Meta app) Finalizer = (wa_Meta a, True) \<and> a = app\<lparr>wa_Meta := wa_Meta a\<rparr>
     else a = app\<lparr>wa_Meta := RemoveFinalizer X (wa_Meta app) Finalizer\<rparr> \<and>
          ContainsFinalizer X (wa_Meta app) Finalizer \<and> (\<forall>kd. released X app kd pre))"
  using run_updates [OF assms] first_read_app by (metis update_ok.simps(1))

text \<open>
  What the label-scoped cache does not show outlives the WebApp: when the managed-by label was taken
  from an object the deleted WebApp controls, an undisturbed run removes the finalizer and leaves the
  object as it is.
\<close>

theorem deletion_leaves_the_unlabelled:
  assumes "operates X A S r C" "deletes_documented A" "faultless S"
    and "cl_App C req = Some app" "om_DeletionTimestamp (wa_Meta app) \<noteq> None"
    and "Finalizer \<in> set (om_Finalizers (wa_Meta app))"
    and "cl_Obj C kd req = Some obj" "\<not> in_cache X obj"
    and "C1 = after A C (run_trace X S r req)"
  shows "cl_Obj C1 kd req = Some obj \<and>
    (\<forall>app'. cl_App C1 req = Some app' \<longrightarrow> Finalizer \<notin> set (om_Finalizers (wa_Meta app')))"
proof
  have X: "finalizers_documented X" "control_documented X" "api_documented X A" and S: "serves X A S C"
    and ok: "cluster_ok C"
    using assms(1) by (simp_all add: operates_def)
  have got: "srv_GetApp S [] req = Inr app" by (rule served_app [OF S assms(3,4)])
  show "cl_Obj C1 kd req = Some obj"
    unfolding assms(9) by (rule deletion_keeps_unlabelled [OF assms(1) _ got assms(5,7,8), of _ "[]"]) simp
  show "\<forall>app'. cl_App C1 req = Some app' \<longrightarrow> Finalizer \<notin> set (om_Finalizers (wa_Meta app'))"
    using run_draining [OF X assms(2) S draining_start [OF ok assms(4-6)], of r] assms(3,9)
    unfolding let_go_def by blast
qed

text \<open>
  A WebApp that is being deleted is not written to any more: the run applies nothing.
\<close>

theorem deleted_applies_nothing:
  assumes "srv_GetApp S [] req = Inr app" "om_DeletionTimestamp (wa_Meta app) \<noteq> None"
  shows "applied (run_trace X S r req) = []"
  using assms by (rule Reconcile_deleted_applies_nothing)

theorem deleted_applies_nothing_witness:
  "applied (run_trace std_k8s closing_server live_reconciler sample_key) = []"
  by (rule deleted_applies_nothing [of _ _ deleted_app])
    (simp_all add: closing_server_def calm_server_def deleted_app_def)

text \<open>
  The deletion of a WebApp goes through on such a server: the finalizer's work ends without an error
  and its last effect is the update that removes the finalizer.
\<close>

theorem finalize_succeeds:
  assumes "\<And>kd. reads_fine X S app kd" "writes_fine S"
    and "ContainsFinalizer X (wa_Meta app) Finalizer" "\<And>tr a. \<exists>a'. srv_Update S tr a = Inr a'"
  shows "\<exists>tr' reply. run_state (finalize X S app) tr =
    (None, tr' @ [UpdateApp (app\<lparr>wa_Meta := RemoveFinalizer X (wa_Meta app) Finalizer\<rparr>) reply])"
  using assms by (rule finalize_fine)

theorem finalize_succeeds_witness:
  "\<exists>tr' reply. run_state (finalize std_k8s (calm_server sample_app) sample_app) [] = (None, tr' @
     [UpdateApp (sample_app\<lparr>wa_Meta := RemoveFinalizer std_k8s (wa_Meta sample_app) Finalizer\<rparr>) reply])"
  by (rule finalize_succeeds [OF calm_reads calm_writes(1)])
    (simp_all add: std_k8s_def calm_server_def)

text \<open>
  The work queue gets one of two answers: no delay, or the fixed delay for external errors, and the
  delay only together with a nil error, since controller-runtime ignores the delay of a failed run.
\<close>

theorem answers_of_a_run:
  "fst (fst (run_state (Reconcile X S r req) tr)) \<in> {no_requeue, \<lparr>ct_RequeueAfter = externalRetry\<rparr>} \<and>
   (ct_RequeueAfter (fst (fst (run_state (Reconcile X S r req) tr))) \<noteq> 0 \<longrightarrow>
      snd (fst (run_state (Reconcile X S r req) tr)) = None)"
  by (rule Reconcile_answer)

theorem answers_of_a_run_witness:
  "fst (fst (run_state (Reconcile std_k8s closing_server live_reconciler sample_key) []))
     \<in> {no_requeue, \<lparr>ct_RequeueAfter = externalRetry\<rparr>}"
  using answers_of_a_run [of std_k8s closing_server live_reconciler sample_key "[]"] by blast

text \<open>
  For a WebApp that is gone the run does nothing but drop its series from the metrics and count
  itself as a success.
\<close>

theorem gone_is_forgotten:
  assumes "srv_GetApp S [] req = Inl err" "IsNotFound err"
  shows "run_state (Reconcile X S r req) [] =
    ((no_requeue, None),
     [GetApp req (Inl err), Metric (MForget (snd req) (fst req)),
      Metric (MReconcileTotal ResultSuccess), Metric (MReconcileDuration ResultSuccess)])"
  using assms by (rule Reconcile_gone)

theorem gone_is_forgotten_witness:
  "run_trace std_k8s ((calm_server sample_app)\<lparr>srv_GetApp := \<lambda>tr k. Inl (ApiNotFound ''webapp'')\<rparr>)
     live_reconciler sample_key =
   [GetApp sample_key (Inl (ApiNotFound ''webapp'')), Metric (MForget ''shop'' ''prod''),
    Metric (MReconcileTotal ResultSuccess), Metric (MReconcileDuration ResultSuccess)]"
  using gone_is_forgotten
    [of "(calm_server sample_app)\<lparr>srv_GetApp := \<lambda>tr k. Inl (ApiNotFound ''webapp'')\<rparr>" sample_key
      "ApiNotFound ''webapp''" std_k8s live_reconciler]
  by simp

text \<open>
  The role the markers generate lets the operator do all it does: every call a run can make, and every
  watch of the controller, is granted.
\<close>

theorem operator_is_permitted:
  "(\<forall>e \<in> set (run_trace X S r req). set (needs e) \<subseteq> set rbac_markers) \<and>
   set (watch_needs SetupWithManager) \<subseteq> set rbac_markers"
  using needs_granted watches_granted by blast

text \<open>
  A run whose read of the Deployment fails after a sync that succeeded returns the error without a status
  patch.
\<close>

theorem failed_read_is_silent:
  assumes "srv_GetApp S [] req = Inr base" "om_DeletionTimestamp (wa_Meta base) = None"
    and "run_state (ensure_finalizer X S base) [GetApp req (Inr base)] = (Inr app, tr0)"
    and "run_state (sync X S r app) tr0 = (None, tr1)"
    and "srv_GetDeployment S tr1 CachedClient (ObjectKeyFromObject app) = Inl err" "\<not> IsNotFound err"
  shows "run_state (Reconcile X S r req) [] = ((no_requeue, Some err),
      tr1 @ [GetObject CachedClient KDeployment (ObjectKeyFromObject app) (Inl err),
        Metric (MReconcileTotal ResultError), Metric (MReconcileDuration ResultError)]) \<and>
    (\<forall>e \<in> set tr1. \<not> is_patch e)"
proof -
  obtain new1 where new1: "tr0 = [GetApp req (Inr base)] @ new1" "\<forall>e \<in> set new1. is_update e"
    using emits_ensure_finalizer [of X S base] assms(3) unfolding emits_def by (metis snd_conv)
  obtain new2 where new2: "tr1 = tr0 @ new2" "\<forall>e \<in> set new2. harmless e \<or> is_delete e \<or> is_apply e"
    using emits_sync [of X S r app] assms(4) unfolding emits_def by (metis snd_conv)
  have "\<not> is_patch e" if e: "e \<in> set tr1" for e
  proof -
    from e new1 new2 have "e = GetApp req (Inr base) \<or> is_update e \<or> harmless e \<or> is_delete e \<or> is_apply e"
      by auto
    then show ?thesis by (cases e) auto
  qed
  moreover have "run_state (reconcile X S r req) [] = ((no_requeue, Some err),
      tr1 @ [GetObject CachedClient KDeployment (ObjectKeyFromObject app) (Inl err)])"
    using assms by (simp add: reconcile_def client_GetApp_def client_GetDeployment_def)
  ultimately show ?thesis by (simp add: Reconcile_run)
qed

text \<open>
  The metrics never show a condition of a WebApp with two statuses: starting from an empty registry,
  after the metric calls of any sequence of runs each (name, namespace, type) has at most one series.
\<close>

theorem one_status_per_condition:
  assumes "prometheus_documented P"
  shows "one_status (apply_metrics P
    (concat (map (\<lambda>(X, S, r, req). metric_calls (run_trace X S r req)) runs)) empty_registry)"
  using one_status_run [OF assms one_status_empty] .

theorem one_status_per_condition_witness:
  "one_status (apply_metrics std_prometheus
     (metric_calls (run_trace std_k8s closing_server live_reconciler sample_key)) empty_registry)"
  using one_status_per_condition [OF std_metrics, of "[(std_k8s, closing_server, live_reconciler, sample_key)]"]
  by simp

text \<open>
  After a status update the series of each of the WebApp's conditions is the one of its status: 1
  for that status, nothing for any other.
\<close>

theorem conditions_are_published:
  assumes "prometheus_documented P" "distinct (map co_Type (wt_Conditions (wa_Status app)))"
    and "c \<in> set (wt_Conditions (wa_Status app))"
  shows "fmlookup (rg_Conditions (apply_metrics P
      (metric_calls (snd (run_state (updateStatus X S app base dep) tr))) rg))
      [app_Name app, app_Namespace app, co_Type c, s] = (if s = co_Status c then Some 1 else None)"
  using assms by (rule updateStatus_metrics)

theorem conditions_are_published_witness:
  "fmlookup (rg_Conditions (apply_metrics std_prometheus (metric_calls
       (snd (run_state (updateStatus std_k8s (calm_server sample_app) sample_app sample_app None) [])))
       empty_registry)) [''shop'', ''prod'', ''Ready'', ''False''] = None"
proof -
  have "distinct (map co_Type (wt_Conditions (wa_Status sample_app)))"
    "hd (wt_Conditions (wa_Status sample_app)) \<in> set (wt_Conditions (wa_Status sample_app))"
    by (simp_all add: sample_status_def)
  from conditions_are_published [OF std_metrics this, of std_k8s "calm_server sample_app" sample_app None
      "[]" empty_registry "''False''"]
  show ?thesis by (simp add: sample_status_def)
qed

text \<open>
  The replica count is seen as another manager's exactly when some managed-fields entry of a manager
  other than the operator decodes to an object with f:spec.f:replicas.
\<close>

theorem replicas_owned_by_other_iff:
  "ReplicasOwnedByOther X dep \<longleftrightarrow>
     (\<exists>e \<in> set (om_ManagedFields (dp_Meta dep)). mf_Manager e \<noteq> FieldOwner \<and>
        (\<exists>raw obj spec. mf_FieldsV1 e = Some raw \<and> json_Unmarshal X raw = Some obj \<and>
           fmlookup obj ''f:spec'' = Some (JObject spec) \<and> fmlookup spec ''f:replicas'' \<noteq> None))"
  by (rule ReplicasOwnedByOther_iff)

theorem replicas_owned_by_other_iff_witness:
  "ReplicasOwnedByOther std_k8s ((Deployment sample_app)\<lparr>dp_Meta := zero_ObjectMeta
     \<lparr>om_ManagedFields := [\<lparr>mf_Manager = ''hpa'', mf_FieldsV1 = Some ''scale''\<rparr>]\<rparr>\<rparr>)"
  unfolding replicas_owned_by_other_iff
  by (simp add: std_k8s_def fmlookup_of_list)

text \<open>
  An update is validated like a creation, except when it cannot make the WebApp worse: one that
  leaves the spec as it was, or is made while the WebApp is being deleted, is accepted without a look at
  the spec, so that finalizers can be removed from a WebApp that has become invalid.
\<close>

theorem update_is_validated_when_it_matters:
  "ValidateUpdate X v old app =
     (if om_DeletionTimestamp (wa_Meta app) = None \<and> \<not> SemanticDeepEqual X (wa_Spec old) (wa_Spec app)
      then ValidateCreate X v app
      else \<lparr>ad_Warnings = [], ad_Error = None, ad_Log = []\<rparr>)"
  by (simp add: ValidateUpdate_def ValidateCreate_def)

text \<open>The schema reserves three labels of the prefix app.kubernetes.io, not the prefix.\<close>

theorem reserved_labels_are_three:
  "reserved_label (''app.kubernetes.io/'' @ s) \<longleftrightarrow> s \<in> {''name'', ''instance'', ''managed-by''}"
  by (auto simp: reserved_label_def HasPrefix_def)

text \<open>
  An evaluation is the concatenation, in the order of the policies, of what each policy contributes:
  violations when it enforces, warnings when it warns or cannot be parsed, log lines when it audits.
\<close>

theorem evaluation_by_parts:
  "Evaluate X app ps nsLabels = Inr
     \<lparr>re_Violations = concat (map (violation_part X nsLabels (violations X app)) ps),
      re_Warnings = concat (map (warning_part X nsLabels (violations X app)) ps),
      re_Audited = concat (map (audit_part X nsLabels (violations X app)) ps)\<rparr>"
  by (simp add: Evaluate_def full.loop_result empty_Result_def)

text \<open>
  Policies accumulate: an evaluation of more policies, wherever the new ones are put, reports every
  violation of an evaluation of fewer.
\<close>

theorem policies_accumulate:
  "\<exists>few many. Evaluate X app qs nsLabels = Inr few \<and> Evaluate X app (ps @ qs @ rs) nsLabels = Inr many \<and>
     set (re_Violations few) \<subseteq> set (re_Violations many)"
  using full.loop_accumulates by (simp add: Evaluate_def)

text \<open>
  Every mount of a container in the pod names a volume of the pod, at the path the WebApp gave it.
\<close>

theorem mounts_name_volumes:
  assumes "kc \<in> set (po_Containers (pt_Spec (de_Template (dp_Spec (Deployment app)))))"
    and "m \<in> set (kc_VolumeMounts kc)"
  shows "\<exists>vol \<in> set (po_Volumes (pt_Spec (de_Template (dp_Spec (Deployment app))))). \<exists>c v.
    c \<in> set (ws_Containers (wa_Spec app)) \<and> v \<in> set (cn_ScratchVolumes c) \<and> cn_Name c = kc_Name kc \<and>
    vm_Name m = vo_Name vol \<and> vm_MountPath m = sw_MountPath v \<and>
    ed_SizeLimit (vo_EmptyDir vol) = sw_SizeLimit v"
proof -
  obtain c where c: "c \<in> set (ws_Containers (wa_Spec app))" "cn_Name c = kc_Name kc"
      "kc_VolumeMounts kc = volumeMounts c"
    using assms(1) by (auto simp: containers_def)
  obtain v where v: "v \<in> set (cn_ScratchVolumes c)"
      "m = \<lparr>vm_Name = ScratchVolumeName c v, vm_MountPath = sw_MountPath v\<rparr>"
    using assms(2) by (auto simp: c(3) volumeMounts_def)
  let ?vol = "\<lparr>vo_Name = ScratchVolumeName c v, vo_EmptyDir =
      \<lparr>ed_Medium = (if sw_Medium v = ScratchMediumMemory then StorageMediumMemory else []),
       ed_SizeLimit = sw_SizeLimit v\<rparr>\<rparr>"
  have "?vol \<in> set (scratchVolumes app)"
    using c(1) v(1) by (fastforce simp: scratchVolumes_def)
  then show ?thesis
    using c(1,2) v by (intro bexI [of _ ?vol] exI [of _ c] exI [of _ v]) simp_all
qed

theorem mounts_name_volumes_witness:
  "\<exists>vol \<in> set (po_Volumes (pt_Spec (de_Template (dp_Spec (Deployment sample_app))))).
     vo_Name vol = ScratchVolumeName sample_container (hd (cn_ScratchVolumes sample_container))"
proof -
  let ?kc = "hd (containers sample_app)"
  have kc: "?kc \<in> set (po_Containers (pt_Spec (de_Template (dp_Spec (Deployment sample_app)))))"
    by (simp add: containers_def)
  have "hd (kc_VolumeMounts ?kc) \<in> set (kc_VolumeMounts ?kc)"
    by (rule hd_in_set) (simp add: containers_def volumeMounts_def sample_container_def)
  from mounts_name_volumes [OF kc this] show ?thesis
    by (auto simp: containers_def volumeMounts_def sample_container_def)
qed

text \<open>
  Two scratch volumes get the same generated name only when they are the same volume of the same
  container, or when the first four bytes of two different SHA-256 digests collide.
\<close>

theorem scratch_names_collide_only_by_hash:
  assumes "CHR 0x00 \<notin> set (cn_Name c)" "CHR 0x00 \<notin> set (cn_Name c')"
    and "ScratchVolumeName c v = ScratchVolumeName c' v'"
  shows "cn_Name c = cn_Name c' \<and> sw_Name v = sw_Name v' \<or>
    cn_Name c @ [CHR 0x00] @ sw_Name v \<noteq> cn_Name c' @ [CHR 0x00] @ sw_Name v' \<and>
    take 4 (Sum256 (cn_Name c @ [CHR 0x00] @ sw_Name v)) = take 4 (Sum256 (cn_Name c' @ [CHR 0x00] @ sw_Name v'))"
proof -
  have "set (take 4 (Sum256 s)) \<subseteq> {0..<256}" for s
    using Sum256_range [of s] set_take_subset [of 4 "Sum256 s"] by blast
  then have "take 4 (Sum256 (cn_Name c @ [CHR 0x00] @ sw_Name v)) = take 4 (Sum256 (cn_Name c' @ [CHR 0x00] @ sw_Name v'))"
    using ScratchVolumeName_parts(2) [OF assms(3)]
    by (intro EncodeToString_inj) (simp_all add: scratch_suffix_def length_Sum256)
  with scratch_key_inj [OF assms(1,2)] show ?thesis by blast
qed

theorem scratch_names_collide_only_by_hash_witness:
  "let v = hd (cn_ScratchVolumes sample_container); w = v\<lparr>sw_MountPath := ''/other''\<rparr>
   in ScratchVolumeName sample_container v = ScratchVolumeName sample_container w \<and>
      (sw_Name v = sw_Name w \<or>
       take 4 (Sum256 (cn_Name sample_container @ [CHR 0x00] @ sw_Name v))
         = take 4 (Sum256 (cn_Name sample_container @ [CHR 0x00] @ sw_Name w)))"
proof -
  let ?v = "hd (cn_ScratchVolumes sample_container)"
  let ?w = "?v\<lparr>sw_MountPath := ''/other''\<rparr>"
  have same: "ScratchVolumeName sample_container ?v = ScratchVolumeName sample_container ?w"
    by (simp add: ScratchVolumeName_def)
  have "CHR 0x00 \<notin> set (cn_Name sample_container)"
    by (simp add: sample_container_def)
  from scratch_names_collide_only_by_hash [OF this this same] same show ?thesis
    unfolding Let_def by blast
qed

text \<open>
  The operator recognises what it builds: each object of a WebApp is stored under the WebApp's own
  key, carries the label the manager's cache selects by, and is controlled by exactly the WebApps with
  the UID of the one it was built for.
\<close>

theorem built_objects_are_recognised:
  assumes "control_documented X"
    and "obj \<in> {ODeployment (Deployment app), OService (Service app)} \<or>
      ingress_object app = Some obj \<or> hpa_object app = Some obj"
  shows "(om_Namespace (meta_of obj), om_Name (meta_of obj)) = ObjectKeyFromObject app \<and>
    fmlookup (om_Labels (meta_of obj)) ManagedByLabel = Some ManagedByValue \<and>
    (IsControlledBy X (meta_of obj) owner \<longleftrightarrow> om_UID owner = app_UID app)"
proof -
  consider "Some (ODeployment (Deployment app)) = Some obj" | "Some (OService (Service app)) = Some obj"
    | "ingress_object app = Some obj" | "hpa_object app = Some obj"
    using assms(2) by auto
  then show ?thesis
  proof cases
    case 1
    from deployment_builder.built_key [OF 1] deployment_builder.built_cached [OF 1]
      deployment_builder.built_controlled [OF assms(1) 1]
    show ?thesis by (simp add: ObjectKeyFromObject_def)
  next
    case 2
    from service_builder.built_key [OF 2] service_builder.built_cached [OF 2]
      service_builder.built_controlled [OF assms(1) 2]
    show ?thesis by (simp add: ObjectKeyFromObject_def)
  next
    case 3
    from ingress_builder.built_key [OF 3] ingress_builder.built_cached [OF 3]
      ingress_builder.built_controlled [OF assms(1) 3]
    show ?thesis by (simp add: ObjectKeyFromObject_def)
  next
    case 4
    from hpa_builder.built_key [OF 4] hpa_builder.built_cached [OF 4]
      hpa_builder.built_controlled [OF assms(1) 4]
    show ?thesis by (simp add: ObjectKeyFromObject_def)
  qed
qed

theorem built_objects_are_recognised_witness:
  "IsControlledBy std_k8s (sv_Meta (Service sample_app)) (wa_Meta sample_app)"
  using built_objects_are_recognised [OF std_control, of "OService (Service sample_app)" sample_app
      "wa_Meta sample_app"] by simp

end
